(* ===== verification/Prelude.thy ===== *)
theory Prelude
  imports Main "HOL-Library.Word" "HOL-Library.Sublist" "HOL-Library.Char_ord"
    "HOL-Library.List_Lexorder"
begin

text \<open>
  The vocabulary the component theories share.

  Machine integers are words of the width the Rust source gives them. A Rust \<open>String\<close> is its
  UTF-8 byte sequence, a HOL \<open>string\<close> (one \<open>char\<close> per byte), so that \<open>len\<close>, prefix tests and
  searches count what the source counts. A \<open>Result\<close> that carries a message, together with the two
  ways the code can go wrong without returning (a read outside a buffer, which is undefined
  behaviour, and a panic, which aborts the process: the release profile sets
  \<open>panic = "abort"\<close>), is the type \<open>outcome\<close>.
\<close>

section \<open>Names of the model's types\<close>

type_synonym u8 = "8 word"
type_synonym u16 = "16 word"
type_synonym u32 = "32 word"
type_synonym u64 = "64 word"
type_synonym bytes = "u8 list"
type_synonym str = string
type_synonym millis = nat

named_theorems outcome_simps \<open>how outcomes pass through the sequencing operators\<close>
named_theorems wire_simps \<open>sizes and field readers of the packed wire format\<close>
named_theorems counter_simps \<open>effect of the operations on the published counters\<close>

section \<open>Outcomes: Result, undefined behaviour, panic\<close>

datatype 'a outcome = Ok 'a | Err str | Undefined | Panicked

fun and_then :: "'a outcome \<Rightarrow> ('a \<Rightarrow> 'b outcome) \<Rightarrow> 'b outcome" where
  "and_then (Ok x) f = f x"
| "and_then (Err e) f = Err e"
| "and_then Undefined f = Undefined"
| "and_then Panicked f = Panicked"

fun map_ok :: "('a \<Rightarrow> 'b) \<Rightarrow> 'a outcome \<Rightarrow> 'b outcome" where
  "map_ok f (Ok x) = Ok (f x)"
| "map_ok f (Err e) = Err e"
| "map_ok f Undefined = Undefined"
| "map_ok f Panicked = Panicked"

text \<open>\<open>map_err(|e| format!("msg{e}"))\<close>.\<close>

definition map_err :: "str \<Rightarrow> 'a outcome \<Rightarrow> 'a outcome" where
  "map_err msg r = (case r of Err e \<Rightarrow> Err (msg @ e) | _ \<Rightarrow> r)"

fun returns :: "'a outcome \<Rightarrow> bool" where
  "returns (Ok x) = True"
| "returns (Err e) = True"
| "returns Undefined = False"
| "returns Panicked = False"

lemma and_then_assoc [outcome_simps]:
  "and_then (and_then m f) g = and_then m (\<lambda>x. and_then (f x) g)"
  by (cases m) simp_all

lemma and_then_Ok_iff [outcome_simps]:
  "and_then m f = Ok y \<longleftrightarrow> (\<exists>x. m = Ok x \<and> f x = Ok y)"
  by (cases m) auto

lemma map_ok_Ok_iff [outcome_simps]: "map_ok f m = Ok y \<longleftrightarrow> (\<exists>x. m = Ok x \<and> y = f x)"
  by (cases m) auto

lemma returns_and_then [outcome_simps]:
  "returns (and_then m f) \<longleftrightarrow> returns m \<and> (\<forall>x. m = Ok x \<longrightarrow> returns (f x))"
  by (cases m) auto

lemma returns_map_ok [outcome_simps]: "returns (map_ok f m) = returns m"
  by (cases m) auto

lemma map_err_Ok_iff [outcome_simps]: "map_err msg m = Ok x \<longleftrightarrow> m = Ok x"
  by (cases m) (auto simp: map_err_def)

lemma returns_map_err [outcome_simps]: "returns (map_err msg m) = returns m"
  by (cases m) (auto simp: map_err_def)

lemma returns_if [outcome_simps]:
  "returns (if b then m else n) \<longleftrightarrow> (if b then returns m else returns n)"
  by simp

section \<open>Numbers as text\<close>

definition digit :: "nat \<Rightarrow> char" where
  "digit n = ''0123456789abcdef'' ! n"

text \<open>\<open>format!("{}", n)\<close> of an unsigned integer, and \<open>format!("{:x}", n)\<close>.\<close>

fun radix :: "nat \<Rightarrow> nat \<Rightarrow> str" where
  "radix b n = (if b < 2 \<or> n < b then [digit n] else radix b (n div b) @ [digit (n mod b)])"

declare radix.simps [simp del]

definition dec :: "nat \<Rightarrow> str" where
  "dec n = radix 10 n"

definition hex :: "nat \<Rightarrow> str" where
  "hex n = radix 16 n"

text \<open>Zero padding to a minimal width, as in \<open>{:04}\<close> and \<open>{:02x}\<close>.\<close>

definition pad0 :: "nat \<Rightarrow> str \<Rightarrow> str" where
  "pad0 w s = replicate (w - length s) (CHR ''0'') @ s"

definition dec_int :: "int \<Rightarrow> str" where
  "dec_int i = (if i < 0 then ''-'' @ dec (nat (- i)) else dec (nat i))"

text \<open>\<open>format!("{:02x}", b)\<close>.\<close>

definition hex_byte :: "u8 \<Rightarrow> str" where
  "hex_byte b = pad0 2 (hex (unat b))"

lemma length_pad0: "length (pad0 w s) = max w (length s)"
  by (simp add: pad0_def)

section \<open>Substrings\<close>

definition starts_with :: "str \<Rightarrow> str \<Rightarrow> bool" where
  "starts_with s p \<longleftrightarrow> take (length p) s = p"

definition ends_with :: "str \<Rightarrow> str \<Rightarrow> bool" where
  "ends_with s p \<longleftrightarrow> length p \<le> length s \<and> drop (length s - length p) s = p"

text \<open>\<open>str::find\<close>: the position of the first occurrence.\<close>

fun find_sub :: "str \<Rightarrow> str \<Rightarrow> nat option" where
  "find_sub p [] = (if p = [] then Some 0 else None)"
| "find_sub p (c # cs) =
     (if starts_with (c # cs) p then Some 0 else map_option Suc (find_sub p cs))"

definition contains_sub :: "str \<Rightarrow> str \<Rightarrow> bool" where
  "contains_sub s p \<longleftrightarrow> find_sub p s \<noteq> None"

text \<open>
  \<open>str::replace\<close> with a non-empty pattern: left to right, without overlap, and without looking
  again at what was inserted.
\<close>

function replace_sub :: "str \<Rightarrow> str \<Rightarrow> str \<Rightarrow> str" where
  "replace_sub p r s =
     (if p = [] then s
      else case s of [] \<Rightarrow> []
      | c # cs \<Rightarrow> if starts_with s p then r @ replace_sub p r (drop (length p) s)
                 else c # replace_sub p r cs)"
  by pat_completeness auto
termination
  by (relation "measure (\<lambda>(p, r, s). length s)") auto

declare replace_sub.simps [simp del]

lemma replace_sub_Nil [simp]: "replace_sub p r [] = []"
  by (simp add: replace_sub.simps)

lemma starts_with_Nil [simp]: "starts_with s []"
  by (simp add: starts_with_def)

lemma starts_with_append [simp]: "starts_with (p @ s) p"
  by (simp add: starts_with_def)

lemma find_sub_bound: "find_sub p s = Some i \<Longrightarrow> i + length p \<le> length s"
proof (induction s arbitrary: i)
  case Nil
  then show ?case by (simp split: if_splits)
next
  case (Cons c cs)
  show ?case
  proof (cases "starts_with (c # cs) p")
    case True
    then have "length p \<le> length (c # cs)"
      unfolding starts_with_def by (metis length_take min.cobounded1)
    with True Cons.prems show ?thesis by simp
  next
    case False
    with Cons show ?thesis by auto
  qed
qed

lemma find_sub_correct: "find_sub p s = Some i \<Longrightarrow> starts_with (drop i s) p"
  by (induction s arbitrary: i) (auto split: if_splits)

text \<open>The separators of a Windows path.\<close>

definition is_separator :: "char \<Rightarrow> bool" where
  "is_separator c \<longleftrightarrow> c = CHR 0x5C \<or> c = CHR ''/''"

section \<open>Association lists\<close>

text \<open>
  A \<open>HashMap\<close> or a JSON object is a list of entries with distinct keys; \<open>put\<close> is \<open>insert\<close>,
  which replaces the value of a key that is present.
\<close>

fun put :: "'k \<Rightarrow> 'v \<Rightarrow> ('k \<times> 'v) list \<Rightarrow> ('k \<times> 'v) list" where
  "put k v [] = [(k, v)]"
| "put k v ((k', v') # m) = (if k = k' then (k, v) # m else (k', v') # put k v m)"

lemma map_of_put [simp]: "map_of (put k v m) = (map_of m)(k \<mapsto> v)"
  by (induction m) (auto simp: fun_eq_iff)

lemma set_keys_put [simp]: "fst ` set (put k v m) = insert k (fst ` set m)"
proof (induction m)
  case (Cons e m)
  obtain a b where e: "e = (a, b)" by force
  with Cons show ?case by (cases "k = a") auto
qed simp

lemma set_put_subset: "set (put k v m) \<subseteq> insert (k, v) (set m)"
  by (induction m) (auto split: if_splits)

lemma distinct_put [intro]: "distinct (map fst m) \<Longrightarrow> distinct (map fst (put k v m))"
proof (induction m)
  case (Cons e m)
  have "fst ` set (put k v m) = insert k (fst ` set m)" by simp
  with Cons show ?case by (cases e) auto
qed simp

lemma length_put: "map_of m k = None \<Longrightarrow> length (put k v m) = Suc (length m)"
  by (induction m) (auto split: if_splits)

end
