(* ===== verification/Utf16.thy ===== *)
theory Utf16
  imports Prelude
begin

unbundle bit_operations_syntax

text \<open>
  UTF-16 as the agent meets it: \<open>String::from_utf16_lossy\<close> on the path fields of the wire format,
  and \<open>encode_utf16\<close> in \<open>to_wide_nul\<close> (\<open>src/src/util/strings.rs\<close>). A string is a list of
  Unicode scalar values on the way, and UTF-8 bytes once it is a Rust \<open>String\<close>.
\<close>

definition replacement :: nat where
  "replacement = 0xFFFD"

definition scalar :: "nat \<Rightarrow> bool" where
  "scalar c \<longleftrightarrow> c < 0xD800 \<or> (0xE000 \<le> c \<and> c < 0x110000)"

text \<open>
  The decoder: a surrogate pair is one scalar value, and an unpaired surrogate is the
  replacement character, without consuming the unit after it.
\<close>

fun utf16_scalars :: "nat list \<Rightarrow> nat list" where
  "utf16_scalars [] = []"
| "utf16_scalars (u # us) =
     (if u < 0xD800 \<or> 0xE000 \<le> u then u # utf16_scalars us
      else if 0xDC00 \<le> u then replacement # utf16_scalars us
      else case us of
        [] \<Rightarrow> [replacement]
      | v # vs \<Rightarrow>
          if 0xDC00 \<le> v \<and> v < 0xE000
          then (0x10000 + (u - 0xD800) * 0x400 + (v - 0xDC00)) # utf16_scalars vs
          else replacement # utf16_scalars (v # vs))"

fun utf16_units :: "nat \<Rightarrow> nat list" where
  "utf16_units c =
     (if c < 0x10000 then [c]
      else [0xD800 + (c - 0x10000) div 0x400, 0xDC00 + (c - 0x10000) mod 0x400])"

definition utf8_char :: "nat \<Rightarrow> str" where
  "utf8_char c =
     (if c < 0x80 then [char_of c]
      else if c < 0x800 then [char_of (0xC0 + c div 0x40), char_of (0x80 + c mod 0x40)]
      else if c < 0x10000 then
        [char_of (0xE0 + c div 0x1000), char_of (0x80 + c div 0x40 mod 0x40),
         char_of (0x80 + c mod 0x40)]
      else
        [char_of (0xF0 + c div 0x40000), char_of (0x80 + c div 0x1000 mod 0x40),
         char_of (0x80 + c div 0x40 mod 0x40), char_of (0x80 + c mod 0x40)])"

definition utf8 :: "nat list \<Rightarrow> str" where
  "utf8 cs = concat (map utf8_char cs)"

definition from_utf16_lossy :: "u16 list \<Rightarrow> str" where
  "from_utf16_lossy us = utf8 (utf16_scalars (map unat us))"

text \<open>
  \<open>to_wide_nul\<close>: the units of the string and a terminating zero. Its argument is a \<open>&str\<close>,
  here as the scalar values it holds.
\<close>

definition to_wide_nul :: "nat list \<Rightarrow> u16 list" where
  "to_wide_nul cs = map word_of_nat (concat (map utf16_units cs)) @ [0]"

lemma utf16_scalars_scalar: "\<forall>u\<in>set us. u < 0x10000 \<Longrightarrow> \<forall>c\<in>set (utf16_scalars us). scalar c"
proof (induction us rule: utf16_scalars.induct)
  case 1
  then show ?case by simp
next
  case (2 u us)
  show ?case
  proof (cases "u < 0xD800 \<or> 0xE000 \<le> u")
    case True
    with 2 show ?thesis by (auto simp: scalar_def)
  next
    case False
    with 2 show ?thesis
      by (cases us) (auto simp: scalar_def replacement_def split: if_splits)
  qed
qed

lemma utf16_units_bound: "scalar c \<Longrightarrow> u \<in> set (utf16_units c) \<Longrightarrow> u < 0x10000"
  by (auto simp: scalar_def split: if_splits)

lemma utf16_scalars_units:
  assumes "scalar c"
  shows "utf16_scalars (utf16_units c @ us) = c # utf16_scalars us"
proof (cases "c < 0x10000")
  case True
  with assms show ?thesis by (auto simp: scalar_def)
next
  case False
  define d where "d = c - 0x10000"
  have d: "c = 0x10000 + d" "d < 0x100000"
    using False assms by (auto simp: d_def scalar_def)
  then have "d div 0x400 < 0x400" by linarith
  moreover have "d mod 0x400 < 0x400" by simp
  moreover have "d div 0x400 * 0x400 + d mod 0x400 = d" by simp
  ultimately show ?thesis using d by simp
qed

lemma utf16_scalars_encode:
  "\<forall>c\<in>set cs. scalar c \<Longrightarrow> utf16_scalars (concat (map utf16_units cs)) = cs"
  by (induction cs) (simp_all del: utf16_scalars.simps utf16_units.simps add: utf16_scalars_units,
      simp)

lemma utf16_scalars_ascii: "\<forall>u\<in>set us. u < 0x80 \<Longrightarrow> utf16_scalars us = us"
  by (induction us) auto

lemma from_utf16_lossy_ascii:
  "\<forall>u\<in>set us. unat u < 0x80 \<Longrightarrow> from_utf16_lossy us = map (\<lambda>u. char_of (unat u)) us"
  by (induction us)
     (auto simp: from_utf16_lossy_def utf8_def utf8_char_def)

lemma from_utf16_lossy_Nil [simp]: "from_utf16_lossy [] = []"
  by (simp add: from_utf16_lossy_def utf8_def)

lemma utf16_units_unat:
  assumes "scalar c"
  shows "map (\<lambda>u. unat (word_of_nat u :: u16)) (utf16_units c) = utf16_units c"
proof -
  have "unat (word_of_nat u :: u16) = u" if "u \<in> set (utf16_units c)" for u
    using utf16_units_bound [OF assms that] by (simp add: unat_of_nat)
  then show ?thesis by (simp only: map_idI)
qed

lemma utf16_words:
  assumes "\<forall>c\<in>set cs. scalar c"
  shows "map unat (map word_of_nat (concat (map utf16_units cs)) :: u16 list)
      = concat (map utf16_units cs)"
  using assms
proof (induction cs)
  case (Cons c cs)
  have "map (\<lambda>u. unat (word_of_nat u :: u16)) (utf16_units c) = utf16_units c"
    using Cons.prems by (intro utf16_units_unat) simp
  with Cons show ?case by (simp del: utf16_units.simps add: comp_def)
qed simp

lemma from_utf16_lossy_encode:
  assumes "\<forall>c\<in>set cs. scalar c"
  shows "from_utf16_lossy (map word_of_nat (concat (map utf16_units cs))) = utf8 cs"
  by (simp only: from_utf16_lossy_def utf16_words [OF assms] utf16_scalars_encode [OF assms])

text \<open>What the agent hands to a Win32 call decodes back to the string it was given: a
NUL-terminated wide string loses nothing of any Rust string, characters outside the basic plane
included, and ends with the only zero it adds.\<close>

theorem wide_decodes:
  assumes "\<forall>c\<in>set cs. scalar c"
  shows "from_utf16_lossy (butlast (to_wide_nul cs)) = utf8 cs \<and> last (to_wide_nul cs) = 0"
  using from_utf16_lossy_encode [OF assms] by (simp add: to_wide_nul_def)

theorem wide_decodes_witness:
  "from_utf16_lossy [0x57, 0xD83D, 0xDC1D] = utf8 [0x57, 0x1F41D]"
  using wide_decodes [of "[0x57, 0x1F41D]"] by (simp add: to_wide_nul_def scalar_def)

end
