(* ===== verification/Text_Util.thy ===== *)
theory Text_Util
  imports Utf16
begin

text \<open>
  The string methods of the standard library that more than one component calls: trimming (Unicode
  white space, on the UTF-8 bytes), ASCII case folding and comparison, and the two character tests
  the configuration uses.
\<close>

definition is_ascii :: "char \<Rightarrow> bool" where
  "is_ascii c \<longleftrightarrow> of_char c < (0x80 :: nat)"

definition ascii_white :: "char \<Rightarrow> bool" where
  "ascii_white c \<longleftrightarrow> c \<in> {CHR 0x09, CHR 0x0A, CHR 0x0B, CHR 0x0C, CHR 0x0D, CHR '' ''}"

definition wide_white :: "str list" where
  "wide_white = map utf8_char
     ([0x85, 0xA0, 0x1680] @ [0x2000..<0x200B] @ [0x2028, 0x2029, 0x202F, 0x205F, 0x3000])"

text \<open>The white-space character at the front, and at the end, if there is one.\<close>

definition leading_space :: "str \<Rightarrow> str option" where
  "leading_space s =
     (if s = [] then None
      else if is_ascii (hd s) then (if ascii_white (hd s) then Some [hd s] else None)
      else find (starts_with s) wide_white)"

definition trailing_space :: "str \<Rightarrow> str option" where
  "trailing_space s =
     (if s = [] then None
      else if is_ascii (last s) then (if ascii_white (last s) then Some [last s] else None)
      else find (ends_with s) wide_white)"

lemma wide_white_not_Nil: "w \<in> set wide_white \<Longrightarrow> w \<noteq> []"
  by (auto simp: wide_white_def utf8_char_def)

lemma leading_space_Some: "leading_space s = Some w \<Longrightarrow> s \<noteq> [] \<and> w \<noteq> []"
  using wide_white_not_Nil
  by (auto simp: leading_space_def find_Some_iff in_set_conv_nth split: if_splits)

lemma trailing_space_Some: "trailing_space s = Some w \<Longrightarrow> s \<noteq> [] \<and> w \<noteq> []"
  using wide_white_not_Nil
  by (auto simp: trailing_space_def find_Some_iff in_set_conv_nth split: if_splits)

function trim_start :: "str \<Rightarrow> str" where
  "trim_start s = (case leading_space s of None \<Rightarrow> s | Some w \<Rightarrow> trim_start (drop (length w) s))"
  by pat_completeness auto
termination
proof (relation "measure length")
  fix s w assume "leading_space s = Some w"
  then have "s \<noteq> [] \<and> w \<noteq> []" by (rule leading_space_Some)
  then show "(drop (length w) s, s) \<in> measure length" by simp
qed simp

function trim_end :: "str \<Rightarrow> str" where
  "trim_end s =
     (case trailing_space s of None \<Rightarrow> s | Some w \<Rightarrow> trim_end (take (length s - length w) s))"
  by pat_completeness auto
termination
proof (relation "measure length")
  fix s w assume "trailing_space s = Some w"
  then have "s \<noteq> [] \<and> w \<noteq> []" by (rule trailing_space_Some)
  then show "(take (length s - length w) s, s) \<in> measure length" by simp
qed simp

declare trim_start.simps [simp del] trim_end.simps [simp del]

definition trim :: "str \<Rightarrow> str" where
  "trim s = trim_end (trim_start s)"

text \<open>\<open>s.trim().is_empty()\<close>.\<close>

definition is_blank :: "str \<Rightarrow> bool" where
  "is_blank s \<longleftrightarrow> trim s = []"

lemma is_blank_Nil [simp]: "is_blank []"
  by (simp add: is_blank_def trim_def trim_start.simps [of "[]"] trim_end.simps [of "[]"]
      leading_space_def trailing_space_def)

text \<open>A text with a visible ASCII character is not blank.\<close>

lemma found: "List.find P xs = Some x \<Longrightarrow> x \<in> set xs \<and> P x"
  by (induction xs) (auto split: if_splits)

lemma utf8_char_not_ascii:
  assumes "0x80 \<le> n" and "n < 0x10000" and "c \<in> set (utf8_char n)"
  shows "\<not> is_ascii c"
proof -
  have lo: "\<not> (0x80 + k mod 0x40) mod 256 < (128 :: nat)" for k :: nat
  proof -
    have "k mod 0x40 < 0x40" by simp
    then show ?thesis by (simp del: mod_less_divisor)
  qed
  have two: "n < 0x800 \<Longrightarrow> \<not> (0xC0 + n div 0x40) mod 256 < 128"
    and three: "\<not> (0xE0 + n div 0x1000) mod 256 < 128"
    using assms(1,2) by simp_all
  show ?thesis
    using assms lo two three by (auto simp: utf8_char_def is_ascii_def simp del: mod_less_divisor split: if_splits)
qed

lemma wide_not_ascii: "w \<in> set wide_white \<Longrightarrow> c \<in> set w \<Longrightarrow> \<not> is_ascii c"
proof -
  assume w: "w \<in> set wide_white" and c: "c \<in> set w"
  obtain n where n: "n \<in> set ([0x85, 0xA0, 0x1680] @ [0x2000..<0x200B] @ [0x2028, 0x2029, 0x202F, 0x205F, 0x3000])"
    "w = utf8_char n" using w unfolding wide_white_def set_map by blast
  then have "0x80 \<le> n" "n < 0x10000" by auto
  with n(2) c show "\<not> is_ascii c" by (auto dest: utf8_char_not_ascii)
qed

lemma leading_space_prefix:
  assumes "leading_space s = Some w"
  shows "take (length w) s = w" and "\<forall>c\<in>set w. is_ascii c \<longrightarrow> ascii_white c"
proof -
  have "s \<noteq> []" "w = [hd s] \<and> ascii_white (hd s) \<or> starts_with s w \<and> w \<in> set wide_white"
    using assms by (auto simp: leading_space_def split: if_splits dest!: found)
  then show "take (length w) s = w" "\<forall>c\<in>set w. is_ascii c \<longrightarrow> ascii_white c"
    using wide_not_ascii by (auto simp: starts_with_def take_Suc)
qed

lemma trailing_space_suffix:
  assumes "trailing_space s = Some w"
  shows "drop (length s - length w) s = w" and "\<forall>c\<in>set w. is_ascii c \<longrightarrow> ascii_white c"
proof -
  have w: "s \<noteq> []" "w = [last s] \<and> ascii_white (last s) \<or> ends_with s w \<and> w \<in> set wide_white"
    using assms by (auto simp: trailing_space_def split: if_splits dest!: found)
  have "drop (length s - 1) s = [last s]" using w(1) by (cases s rule: rev_cases) simp_all
  with w(2) show "drop (length s - length w) s = w" by (auto simp: ends_with_def)
  show "\<forall>c\<in>set w. is_ascii c \<longrightarrow> ascii_white c" using w(2) wide_not_ascii by auto
qed

lemma visible_not_blank:
  assumes "c \<in> set s" and "is_ascii c" and "\<not> ascii_white c"
  shows "\<not> is_blank s"
proof -
  have front: "c \<in> set s \<Longrightarrow> c \<in> set (trim_start s)" for s
  proof (induction s rule: trim_start.induct)
    case (1 s)
    show ?case
    proof (cases "leading_space s")
      case (Some w)
      have "c \<in> set (take (length w) s @ drop (length w) s)" using 1(2) by simp
      then have "c \<in> set (drop (length w) s)"
        unfolding set_append using leading_space_prefix [OF Some] assms(2,3) by auto
      with 1(1) Some show ?thesis by (subst trim_start.simps) simp
    next
      case None
      with 1(2) show ?thesis by (subst trim_start.simps) simp
    qed
  qed
  have ends: "c \<in> set s \<Longrightarrow> c \<in> set (trim_end s)" for s
  proof (induction s rule: trim_end.induct)
    case (1 s)
    show ?case
    proof (cases "trailing_space s")
      case (Some w)
      have "c \<in> set (take (length s - length w) s @ drop (length s - length w) s)" using 1(2) by simp
      then have "c \<in> set (take (length s - length w) s)"
        unfolding set_append using trailing_space_suffix [OF Some] assms(2,3) by auto
      with 1(1) Some show ?thesis by (subst trim_end.simps) simp
    next
      case None
      with 1(2) show ?thesis by (subst trim_end.simps) simp
    qed
  qed
  have "c \<in> set (trim s)" unfolding trim_def by (rule ends [OF front [OF assms(1)]])
  then show ?thesis by (auto simp: is_blank_def)
qed

section \<open>ASCII\<close>

definition ascii_lower :: "char \<Rightarrow> char" where
  "ascii_lower c = (if CHR ''A'' \<le> c \<and> c \<le> CHR ''Z'' then char_of (of_char c + 32 :: nat) else c)"

definition eq_ignore_ascii_case :: "str \<Rightarrow> str \<Rightarrow> bool" where
  "eq_ignore_ascii_case a b \<longleftrightarrow> map ascii_lower a = map ascii_lower b"

definition is_ascii_alphanumeric :: "char \<Rightarrow> bool" where
  "is_ascii_alphanumeric c \<longleftrightarrow>
     (CHR ''0'' \<le> c \<and> c \<le> CHR ''9'') \<or> (CHR ''A'' \<le> c \<and> c \<le> CHR ''Z'') \<or>
     (CHR ''a'' \<le> c \<and> c \<le> CHR ''z'')"

definition is_ascii_whitespace :: "char \<Rightarrow> bool" where
  "is_ascii_whitespace c \<longleftrightarrow> c \<in> {CHR '' '', CHR 0x09, CHR 0x0A, CHR 0x0C, CHR 0x0D}"

text \<open>\<open>s.chars().any(|c| c.is_whitespace() || c.is_control())\<close>.\<close>

fun has_space_or_control :: "str \<Rightarrow> bool" where
  "has_space_or_control [] = False"
| "has_space_or_control (c # cs) =
     ((if is_ascii c then of_char c \<le> (0x20 :: nat) \<or> of_char c = (0x7F :: nat)
       else list_ex (starts_with (c # cs)) (wide_white @ map utf8_char [0x80..<0xA0]))
      \<or> has_space_or_control cs)"

lemma eq_ignore_ascii_case_refl [simp]: "eq_ignore_ascii_case a a"
  by (simp add: eq_ignore_ascii_case_def)

lemma length_eq_ignore_ascii_case: "eq_ignore_ascii_case a b \<Longrightarrow> length a = length b"
  by (simp add: eq_ignore_ascii_case_def) (metis length_map)

section \<open>UTF-8 validation\<close>

text \<open>\<open>String::from_utf8\<close>: the well-formed byte sequences of the Unicode standard, by first byte.\<close>

definition cont :: "nat \<Rightarrow> bool" where
  "cont b \<longleftrightarrow> 0x80 \<le> b \<and> b < 0xC0"

fun utf8_valid :: "nat list \<Rightarrow> bool" where
  "utf8_valid [] = True"
| "utf8_valid (b # bs) =
     (if b < 0x80 then utf8_valid bs
      else if 0xC2 \<le> b \<and> b < 0xE0 then
        (case bs of c # cs \<Rightarrow> cont c \<and> utf8_valid cs | [] \<Rightarrow> False)
      else if 0xE0 \<le> b \<and> b < 0xF0 then
        (case bs of c # d # ds \<Rightarrow>
           cont c \<and> cont d \<and> (b = 0xE0 \<longrightarrow> 0xA0 \<le> c) \<and> (b = 0xED \<longrightarrow> c < 0xA0) \<and> utf8_valid ds
         | _ \<Rightarrow> False)
      else if 0xF0 \<le> b \<and> b < 0xF5 then
        (case bs of c # d # e # es \<Rightarrow>
           cont c \<and> cont d \<and> cont e \<and> (b = 0xF0 \<longrightarrow> 0x90 \<le> c) \<and> (b = 0xF4 \<longrightarrow> c < 0x90)
           \<and> utf8_valid es
         | _ \<Rightarrow> False)
      else False)"

definition str_of_bytes :: "bytes \<Rightarrow> str" where
  "str_of_bytes bs = map (\<lambda>b. char_of (unat b)) bs"

definition bytes_of_str :: "str \<Rightarrow> bytes" where
  "bytes_of_str s = map (\<lambda>c. word_of_nat (of_char c)) s"

definition from_utf8 :: "bytes \<Rightarrow> str option" where
  "from_utf8 bs = (if utf8_valid (map unat bs) then Some (str_of_bytes bs) else None)"

end
