(* ===== verification/Json_Value.thy ===== *)
theory Json_Value
  imports Prelude
begin

text \<open>
  The JSON documents the agent builds and inspects (\<open>serde_json::Value\<close>, whose constructors the
  source matches on), the detection events (\<open>LogEvent\<close> and \<open>FieldValue\<close>, whose constructors
  \<open>src/src/detection/mod.rs\<close> builds), and the conversions between the two. The order of an
  object's entries is not part of any statement here: \<open>serde_json\<close> sorts keys when it writes, and
  the serialiser itself is a parameter of the definitions that call it. A number is an integer or
  the bits of an \<open>f64\<close>.
\<close>

type_synonym f64 = u64

datatype json =
    JNull
  | JBool bool
  | JInt int
  | JFloat f64
  | JStr str
  | JArr "json list"
  | JObj "(str \<times> json) list"

fun json_get :: "str \<Rightarrow> json \<Rightarrow> json option" where
  "json_get k (JObj m) = map_of m k"
| "json_get k _ = None"

fun as_u64 :: "json \<Rightarrow> nat option" where
  "as_u64 (JInt i) = (if 0 \<le> i \<and> i < 2 ^ 64 then Some (nat i) else None)"
| "as_u64 _ = None"

fun as_i64 :: "json \<Rightarrow> int option" where
  "as_i64 (JInt i) = (if - (2 ^ 63) \<le> i \<and> i < 2 ^ 63 then Some i else None)"
| "as_i64 _ = None"

fun as_str :: "json \<Rightarrow> str option" where
  "as_str (JStr s) = Some s"
| "as_str _ = None"

fun as_bool :: "json \<Rightarrow> bool option" where
  "as_bool (JBool b) = Some b"
| "as_bool _ = None"

fun as_array :: "json \<Rightarrow> json list option" where
  "as_array (JArr xs) = Some xs"
| "as_array _ = None"

fun as_object :: "json \<Rightarrow> (str \<times> json) list option" where
  "as_object (JObj m) = Some m"
| "as_object _ = None"

definition get_u64 :: "str \<Rightarrow> json \<Rightarrow> nat option" where
  "get_u64 k j = Option.bind (json_get k j) as_u64"

definition get_str :: "str \<Rightarrow> json \<Rightarrow> str option" where
  "get_str k j = Option.bind (json_get k j) as_str"

definition get_bool :: "str \<Rightarrow> json \<Rightarrow> bool option" where
  "get_bool k j = Option.bind (json_get k j) as_bool"

text \<open>\<open>get(k).and_then(as_str).filter(|s| !s.is_empty())\<close>, which several callers repeat.\<close>

definition get_nonempty :: "str \<Rightarrow> json \<Rightarrow> str option" where
  "get_nonempty k j = (case get_str k j of Some s \<Rightarrow> if s = [] then None else Some s | None \<Rightarrow> None)"

lemma get_nonempty_Some: "get_nonempty k j = Some s \<longleftrightarrow> get_str k j = Some s \<and> s \<noteq> []"
  by (auto simp: get_nonempty_def split: option.splits if_splits)

section \<open>Detection events\<close>

datatype field_value = FInt int | FFloat f64 | FStr str | FBool bool

record log_event =
  le_module :: str
  le_event_type :: str
  le_fields :: "(str \<times> field_value) list"
  le_timestamp :: millis

text \<open>
  \<open>json_to_field_value\<close>: a number is an \<open>i64\<close> when it fits, otherwise an \<open>f64\<close>. The rounding of a
  \<open>u64\<close> above the \<open>i64\<close> range to \<open>f64\<close> (\<open>as_f64\<close>) is the parameter \<open>f\<close>.
\<close>

fun json_to_field_value :: "(int \<Rightarrow> f64) \<Rightarrow> json \<Rightarrow> field_value option" where
  "json_to_field_value f (JInt i) =
     (case as_i64 (JInt i) of Some n \<Rightarrow> Some (FInt n) | None \<Rightarrow> Some (FFloat (f i)))"
| "json_to_field_value f (JFloat x) = Some (FFloat x)"
| "json_to_field_value f (JStr s) = Some (FStr s)"
| "json_to_field_value f (JBool b) = Some (FBool b)"
| "json_to_field_value f _ = None"

fun field_value_to_json :: "field_value \<Rightarrow> json" where
  "field_value_to_json (FInt i) = JInt i"
| "field_value_to_json (FFloat x) = JFloat x"
| "field_value_to_json (FStr s) = JStr s"
| "field_value_to_json (FBool b) = JBool b"

fun flatten_fields :: "(int \<Rightarrow> f64) \<Rightarrow> (str \<times> json) list \<Rightarrow> (str \<times> field_value) list" where
  "flatten_fields f [] = []"
| "flatten_fields f ((k, v) # obj) =
     (case json_to_field_value f v of
        Some fv \<Rightarrow> (k, fv) # flatten_fields f obj
      | None \<Rightarrow> flatten_fields f obj)"

text \<open>Every field is the converted entry of the object, and no scalar entry is lost.\<close>

lemma map_of_flatten_fields:
  assumes "distinct (map fst obj)"
  shows "map_of (flatten_fields f obj) k = Option.bind (map_of obj k) (json_to_field_value f)"
  using assms
proof (induction obj)
  case (Cons e obj)
  obtain k' v where e: "e = (k', v)" by force
  have "map_of obj k = None" if "k = k'"
    using Cons.prems that by (force simp: e map_of_eq_None_iff)
  with Cons show ?case by (auto simp: e split: option.splits)
qed simp

lemma fields_subset: "fst ` set (flatten_fields f obj) \<subseteq> fst ` set obj"
  by (induction f obj rule: flatten_fields.induct) (auto split: option.splits)

text \<open>The numbers a field can hold convert back to what they were.\<close>

lemma field_value_back:
  "json_to_field_value f (field_value_to_json v) = Some v \<longleftrightarrow>
     (\<forall>i. v = FInt i \<longrightarrow> - (2 ^ 63) \<le> i \<and> i < 2 ^ 63)"
  by (cases v) (auto split: if_splits option.splits)

end
