(* ===== verification/Hot_Reload.thy ===== *)
theory Hot_Reload
  imports Prelude
begin

text \<open>
  The polling reload that the rule engine (\<open>detection/mod.rs\<close>) and the manifest store
  (\<open>plugin/manifest.rs\<close>) share: take the fingerprint of the source, do nothing when it is the last
  one loaded, otherwise load, and remember the fingerprint only when loading worked. The source may
  change between the two reads of one tick.
\<close>

locale hot_reload =
  fixes reload :: "'src \<Rightarrow> 's \<Rightarrow> 's option"
    and reflects :: "'src \<Rightarrow> 's \<Rightarrow> bool"
    and fingerprint :: "'src \<Rightarrow> 'fp"
  assumes reload_reflects: "reload src s = Some s' \<Longrightarrow> reflects src s'"
begin

definition tick :: "'src \<times> 'src \<Rightarrow> 'fp \<times> 's \<Rightarrow> 'fp \<times> 's" where
  "tick r st =
     (if fingerprint (fst r) = fst st then st
      else case reload (snd r) (snd st) of
        None \<Rightarrow> st
      | Some s' \<Rightarrow> (fingerprint (fst r), s'))"

definition ticks :: "('src \<times> 'src) list \<Rightarrow> 'fp \<times> 's \<Rightarrow> 'fp \<times> 's" where
  "ticks rs st = fold tick rs st"

text \<open>The source has become final when any read after its final fingerprint was seen is final.\<close>

definition final_reads :: "'src \<Rightarrow> ('src \<times> 'src) list \<Rightarrow> bool" where
  "final_reads src rs \<longleftrightarrow> (\<forall>(seen, read)\<in>set rs. fingerprint seen = fingerprint src \<longrightarrow> read = src)"

definition in_sync :: "'src \<Rightarrow> 'fp \<times> 's \<Rightarrow> bool" where
  "in_sync src st \<longleftrightarrow> (fst st = fingerprint src \<longrightarrow> reflects src (snd st))"

lemma tick_in_sync:
  assumes "in_sync src st" and "fingerprint (fst r) = fingerprint src \<longrightarrow> snd r = src"
  shows "in_sync src (tick r st)"
  using assms by (auto simp: tick_def in_sync_def split: option.splits dest: reload_reflects)

lemma ticks_in_sync:
  "in_sync src st \<Longrightarrow> final_reads src rs \<Longrightarrow> in_sync src (ticks rs st)"
proof (induction rs arbitrary: st)
  case (Cons r rs)
  from Cons.prems(2) have "fingerprint (fst r) = fingerprint src \<longrightarrow> snd r = src"
    and "final_reads src rs" by (auto simp: final_reads_def split: prod.splits)
  with Cons.IH [OF tick_in_sync [OF Cons.prems(1)]] show ?case by (simp add: ticks_def)
qed (simp add: ticks_def)

text \<open>Whatever happened while the source was changing, one tick after it is final and can be loaded
the loaded state reflects it, and later ticks keep it.\<close>

lemma converges:
  assumes "in_sync src st" and "final_reads src rs"
    and "\<And>s. reload src s \<noteq> None" and "n > 0"
  shows "reflects src (snd (ticks (rs @ replicate n (src, src)) st))"
proof -
  define st1 where "st1 = ticks rs st"
  have sync: "in_sync src st1" using ticks_in_sync assms(1,2) by (simp add: st1_def)
  have one: "fst (tick (src, src) st2) = fingerprint src \<and> reflects src (snd (tick (src, src) st2))"
    if "in_sync src st2" for st2
  proof (cases "fst st2 = fingerprint src")
    case True
    with that show ?thesis by (simp add: tick_def in_sync_def)
  next
    case False
    obtain s' where "reload src (snd st2) = Some s'" using assms(3) by blast
    with False reload_reflects [OF this] show ?thesis by (simp add: tick_def)
  qed
  have "fst (ticks (replicate (Suc m) (src, src)) st2) = fingerprint src \<and>
      reflects src (snd (ticks (replicate (Suc m) (src, src)) st2))" if "in_sync src st2" for m st2
    using that
  proof (induction m arbitrary: st2)
    case 0
    from one [OF 0] show ?case by (simp add: ticks_def)
  next
    case (Suc m)
    have "in_sync src (tick (src, src) st2)" using one [OF Suc.prems] by (simp add: in_sync_def)
    from Suc.IH [OF this] show ?case by (simp add: ticks_def)
  qed
  from this [OF sync, of "n - 1"] assms(4) show ?thesis by (simp add: ticks_def st1_def)
qed

text \<open>A source that cannot be loaded leaves the last good state in place, and is tried again.\<close>

lemma failure_keeps:
  assumes "\<And>r s. r \<in> set rs \<Longrightarrow> reload (snd r) s = None"
  shows "ticks rs st = st"
  using assms
proof (induction rs arbitrary: st)
  case (Cons r rs)
  have "tick r st = st" using Cons.prems [of r] by (simp add: tick_def)
  with Cons show ?case by (simp add: ticks_def)
qed (simp add: ticks_def)

end

end
