(* ===== verification/Manifest.thy ===== *)
theory Manifest
  imports Text_Util Json_Value Hot_Reload "HOL-Library.Multiset"
begin

text \<open>
  The plugin manifest store (\<open>src/src/plugin/manifest.rs\<close>): one JSON file per plugin in a directory,
  loaded into an immutable store, reloaded when the fingerprint of the directory changes
  (\<open>reload_loop\<close> of \<open>src/src/plugin/server.rs\<close>). File names and paths are Rust strings in WTF-8; a
  name that is not Unicode is one that is not valid UTF-8. Parsing JSON text is the parameter
  \<open>from_slice\<close>; the derived \<open>Deserialize\<close> of a manifest is written out for a document that is an
  object. Unicode lower-casing is the parameter \<open>lower\<close>.
\<close>

record plugin_manifest =
  pm_plugin_id :: str
  pm_name :: str
  pm_vendor :: str
  pm_expected_path :: str
  pm_expected_sha256 :: "str option"
  pm_expected_signer :: "str option"
  pm_revoked :: bool
  pm_enrolled_at :: "str option"
  pm_auto_launch :: bool
  pm_env :: "(str \<times> str) list"

text \<open>Fields with \<open>#[serde(default)]\<close>: absent means the default, a wrong type is an error.\<close>

definition default_str :: "str \<Rightarrow> json \<Rightarrow> str option option" where
  "default_str k j =
     (case json_get k j of
        None \<Rightarrow> Some None
      | Some JNull \<Rightarrow> Some None
      | Some (JStr s) \<Rightarrow> Some (Some s)
      | Some _ \<Rightarrow> None)"

definition default_bool :: "str \<Rightarrow> json \<Rightarrow> bool option" where
  "default_bool k j = (case json_get k j of None \<Rightarrow> Some False | Some v \<Rightarrow> as_bool v)"

fun str_entries :: "(str \<times> json) list \<Rightarrow> (str \<times> str) list option" where
  "str_entries [] = Some []"
| "str_entries ((k, JStr s) # m) = map_option (Cons (k, s)) (str_entries m)"
| "str_entries _ = None"

definition default_env :: "str \<Rightarrow> json \<Rightarrow> (str \<times> str) list option" where
  "default_env k j =
     (case json_get k j of None \<Rightarrow> Some [] | Some v \<Rightarrow> Option.bind (as_object v) str_entries)"

definition manifest_of_json :: "json \<Rightarrow> plugin_manifest option" where
  "manifest_of_json j =
     (case (get_str ''plugin_id'' j, get_str ''name'' j, get_str ''vendor'' j,
            get_str ''expected_path'' j) of
        (Some i, Some n, Some v, Some p) \<Rightarrow>
          (case (default_str ''expected_sha256'' j, default_str ''expected_signer'' j,
                 default_bool ''revoked'' j) of
             (Some h, Some s, Some r) \<Rightarrow>
               (case (default_str ''enrolled_at'' j, default_bool ''auto_launch'' j,
                      default_env ''env'' j) of
                  (Some e, Some a, Some env) \<Rightarrow>
                    Some \<lparr>pm_plugin_id = i, pm_name = n, pm_vendor = v, pm_expected_path = p,
                          pm_expected_sha256 = h, pm_expected_signer = s, pm_revoked = r,
                          pm_enrolled_at = e, pm_auto_launch = a, pm_env = env\<rparr>
                | _ \<Rightarrow> None)
           | _ \<Rightarrow> None)
      | _ \<Rightarrow> None)"

section \<open>Files and directories\<close>

text \<open>\<open>Path::file_stem\<close> and \<open>Path::extension\<close> of a file name: split at the last dot, unless it is
the first character.\<close>

definition rsplit_dot :: "str \<Rightarrow> str \<times> str option" where
  "rsplit_dot s =
     (case dropWhile (\<lambda>c. c \<noteq> CHR ''.'') (rev s) of
        [] \<Rightarrow> (s, None)
      | d # before \<Rightarrow>
          if before = [] then (s, None)
          else (rev before, Some (rev (takeWhile (\<lambda>c. c \<noteq> CHR ''.'') (rev s)))))"

definition file_stem :: "str \<Rightarrow> str" where "file_stem s = fst (rsplit_dot s)"
definition extension :: "str \<Rightarrow> str option" where "extension s = snd (rsplit_dot s)"

definition to_str :: "str \<Rightarrow> str option" where
  "to_str s = (if utf8_valid (map of_char s) then Some s else None)"

text \<open>A file as the agent finds it: name, content, modification time in nanoseconds and length.\<close>

record dir_file =
  df_name :: str
  df_content :: "str + bytes"
  df_meta :: "(128 word option \<times> u64) option"

datatype directory = Missing | Unreadable str | Listing "(str + dir_file) list"

definition is_json_file :: "dir_file \<Rightarrow> bool" where
  "is_json_file f \<longleftrightarrow> Option.bind (extension (df_name f)) to_str = Some ''json''"

section \<open>Loading\<close>

datatype load_error = Load_io str | Invalid

definition load_one :: "(bytes \<Rightarrow> json option) \<Rightarrow> dir_file \<Rightarrow> load_error + plugin_manifest" where
  "load_one from_slice f =
     (case df_content f of
        Inl e \<Rightarrow> Inl (Load_io e)
      | Inr bs \<Rightarrow>
          (case Option.bind (from_slice bs) manifest_of_json of
             None \<Rightarrow> Inl Invalid
           | Some m \<Rightarrow>
               let stem = (case to_str (file_stem (df_name f)) of Some s \<Rightarrow> s | None \<Rightarrow> []) in
               if stem \<noteq> pm_plugin_id m then Inl Invalid
               else if pm_expected_sha256 m = None \<and> pm_expected_signer m = None then Inl Invalid
               else Inr m))"

fun load_entries ::
    "(bytes \<Rightarrow> json option) \<Rightarrow> (str + dir_file) list \<Rightarrow> (str \<times> plugin_manifest) list \<Rightarrow>
     load_error + (str \<times> plugin_manifest) list" where
  "load_entries from_slice [] by_id = Inr by_id"
| "load_entries from_slice (Inl e # es) by_id = Inl (Load_io e)"
| "load_entries from_slice (Inr f # es) by_id =
     (if \<not> is_json_file f then load_entries from_slice es by_id
      else case load_one from_slice f of
        Inl e \<Rightarrow> load_entries from_slice es by_id
      | Inr m \<Rightarrow>
          if map_of by_id (pm_plugin_id m) \<noteq> None then load_entries from_slice es by_id
          else load_entries from_slice es (put (pm_plugin_id m) m by_id))"

section \<open>Fingerprint\<close>

definition file_tuple :: "dir_file \<Rightarrow> (str \<times> 128 word \<times> u64) option" where
  "file_tuple f =
     (if \<not> is_json_file f then None
      else case to_str (df_name f) of
        None \<Rightarrow> None
      | Some n \<Rightarrow>
          (case df_meta f of
             None \<Rightarrow> None
           | Some (mtime, len) \<Rightarrow> Some (n, (case mtime of Some t \<Rightarrow> t | None \<Rightarrow> 0), len)))"

definition file_tuples :: "(str + dir_file) list \<Rightarrow> (str \<times> 128 word \<times> u64) list" where
  "file_tuples es = List.map_filter (\<lambda>e. case e of Inl _ \<Rightarrow> None | Inr f \<Rightarrow> file_tuple f) es"

text \<open>Little-endian bytes of a word, as \<open>to_le_bytes\<close>.\<close>

definition le_bytes_of :: "nat \<Rightarrow> 'a::len word \<Rightarrow> bytes" where
  "le_bytes_of n w = map (\<lambda>i. ucast (drop_bit (8 * i) w)) [0..<n]"

definition tuple_bytes :: "str \<times> 128 word \<times> u64 \<Rightarrow> bytes" where
  "tuple_bytes t =
     (case t of (name, mtime, len) \<Rightarrow>
        map of_char name @ le_bytes_of 16 mtime @ le_bytes_of 8 len)"

definition fnv_prime :: u64 where "fnv_prime = 0x100000001b3"
definition fnv_basis :: u64 where "fnv_basis = 0xcbf29ce484222325"

definition fnv_step :: "u8 \<Rightarrow> u64 \<Rightarrow> u64" where
  "fnv_step b h = (xor h (ucast b)) * fnv_prime"

definition directory_fingerprint :: "directory \<Rightarrow> u64" where
  "directory_fingerprint dir =
     (case dir of
        Listing es \<Rightarrow>
          fold fnv_step (concat (map tuple_bytes (sort_key fst (file_tuples es)))) fnv_basis
      | _ \<Rightarrow> 0)"

section \<open>The store\<close>

record manifest_store =
  ms_by_id :: "(str \<times> plugin_manifest) list"
  ms_fingerprint :: u64

definition store_get :: "manifest_store \<Rightarrow> str \<Rightarrow> plugin_manifest option" where
  "store_get s i = map_of (ms_by_id s) i"

definition store_len :: "manifest_store \<Rightarrow> nat" where
  "store_len s = length (ms_by_id s)"

definition empty_store :: manifest_store where
  "empty_store = \<lparr>ms_by_id = [], ms_fingerprint = 0\<rparr>"

text \<open>\<open>load_dir\<close> fingerprints the directory first and lists it afterwards; the two may differ.\<close>

definition load_dir ::
    "(bytes \<Rightarrow> json option) \<Rightarrow> directory \<Rightarrow> directory \<Rightarrow> load_error + manifest_store" where
  "load_dir from_slice seen dir =
     (case dir of
        Missing \<Rightarrow> Inr \<lparr>ms_by_id = [], ms_fingerprint = directory_fingerprint seen\<rparr>
      | Unreadable e \<Rightarrow> Inl (Load_io e)
      | Listing es \<Rightarrow>
          (case load_entries from_slice es [] of
             Inl e \<Rightarrow> Inl e
           | Inr by_id \<Rightarrow> Inr \<lparr>ms_by_id = by_id, ms_fingerprint = directory_fingerprint seen\<rparr>))"

definition paths_match :: "(str \<Rightarrow> str) \<Rightarrow> str \<Rightarrow> str \<Rightarrow> bool" where
  "paths_match lower a b \<longleftrightarrow> lower a = lower b"

section \<open>What the store holds\<close>

lemma load_one_iff:
  "load_one from_slice f = Inr m \<longleftrightarrow>
     (\<exists>bs. df_content f = Inr bs \<and> Option.bind (from_slice bs) manifest_of_json = Some m) \<and>
     (case to_str (file_stem (df_name f)) of Some s \<Rightarrow> s | None \<Rightarrow> []) = pm_plugin_id m \<and>
     (pm_expected_sha256 m \<noteq> None \<or> pm_expected_signer m \<noteq> None)"
  by (auto simp: load_one_def Let_def split: sum.splits option.splits)

lemma rsplit_dot_append: "s \<noteq> [] \<Longrightarrow> CHR ''.'' \<notin> set e \<Longrightarrow> rsplit_dot (s @ ''.'' @ e) = (s, Some e)"
  by (auto simp: rsplit_dot_def dropWhile_append takeWhile_append split: list.splits)

lemma rsplit_dot_Some: "rsplit_dot s = (a, Some e) \<Longrightarrow> s = a @ ''.'' @ e"
proof -
  assume split: "rsplit_dot s = (a, Some e)"
  let ?P = "\<lambda>c. c \<noteq> CHR ''.''"
  from split obtain d r where dr: "dropWhile ?P (rev s) = d # r" "a = rev r"
    "e = rev (takeWhile ?P (rev s))"
    by (auto simp: rsplit_dot_def split: list.splits if_splits)
  then have "d = CHR ''.''" using hd_dropWhile [of ?P "rev s"] by auto
  then have "rev s = takeWhile ?P (rev s) @ CHR ''.'' # r"
    using takeWhile_dropWhile_id [of ?P "rev s"] dr(1) by simp
  then have "rev (rev s) = rev (takeWhile ?P (rev s) @ CHR ''.'' # r)" by (rule arg_cong)
  then show ?thesis using dr by simp
qed

lemma json_file_name: "is_json_file f \<longleftrightarrow> (\<exists>a. rsplit_dot (df_name f) = (a, Some ''json''))"
proof -
  have "utf8_valid (map of_char ''json'')" by code_simp
  then show ?thesis
    by (cases "rsplit_dot (df_name f)")
      (auto simp: is_json_file_def extension_def to_str_def split: option.splits bind_splits if_splits)
qed

lemma loaded_name:
  assumes "is_json_file f" and "load_one from_slice f = Inr m" and "pm_plugin_id m \<noteq> []"
  shows "df_name f = pm_plugin_id m @ ''.json''"
proof -
  from assms(1) obtain a where a: "rsplit_dot (df_name f) = (a, Some ''json'')"
    by (auto simp: json_file_name)
  have "a = pm_plugin_id m"
    using assms(2,3) by (auto simp: load_one_iff file_stem_def a to_str_def split: if_splits)
  with rsplit_dot_Some [OF a] show ?thesis by simp
qed

text \<open>Everything the store holds was validated when it was loaded.\<close>

lemma load_entries_sources:
  "load_entries fs es acc = Inr ids \<Longrightarrow>
     set ids \<subseteq> set acc \<union> {(pm_plugin_id m, m) | m. \<exists>f. load_one fs f = Inr m}"
proof (induction es arbitrary: acc)
  case (Cons e es)
  let ?new = "{(pm_plugin_id m, m) | m. \<exists>f. load_one fs f = Inr m}"
  from Cons.prems obtain f where e: "e = Inr f" by (cases e) auto
  show ?case
  proof (cases "load_entries fs es acc = Inr ids")
    case True
    then show ?thesis by (rule Cons.IH)
  next
    case False
    then obtain m where m: "load_one fs f = Inr m" "load_entries fs es (put (pm_plugin_id m) m acc) = Inr ids"
      using Cons.prems by (auto simp: e split: if_splits sum.splits)
    have "set ids \<subseteq> set (put (pm_plugin_id m) m acc) \<union> ?new" by (rule Cons.IH [OF m(2)])
    also have "\<dots> \<subseteq> insert (pm_plugin_id m, m) (set acc) \<union> ?new"
      using set_put_subset by (rule Un_mono) simp
    also have "\<dots> \<subseteq> set acc \<union> ?new" using m(1) by blast
    finally show ?thesis .
  qed
qed simp

lemma loaded_sources:
  "load_dir fs seen dir = Inr store \<Longrightarrow>
     set (ms_by_id store) \<subseteq> {(pm_plugin_id m, m) | m. \<exists>f. load_one fs f = Inr m}"
  using load_entries_sources [of fs _ "[]"]
  by (fastforce simp: load_dir_def split: directory.splits sum.splits)

lemma load_entries_distinct:
  "load_entries fs es acc = Inr ids \<Longrightarrow> distinct (map fst acc) \<Longrightarrow> distinct (map fst ids)"
proof (induction es arbitrary: acc)
  case (Cons e es)
  then show ?case
    by (cases e) (auto split: if_splits sum.splits intro: distinct_put)
qed simp

lemma loaded_distinct: "load_dir fs seen dir = Inr store \<Longrightarrow> distinct (map fst (ms_by_id store))"
  using load_entries_distinct [of fs _ "[]"]
  by (fastforce simp: load_dir_def split: directory.splits sum.splits)

text \<open>The entries a listing contributes, in order; the first of a plugin id wins.\<close>

definition contributed ::
    "(bytes \<Rightarrow> json option) \<Rightarrow> dir_file \<Rightarrow> (str \<times> plugin_manifest) option" where
  "contributed from_slice f =
     (if is_json_file f then
        (case load_one from_slice f of Inr m \<Rightarrow> Some (pm_plugin_id m, m) | Inl _ \<Rightarrow> None)
      else None)"

lemma load_entries_map:
  "\<exists>by_id. load_entries from_slice (map Inr files) acc = Inr by_id \<and>
     (\<forall>i. map_of by_id i = map_of (acc @ List.map_filter (contributed from_slice) files) i)"
proof (induction files arbitrary: acc)
  case (Cons f files)
  show ?case
  proof (cases "contributed from_slice f")
    case None
    then show ?thesis using Cons [of acc]
      by (auto simp: contributed_def map_filter_simps split: sum.splits if_splits)
  next
    case (Some e)
    then obtain m where m: "is_json_file f" "load_one from_slice f = Inr m" "e = (pm_plugin_id m, m)"
      by (auto simp: contributed_def split: sum.splits if_splits)
    show ?thesis
    proof (cases "map_of acc (pm_plugin_id m)")
      case None
      obtain by_id where by_id: "load_entries from_slice (map Inr files) (put (pm_plugin_id m) m acc)
          = Inr by_id" "\<And>i. map_of by_id i = map_of (put (pm_plugin_id m) m acc @
            List.map_filter (contributed from_slice) files) i"
        using Cons by blast
      have "map_of by_id i = map_of (acc @ List.map_filter (contributed from_slice) (f # files)) i"
        for i using None m(3) Some 
        by (simp add: by_id(2) map_filter_simps map_add_def split: option.split)
      with by_id(1) m(1,2) None show ?thesis by simp
    next
      case (Some m')
      obtain by_id where by_id: "load_entries from_slice (map Inr files) acc = Inr by_id"
        "\<And>i. map_of by_id i = map_of (acc @ List.map_filter (contributed from_slice) files) i"
        using Cons by blast
      have "map_of by_id i = map_of (acc @ List.map_filter (contributed from_slice) (f # files)) i"
        for i using Some m(3) \<open>contributed from_slice f = Some e\<close>
        by (simp add: by_id(2) map_filter_simps map_add_def split: option.split)
      with by_id(1) m(1,2) Some show ?thesis by simp
    qed
  qed
qed (simp add: map_filter_simps)

lemma map_of_map_filter_unique:
  assumes "distinct (map n xs)"
    and "\<And>x v. x \<in> set xs \<Longrightarrow> g x = Some (k, v) \<Longrightarrow> n x = c"
  shows "map_of (List.map_filter g xs) k = Some v \<longleftrightarrow> (\<exists>x\<in>set xs. g x = Some (k, v))"
  using assms
proof (induction xs)
  case (Cons x xs)
  from Cons.prems have "distinct (map n xs)"
    "\<And>x v. x \<in> set xs \<Longrightarrow> g x = Some (k, v) \<Longrightarrow> n x = c" by auto
  from Cons.IH [OF this] have tail:
    "map_of (List.map_filter g xs) k = Some v \<longleftrightarrow> (\<exists>x\<in>set xs. g x = Some (k, v))" .
  show ?case
  proof (cases "\<exists>v'. g x = Some (k, v')")
    case True
    then obtain v' where v': "g x = Some (k, v')" by blast
    then have "n x = c" using Cons.prems(2) [of x v'] by simp
    moreover have "n y = c" if "y \<in> set xs" "g y = Some (k, w)" for y w
      using that Cons.prems(2) [of y w] by simp
    ultimately have "g y \<noteq> Some (k, w)" if "y \<in> set xs" for y w
      using that Cons.prems(1) by (metis distinct.simps(2) image_eqI list.set_map list.simps(9))
    with v' show ?thesis by (auto simp: map_filter_simps)
  next
    case False
    then show ?thesis using tail by (auto simp: map_filter_simps split: option.splits)
  qed
qed (simp add: map_filter_simps)

lemma store_lookup:
  assumes "distinct (map df_name files)" and "i \<noteq> []" and "utf8_valid (map of_char i)"
  shows "\<exists>s. load_dir from_slice seen (Listing (map Inr files)) = Inr s \<and>
    (store_get s i = Some m \<longleftrightarrow>
       (\<exists>f\<in>set files. df_name f = i @ ''.json'' \<and> pm_plugin_id m = i \<and>
          (\<exists>bs. df_content f = Inr bs \<and> Option.bind (from_slice bs) manifest_of_json = Some m) \<and>
          (pm_expected_sha256 m \<noteq> None \<or> pm_expected_signer m \<noteq> None)))"
proof -
  obtain by_id where by_id: "load_entries from_slice (map Inr files) [] = Inr by_id"
    "\<And>j. map_of by_id j = map_of (List.map_filter (contributed from_slice) files) j"
    using load_entries_map [of from_slice files "[]"] by auto
  have name: "contributed from_slice f = Some (i, m') \<Longrightarrow> df_name f = i @ ''.json''" for f m'
    using loaded_name [of f from_slice m'] assms(2)
    by (auto simp: contributed_def split: if_splits sum.splits)
  have stem: "to_str (file_stem (i @ ''.json'')) = Some i"
    using rsplit_dot_append [of i "''json''"] assms(2,3) by (simp add: file_stem_def to_str_def)
  have json: "is_json_file f" if "df_name f = i @ ''.json''" for f
    using rsplit_dot_append [of i "''json''"] assms(2) that by (simp add: json_file_name)
  have from_file: "contributed from_slice f = Some (i, m) \<longleftrightarrow>
      df_name f = i @ ''.json'' \<and> load_one from_slice f = Inr m \<and> pm_plugin_id m = i" for f
  proof
    assume some: "contributed from_slice f = Some (i, m)"
    then have "load_one from_slice f = Inr m \<and> pm_plugin_id m = i"
      by (auto simp: contributed_def split: if_splits sum.splits)
    with name [OF some] show "df_name f = i @ ''.json'' \<and> load_one from_slice f = Inr m \<and>
      pm_plugin_id m = i" by simp
  qed (use json in \<open>simp add: contributed_def\<close>)
  have "map_of by_id i = Some m \<longleftrightarrow> (\<exists>f\<in>set files. contributed from_slice f = Some (i, m))"
    unfolding by_id(2) by (rule map_of_map_filter_unique [OF assms(1) name])
  also have "\<dots> \<longleftrightarrow> (\<exists>f\<in>set files. df_name f = i @ ''.json'' \<and> load_one from_slice f = Inr m \<and>
      pm_plugin_id m = i)"
    using from_file by simp
  finally have got: "map_of by_id i = Some m \<longleftrightarrow> (\<exists>f\<in>set files. df_name f = i @ ''.json'' \<and>
      load_one from_slice f = Inr m \<and> pm_plugin_id m = i)" .
  have one: "load_one from_slice f = Inr m \<and> pm_plugin_id m = i \<longleftrightarrow> pm_plugin_id m = i \<and>
      (\<exists>bs. df_content f = Inr bs \<and> Option.bind (from_slice bs) manifest_of_json = Some m) \<and>
      (pm_expected_sha256 m \<noteq> None \<or> pm_expected_signer m \<noteq> None)"
    if "df_name f = i @ ''.json''" for f
    using stem that unfolding load_one_iff by auto
  let ?s = "\<lparr>ms_by_id = by_id, ms_fingerprint = directory_fingerprint seen\<rparr>"
  have loaded: "load_dir from_slice seen (Listing (map Inr files)) = Inr ?s"
    by (simp add: load_dir_def by_id(1))
  have "store_get ?s i = Some m \<longleftrightarrow> (\<exists>f\<in>set files. df_name f = i @ ''.json'' \<and>
      load_one from_slice f = Inr m \<and> pm_plugin_id m = i)"
    by (simp only: store_get_def manifest_store.select_convs got)
  also have "\<dots> \<longleftrightarrow> (\<exists>f\<in>set files. df_name f = i @ ''.json'' \<and> pm_plugin_id m = i \<and>
      (\<exists>bs. df_content f = Inr bs \<and> Option.bind (from_slice bs) manifest_of_json = Some m) \<and>
      (pm_expected_sha256 m \<noteq> None \<or> pm_expected_signer m \<noteq> None))"
    using one by meson
  finally show ?thesis using loaded by blast
qed

text \<open>The store holds exactly the enrolled plugins: for a directory that could be listed, the
manifest found under an id is the one of the file \<open><id>.json\<close>, which must parse, name that id itself and
pin the binary by a hash or a signature; no other file can enrol the id, and the order of the
listing does not matter.\<close>

theorem manifest_store_exact:
  assumes "distinct (map df_name files)" and "i \<noteq> []" and "utf8_valid (map of_char i)"
  shows "\<exists>s. load_dir from_slice seen (Listing (map Inr files)) = Inr s \<and>
    (store_get s i = Some m \<longleftrightarrow>
       (\<exists>f\<in>set files. df_name f = i @ ''.json'' \<and> pm_plugin_id m = i \<and>
          (\<exists>bs. df_content f = Inr bs \<and> Option.bind (from_slice bs) manifest_of_json = Some m) \<and>
          (pm_expected_sha256 m \<noteq> None \<or> pm_expected_signer m \<noteq> None)))"
  using assms by (rule store_lookup)

section \<open>What the fingerprint notices\<close>

lemma fnv_prime_inverse: "fnv_prime * 0xce965057aff6957b = 1"
  by (simp add: fnv_prime_def)

lemma times_fnv_prime_inject: "a * fnv_prime = b * fnv_prime \<longleftrightarrow> a = b"
proof
  assume "a * fnv_prime = b * fnv_prime"
  then have "a * fnv_prime * 0xce965057aff6957b = b * fnv_prime * 0xce965057aff6957b" by simp
  then show "a = b" by (simp only: mult.assoc fnv_prime_inverse mult_1_right)
qed simp

lemma xor_cancel_right: "xor a c = xor b c \<longleftrightarrow> a = b" for a b c :: u64
proof
  assume "xor a c = xor b c"
  then have "xor (xor a c) c = xor (xor b c) c" by simp
  then show "a = b" by (simp add: xor.assoc)
qed simp

lemma fnv_step_inject_state [simp]: "fnv_step b h = fnv_step b h' \<longleftrightarrow> h = h'"
  by (simp add: fnv_step_def times_fnv_prime_inject xor_cancel_right)

lemma fnv_step_inject_byte: "fnv_step a h = fnv_step b h \<longleftrightarrow> a = b"
proof
  assume "fnv_step a h = fnv_step b h"
  then have "(ucast a :: u64) = ucast b"
    by (simp add: fnv_step_def times_fnv_prime_inject xor.commute [of h] xor_cancel_right)
  then have "uint (ucast a :: u64) = uint (ucast b :: u64)" by simp
  moreover have "take_bit 64 (uint x) = uint x" for x :: u8
    using uint_lt2p [of x] by (simp add: take_bit_int_eq_self)
  ultimately show "a = b" by (simp add: unsigned_ucast_eq word_uint_eq_iff)
qed simp

lemma fold_fnv_inject [simp]: "fold fnv_step bs h = fold fnv_step bs h' \<longleftrightarrow> h = h'"
  by (induction bs arbitrary: h h') simp_all

lemma file_tuple_name: "file_tuple f = Some t \<Longrightarrow> fst t = df_name f"
  by (auto simp: file_tuple_def to_str_def split: option.splits if_splits)

lemma file_tuples_map: "file_tuples (map Inr files) = List.map_filter file_tuple files"
  by (induction files) (auto simp: file_tuples_def map_filter_simps split: option.splits)

lemma file_tuples_names: "fst ` set (List.map_filter file_tuple files) \<subseteq> df_name ` set files"
  by (induction files) (auto simp: map_filter_simps dest: file_tuple_name split: option.splits)

lemma distinct_file_tuples:
  "distinct (map df_name files) \<Longrightarrow> distinct (map fst (List.map_filter file_tuple files))"
proof (induction files)
  case (Cons f files)
  have "df_name f \<notin> fst ` set (List.map_filter file_tuple files)"
    using file_tuples_names [of files] Cons.prems by auto
  with Cons show ?case
    by (cases "file_tuple f") (simp_all add: map_filter_simps file_tuple_name)
qed (simp add: map_filter_simps)

lemma mset_file_tuples:
  "mset (List.map_filter file_tuple files) =
     (\<Sum>f\<in>#mset files. mset (case file_tuple f of None \<Rightarrow> [] | Some t \<Rightarrow> [t]))"
  by (induction files) (simp_all add: map_filter_simps split: option.split)

lemma fingerprint_perm:
  assumes "mset files = mset files'" and "distinct (map df_name files)"
  shows "directory_fingerprint (Listing (map Inr files)) = directory_fingerprint (Listing (map Inr files'))"
proof -
  have "mset (file_tuples (map Inr files)) = mset (file_tuples (map Inr files'))"
    by (simp add: file_tuples_map mset_file_tuples assms(1))
  moreover have "inj_on fst (set (file_tuples (map Inr files)))"
    unfolding file_tuples_map using distinct_file_tuples [OF assms(2)] distinct_map by blast
  ultimately have "sort_key fst (file_tuples (map Inr files)) =
      sort_key fst (file_tuples (map Inr files'))"
    by (rule sort_key_eq_sort_key)
  then show ?thesis by (simp add: directory_fingerprint_def)
qed

text \<open>The fingerprint depends on what is in the directory and not on how it is listed: permuting the
listing never changes it; and it never misses a change that alters a single byte of the names, times
and lengths it reads, however FNV mixes the rest.\<close>

theorem fingerprint_sound:
  assumes "mset files = mset files'" and "distinct (map df_name files)"
    and "concat (map tuple_bytes (sort_key fst (file_tuples (map Inr files)))) = xs @ a # ys"
    and "concat (map tuple_bytes (sort_key fst (file_tuples (map Inr changed)))) = xs @ b # ys"
    and "a \<noteq> b"
  shows "directory_fingerprint (Listing (map Inr files')) = directory_fingerprint (Listing (map Inr files)) \<and>
    directory_fingerprint (Listing (map Inr changed)) \<noteq> directory_fingerprint (Listing (map Inr files))"
proof
  show "directory_fingerprint (Listing (map Inr files')) = directory_fingerprint (Listing (map Inr files))"
    using fingerprint_perm [OF assms(1,2)] by simp
  show "directory_fingerprint (Listing (map Inr changed)) \<noteq> directory_fingerprint (Listing (map Inr files))"
    using assms(5) by (simp add: directory_fingerprint_def assms(3,4) fnv_step_inject_byte)
qed

text \<open>The reload loop of the server. One turn sees the directory three times: for the comparison, for
the fingerprint \<open>load_dir\<close> stores, and for the listing.\<close>

record reload_state =
  rl_last_fp :: u64
  rl_store :: manifest_store
  rl_enrolled :: nat
  rl_reloads :: u64

definition reload_loop ::
    "(bytes \<Rightarrow> json option) \<Rightarrow> directory \<times> directory \<times> directory \<Rightarrow> reload_state \<Rightarrow> reload_state" where
  "reload_loop from_slice r st =
     (case r of (seen, seen', dir) \<Rightarrow>
        let fp = directory_fingerprint seen in
        if fp = rl_last_fp st then st
        else case load_dir from_slice seen' dir of
          Inl e \<Rightarrow> st
        | Inr s \<Rightarrow>
            st\<lparr>rl_store := s, rl_enrolled := store_len s, rl_reloads := rl_reloads st + 1,
               rl_last_fp := fp\<rparr>)"

text \<open>\<open>spawn_server\<close>: an initial load that fails leaves an empty store.\<close>

definition spawn_server :: "(bytes \<Rightarrow> json option) \<Rightarrow> directory \<Rightarrow> directory \<Rightarrow> reload_state" where
  "spawn_server from_slice seen dir =
     (let s = (case load_dir from_slice seen dir of Inr s \<Rightarrow> s | Inl e \<Rightarrow> empty_store) in
      \<lparr>rl_last_fp = ms_fingerprint s, rl_store = s, rl_enrolled = store_len s, rl_reloads = 0\<rparr>)"

definition load_ids :: "(bytes \<Rightarrow> json option) \<Rightarrow> directory \<Rightarrow> (str \<times> plugin_manifest) list option" where
  "load_ids from_slice dir =
     (case load_dir from_slice dir dir of Inl e \<Rightarrow> None | Inr s \<Rightarrow> Some (ms_by_id s))"

text \<open>What the loop keeps, seen as the loaded map beside the fingerprint, is a hot reload.\<close>

interpretation manifest_reload: hot_reload "\<lambda>dir ids. load_ids from_slice dir"
    "\<lambda>dir ids. load_ids from_slice dir = Some ids" directory_fingerprint
  for from_slice :: "bytes \<Rightarrow> json option"
  by unfold_locales simp

definition loaded :: "reload_state \<Rightarrow> u64 \<times> (str \<times> plugin_manifest) list" where
  "loaded st = (rl_last_fp st, ms_by_id (rl_store st))"

lemma load_dir_ids:
  "load_dir from_slice seen dir = Inl e \<Longrightarrow> load_ids from_slice dir = None"
  "load_dir from_slice seen dir = Inr s \<Longrightarrow> load_ids from_slice dir = Some (ms_by_id s)"
  by (auto simp: load_ids_def load_dir_def split: directory.splits sum.splits)

lemma loaded_reload_loop:
  "loaded (reload_loop from_slice (a, b, c) st) = manifest_reload.tick from_slice (a, c) (loaded st)"
  by (auto simp: reload_loop_def manifest_reload.tick_def loaded_def Let_def
      split: sum.splits dest: load_dir_ids)

lemma loaded_reload_loops:
  "loaded (fold (reload_loop from_slice) rs st) =
     manifest_reload.ticks from_slice (map (\<lambda>(a, b, c). (a, c)) rs) (loaded st)"
  by (induction rs arbitrary: st)
     (auto simp: manifest_reload.ticks_def loaded_reload_loop)

lemma enrolled_counts:
  "rl_enrolled st = store_len (rl_store st) \<Longrightarrow>
     rl_enrolled (fold (reload_loop fs) rs st) = store_len (rl_store (fold (reload_loop fs) rs st))"
proof (induction rs arbitrary: st)
  case (Cons r rs)
  have "rl_enrolled (reload_loop fs r st) = store_len (rl_store (reload_loop fs r st))"
    using Cons.prems by (auto simp: reload_loop_def Let_def split: prod.splits sum.splits)
  then show ?case using Cons.IH by simp
qed simp

text \<open>Enrolment changes take effect: once the plugin directory is final and can be listed, one
further turn of the reload thread has the live store hold exactly what loading that directory gives
(a revocation included) and the published count agree with it, whatever the agent saw at start-up
and while the directory was being edited.\<close>

theorem manifests_reload_converges:
  assumes "directory_fingerprint seen = directory_fingerprint final \<longrightarrow> first = final"
    and "\<forall>(a, b, c)\<in>set rs. directory_fingerprint a = directory_fingerprint final \<longrightarrow> c = final"
    and "load_dir from_slice final final = Inr s" and "directory_fingerprint final \<noteq> 0"
    and "0 < n"
  shows "\<exists>st. fold (reload_loop from_slice) (rs @ replicate n (final, final, final))
      (spawn_server from_slice seen first) = st \<and>
    ms_by_id (rl_store st) = ms_by_id s \<and> rl_enrolled st = store_len s"
proof -
  let ?start = "spawn_server from_slice seen first"
  let ?st = "fold (reload_loop from_slice) (rs @ replicate n (final, final, final)) ?start"
  have ids: "load_ids from_slice final = Some (ms_by_id s)" using assms(3) by (rule load_dir_ids)
  have sync: "manifest_reload.in_sync from_slice final (loaded ?start)"
  proof (cases "load_dir from_slice seen first")
    case (Inl e)
    then show ?thesis using assms(4)
      by (simp add: manifest_reload.in_sync_def loaded_def spawn_server_def empty_store_def Let_def)
  next
    case (Inr s')
    then have "ms_fingerprint s' = directory_fingerprint seen"
      by (auto simp: load_dir_def split: directory.splits sum.splits)
    with assms(1) load_dir_ids(2) [OF Inr] show ?thesis
      by (auto simp: manifest_reload.in_sync_def loaded_def spawn_server_def Inr Let_def)
  qed
  have reads: "manifest_reload.final_reads final (map (\<lambda>(a, b, c). (a, c)) rs)"
    using assms(2) by (auto simp: manifest_reload.final_reads_def)
  have "load_ids from_slice final = Some (snd (loaded ?st))"
    using manifest_reload.converges [OF sync reads _ assms(5)] ids
    unfolding loaded_reload_loops by simp
  then have "ms_by_id (rl_store ?st) = ms_by_id s" using ids by (simp add: loaded_def)
  moreover have "rl_enrolled ?st = store_len (rl_store ?st)"
    by (rule enrolled_counts) (simp add: spawn_server_def Let_def)
  ultimately show ?thesis by (simp add: store_len_def)
qed

section \<open>Examples\<close>

definition sample_manifest :: json where
  "sample_manifest = JObj [(''plugin_id'', JStr ''p1''), (''name'', JStr ''Acme''),
     (''vendor'', JStr ''Acme Corp''), (''expected_path'', JStr ''C:/acme.exe''),
     (''expected_sha256'', JStr ''ab12'')]"

definition sample_file :: "str \<Rightarrow> u64 \<Rightarrow> dir_file" where
  "sample_file n len = \<lparr>df_name = n, df_content = Inr [1], df_meta = Some (Some 7, len)\<rparr>"

definition sample_parser :: "bytes \<Rightarrow> json option" where
  "sample_parser b = (if b = [1] then Some sample_manifest else None)"

definition sample_enrolled :: plugin_manifest where
  "sample_enrolled = the (manifest_of_json sample_manifest)"

lemma sample_manifest_parses: "manifest_of_json sample_manifest = Some sample_enrolled"
  "pm_plugin_id sample_enrolled = ''p1''" "pm_expected_sha256 sample_enrolled \<noteq> None"
  by code_simp+

definition sample_dir :: directory where
  "sample_dir = Listing (map Inr [sample_file ''p1.json'' 9])"

definition sample_store :: manifest_store where
  "sample_store =
     \<lparr>ms_by_id = [(''p1'', sample_enrolled)], ms_fingerprint = directory_fingerprint sample_dir\<rparr>"

lemma sample_dir_loads: "load_dir sample_parser sample_dir sample_dir = Inr sample_store"
proof -
  have "is_json_file (sample_file ''p1.json'' 9)"
    "to_str (file_stem ''p1.json'') = Some ''p1''" by code_simp+
  then show ?thesis using sample_manifest_parses
    by (simp add: load_dir_def load_one_def sample_file_def sample_parser_def sample_store_def
        sample_dir_def)
qed

theorem manifest_store_exact_witness:
  "\<exists>s. load_dir sample_parser Missing (Listing (map Inr [sample_file ''p1.json'' 9])) = Inr s \<and>
     store_get s ''p1'' = Some sample_enrolled"
proof -
  have "utf8_valid (map of_char ''p1'')" by code_simp
  from manifest_store_exact [OF _ _ this, of "[sample_file ''p1.json'' 9]" sample_parser Missing
      sample_enrolled]
  show ?thesis using sample_manifest_parses by (auto simp: sample_file_def sample_parser_def)
qed

theorem fingerprint_sound_witness:
  "directory_fingerprint (Listing (map Inr [sample_file ''p1.json'' 9])) \<noteq>
     directory_fingerprint (Listing (map Inr [sample_file ''p1.json'' 8]))"
proof -
  let ?bs = "map of_char ''p1.json'' @ [7, 0, 0, 0, 0, 0, 0, 0, 0, 0, 0, 0, 0, 0, 0, 0] :: bytes"
  have bytes: "concat (map tuple_bytes (sort_key fst (file_tuples (map Inr [sample_file ''p1.json'' 8]))))
      = ?bs @ 8 # replicate 7 0"
    "concat (map tuple_bytes (sort_key fst (file_tuples (map Inr [sample_file ''p1.json'' 9]))))
      = ?bs @ 9 # replicate 7 0"
    by code_simp+
  show ?thesis using fingerprint_sound [OF refl _ bytes] by simp
qed

theorem manifests_reload_converges_witness:
  "\<exists>st. fold (reload_loop sample_parser)
       ([] @ replicate 1 (sample_dir, sample_dir, sample_dir))
       (spawn_server sample_parser Missing Missing) = st \<and>
     store_get (rl_store st) ''p1'' = Some sample_enrolled \<and> rl_enrolled st = 1"
proof -
  let ?d = "sample_dir"
  have s: "load_dir sample_parser ?d ?d = Inr sample_store" by (rule sample_dir_loads)
  have fp: "directory_fingerprint ?d \<noteq> 0" by code_simp
  from manifests_reload_converges [OF _ _ s fp, of Missing Missing "[]" 1] fp
  show ?thesis by (simp add: directory_fingerprint_def store_get_def store_len_def sample_store_def)
qed

end
