(* ===== verification/Wire_Format.thy ===== *)
theory Wire_Format
  imports Utf16
begin

text \<open>
  The packed structs of \<open>src/src/ipc/events.rs\<close>, and how both decoders read them.

  A \<open>repr(C, packed)\<close> struct is its fields in order, little endian, without padding. For each
  struct there is a record, the size the compiler computes for it, a reader that takes the fields
  off a byte list one after the other (what \<open>ptr::read_unaligned\<close> does), and the byte image the
  driver writes, against which the reader is proved. Reading through \<open>read_unaligned\<close> is
  undefined behaviour when the buffer is shorter than the struct.
\<close>

section \<open>Little-endian scalars\<close>

fun le_nat :: "bytes \<Rightarrow> nat" where
  "le_nat [] = 0"
| "le_nat (b # bs) = unat b + 256 * le_nat bs"

fun le_bytes :: "nat \<Rightarrow> nat \<Rightarrow> bytes" where
  "le_bytes 0 n = []"
| "le_bytes (Suc k) n = word_of_nat n # le_bytes k (n div 256)"

lemma length_le_bytes [simp]: "length (le_bytes k n) = k"
  by (induction k arbitrary: n) auto

lemma le_nat_le_bytes: "le_nat (le_bytes k n) = n mod 256 ^ k"
proof (induction k arbitrary: n)
  case (Suc k)
  have "unat (word_of_nat n :: u8) = n mod 256" by (simp add: unat_of_nat)
  with Suc show ?case by (simp add: mod_mult2_eq)
qed simp

lemma le_nat_bound: "le_nat bs < 256 ^ length bs"
proof (induction bs)
  case (Cons b bs)
  have "unat b < 256" using unsigned_less [of b, where 'a = nat] by simp
  with Cons show ?case by simp
qed simp

text \<open>A reader takes a field off the front of the bytes.\<close>

type_synonym 'a reader = "bytes \<Rightarrow> 'a \<times> bytes"

definition rd :: "nat \<Rightarrow> ('a::len) word reader" where
  "rd k bs = (word_of_nat (le_nat (take k bs)), drop k bs)"

definition rd_u16 :: "u16 reader" where "rd_u16 = rd 2"
definition rd_u32 :: "u32 reader" where "rd_u32 = rd 4"
definition rd_u64 :: "u64 reader" where "rd_u64 = rd 8"

fun rd_array :: "'a reader \<Rightarrow> nat \<Rightarrow> 'a list reader" where
  "rd_array r 0 bs = ([], bs)"
| "rd_array r (Suc n) bs =
     (let (x, bs) = r bs; (xs, bs) = rd_array r n bs in (x # xs, bs))"

definition rd_units :: "nat \<Rightarrow> u16 list reader" where "rd_units n = rd_array rd_u16 n"
definition rd_bytes :: "nat \<Rightarrow> bytes reader" where "rd_bytes n bs = (take n bs, drop n bs)"

definition wr_u16 :: "u16 \<Rightarrow> bytes" where "wr_u16 w = le_bytes 2 (unat w)"
definition wr_u32 :: "u32 \<Rightarrow> bytes" where "wr_u32 w = le_bytes 4 (unat w)"
definition wr_u64 :: "u64 \<Rightarrow> bytes" where "wr_u64 w = le_bytes 8 (unat w)"
definition wr_units :: "u16 list \<Rightarrow> bytes" where "wr_units us = concat (map wr_u16 us)"

lemma rd_append [simp]:
  assumes "length xs = k"
  shows "rd k (xs @ ys) = (word_of_nat (le_nat xs), ys)"
  using assms by (simp add: rd_def)

lemma rd_wr_u16 [wire_simps]: "rd_u16 (wr_u16 w @ bs) = (w, bs)"
  using unsigned_less [of w, where 'a = nat] by (simp add: rd_u16_def wr_u16_def le_nat_le_bytes)

lemma rd_wr_u32 [wire_simps]: "rd_u32 (wr_u32 w @ bs) = (w, bs)"
  using unsigned_less [of w, where 'a = nat] by (simp add: rd_u32_def wr_u32_def le_nat_le_bytes)

lemma rd_wr_u64 [wire_simps]: "rd_u64 (wr_u64 w @ bs) = (w, bs)"
  using unsigned_less [of w, where 'a = nat] by (simp add: rd_u64_def wr_u64_def le_nat_le_bytes)

lemma rd_wr_units [wire_simps]: "length us = n \<Longrightarrow> rd_units n (wr_units us @ bs) = (us, bs)"
  by (induction us arbitrary: n) (auto simp: rd_units_def wr_units_def rd_wr_u16)

lemma rd_wr_bytes [wire_simps]: "length xs = n \<Longrightarrow> rd_bytes n (xs @ bs) = (xs, bs)"
  by (simp add: rd_bytes_def)

lemma length_wr [wire_simps]:
  "length (wr_u16 a) = 2" "length (wr_u32 b) = 4" "length (wr_u64 c) = 8"
  "length (wr_units us) = 2 * length us"
  by (simp_all add: wr_u16_def wr_u32_def wr_u64_def wr_units_def length_concat comp_def sum_list_triv)

lemma length_rd_units [wire_simps]: "length (fst (rd_units n bs)) = n"
  by (induction n arbitrary: bs) (auto simp: rd_units_def case_prod_unfold Let_def)

section \<open>Constants\<close>

definition EVENT_VERSION :: u16 where "EVENT_VERSION = 6"

definition EVENT_TYPE_PROCESS_CREATE :: u16 where "EVENT_TYPE_PROCESS_CREATE = 1"
definition EVENT_TYPE_PROCESS_EXIT :: u16 where "EVENT_TYPE_PROCESS_EXIT = 2"
definition EVENT_TYPE_IMAGE_LOAD :: u16 where "EVENT_TYPE_IMAGE_LOAD = 3"
definition EVENT_TYPE_REGISTRY_MODIFY :: u16 where "EVENT_TYPE_REGISTRY_MODIFY = 4"
definition EVENT_TYPE_THREAD_CREATE :: u16 where "EVENT_TYPE_THREAD_CREATE = 5"
definition EVENT_TYPE_THREAD_EXIT :: u16 where "EVENT_TYPE_THREAD_EXIT = 6"
definition EVENT_TYPE_PROCESS_HANDLE_ACCESS :: u16 where "EVENT_TYPE_PROCESS_HANDLE_ACCESS = 7"

lemmas event_type_defs =
  EVENT_TYPE_PROCESS_CREATE_def EVENT_TYPE_PROCESS_EXIT_def EVENT_TYPE_IMAGE_LOAD_def
  EVENT_TYPE_REGISTRY_MODIFY_def EVENT_TYPE_THREAD_CREATE_def EVENT_TYPE_THREAD_EXIT_def
  EVENT_TYPE_PROCESS_HANDLE_ACCESS_def

definition REGISTRY_OP_SET_VALUE :: u16 where "REGISTRY_OP_SET_VALUE = 1"
definition REGISTRY_OP_DELETE_VALUE :: u16 where "REGISTRY_OP_DELETE_VALUE = 2"
definition REGISTRY_OP_DELETE_KEY :: u16 where "REGISTRY_OP_DELETE_KEY = 3"
definition REGISTRY_OP_RENAME_KEY :: u16 where "REGISTRY_OP_RENAME_KEY = 4"
definition REGISTRY_OP_CREATE_KEY :: u16 where "REGISTRY_OP_CREATE_KEY = 5"

lemmas registry_op_defs =
  REGISTRY_OP_SET_VALUE_def REGISTRY_OP_DELETE_VALUE_def REGISTRY_OP_DELETE_KEY_def
  REGISTRY_OP_RENAME_KEY_def REGISTRY_OP_CREATE_KEY_def

definition HANDLE_ACCESS_OP_CREATE :: u16 where "HANDLE_ACCESS_OP_CREATE = 1"
definition HANDLE_ACCESS_OP_DUPLICATE :: u16 where "HANDLE_ACCESS_OP_DUPLICATE = 2"

definition IMAGE_PATH_MAX :: nat where "IMAGE_PATH_MAX = 512"
definition COMMAND_LINE_MAX :: nat where "COMMAND_LINE_MAX = 4096"
definition USER_SID_MAX :: nat where "USER_SID_MAX = 192"
definition REGISTRY_KEY_PATH_MAX :: nat where "REGISTRY_KEY_PATH_MAX = 512"
definition REGISTRY_VALUE_NAME_MAX :: nat where "REGISTRY_VALUE_NAME_MAX = 128"
definition REGISTRY_DATA_PREVIEW_MAX :: nat where "REGISTRY_DATA_PREVIEW_MAX = 256"

lemmas wire_max_defs =
  IMAGE_PATH_MAX_def COMMAND_LINE_MAX_def USER_SID_MAX_def
  REGISTRY_KEY_PATH_MAX_def REGISTRY_VALUE_NAME_MAX_def REGISTRY_DATA_PREVIEW_MAX_def

end
