(* ===== verification/Frames.thy ===== *)
theory Frames
  imports Wire_Format Json_Value
begin

text \<open>
  The plugin wire protocol (\<open>src/src/plugin/protocol.rs\<close>): length-prefixed JSON frames over a byte
  stream that may be delivered in arbitrary pieces. A stream is the list of what the next \<open>read\<close>
  calls find; at its end the peer has closed. Parsing JSON text is a parameter, the shape of the
  frames (the derived \<open>Deserialize\<close> of the tagged enum) is modelled.
\<close>

definition SCHEMA_VERSION :: u32 where "SCHEMA_VERSION = 1"
definition MAX_FRAME_BYTES :: u32 where "MAX_FRAME_BYTES = 1 * 1024 * 1024"

section \<open>Frames\<close>

record hello =
  hl_plugin_id :: str
  hl_plugin_version :: str
  hl_schema_version :: u32

record plugin_event =
  ev_seq :: u64
  ev_ts_unix_ns :: u64
  ev_kind :: str
  ev_payload :: json

datatype client_frame = Hello hello | Event plugin_event | Heartbeat u64 | Goodbye

text \<open>\<open>#[serde(tag = "type", rename_all = "snake_case")]\<close>: every field is required.\<close>

definition get_word :: "str \<Rightarrow> json \<Rightarrow> ('a::len) word option" where
  "get_word k j =
     (case get_u64 k j of
        Some n \<Rightarrow> if n < 2 ^ LENGTH('a) then Some (word_of_nat n) else None
      | None \<Rightarrow> None)"

definition hello_of_json :: "json \<Rightarrow> hello option" where
  "hello_of_json j =
     (case (get_str ''plugin_id'' j, get_str ''plugin_version'' j, get_word ''schema_version'' j) of
        (Some i, Some v, Some s) \<Rightarrow>
          Some \<lparr>hl_plugin_id = i, hl_plugin_version = v, hl_schema_version = s\<rparr>
      | _ \<Rightarrow> None)"

definition event_of_json :: "json \<Rightarrow> plugin_event option" where
  "event_of_json j =
     (case (get_word ''seq'' j, get_word ''ts_unix_ns'' j, get_str ''kind'' j, json_get ''payload'' j) of
        (Some q, Some t, Some k, Some p) \<Rightarrow>
          Some \<lparr>ev_seq = q, ev_ts_unix_ns = t, ev_kind = k, ev_payload = p\<rparr>
      | _ \<Rightarrow> None)"

definition client_frame_of_json :: "json \<Rightarrow> client_frame option" where
  "client_frame_of_json j =
     (case get_str ''type'' j of
        None \<Rightarrow> None
      | Some t \<Rightarrow>
          if t = ''hello'' then map_option Hello (hello_of_json j)
          else if t = ''event'' then map_option Event (event_of_json j)
          else if t = ''heartbeat'' then map_option Heartbeat (get_word ''seq'' j)
          else if t = ''goodbye'' then Some Goodbye
          else None)"

datatype reject_reason =
    BadHandshake | SchemaMismatch | UnknownPluginId | PathMismatch | HashMismatch
  | SignatureInvalid | Revoked | TooManySessions

fun reason_str :: "reject_reason \<Rightarrow> str" where
  "reason_str BadHandshake = ''bad_handshake''"
| "reason_str SchemaMismatch = ''schema_mismatch''"
| "reason_str UnknownPluginId = ''unknown_plugin_id''"
| "reason_str PathMismatch = ''path_mismatch''"
| "reason_str HashMismatch = ''hash_mismatch''"
| "reason_str SignatureInvalid = ''signature_invalid''"
| "reason_str Revoked = ''revoked''"
| "reason_str TooManySessions = ''too_many_sessions''"

record hello_ack =
  ack_session_id :: str
  ack_server_version :: str
  ack_max_payload_bytes :: u32
  ack_heartbeat_sec :: u32

datatype server_frame = HelloAck hello_ack | Reject reject_reason

fun server_frame_json :: "server_frame \<Rightarrow> json" where
  "server_frame_json (HelloAck a) =
     JObj [(''type'', JStr ''hello_ack''), (''session_id'', JStr (ack_session_id a)),
           (''server_version'', JStr (ack_server_version a)),
           (''max_payload_bytes'', JInt (uint (ack_max_payload_bytes a))),
           (''heartbeat_sec'', JInt (uint (ack_heartbeat_sec a)))]"
| "server_frame_json (Reject r) = JObj [(''type'', JStr ''reject''), (''reason'', JStr (reason_str r))]"

section \<open>Frame input\<close>

datatype frame_error = Io str | TooLarge u32 | Json_error | Truncated

datatype chunk = Data bytes | Interrupted | Read_failed str

type_synonym stream = "chunk list"

text \<open>
  The read loop of both functions: collect \<open>n\<close> bytes, or say how far it got when the peer closed
  (\<open>read\<close> returned 0).
\<close>

datatype gathered = Full bytes | Closed_after bytes | Failed str

fun gather :: "nat \<Rightarrow> stream \<Rightarrow> bytes \<Rightarrow> gathered \<times> stream" where
  "gather 0 src got = (Full got, src)"
| "gather (Suc n) [] got = (Closed_after got, [])"
| "gather (Suc n) (Interrupted # src) got = gather (Suc n) src got"
| "gather (Suc n) (Read_failed e # src) got = (Failed e, src)"
| "gather (Suc n) (Data bs # src) got =
     (if bs = [] then (Closed_after got, src)
      else if length bs \<le> Suc n then gather (Suc n - length bs) src (got @ bs)
      else (Full (got @ take (Suc n) bs), Data (drop (Suc n) bs) # src))"

definition read_exact_or_truncated :: "nat \<Rightarrow> stream \<Rightarrow> (frame_error + bytes) \<times> stream" where
  "read_exact_or_truncated n src =
     (case gather n src [] of
        (Full bs, src) \<Rightarrow> (Inr bs, src)
      | (Closed_after _, src) \<Rightarrow> (Inl Truncated, src)
      | (Failed e, src) \<Rightarrow> (Inl (Io e), src))"

definition read_frame ::
    "(bytes \<Rightarrow> json option) \<Rightarrow> stream \<Rightarrow> (frame_error + client_frame option) \<times> stream" where
  "read_frame from_slice src =
     (case gather 4 src [] of
        (Failed e, src) \<Rightarrow> (Inl (Io e), src)
      | (Closed_after got, src) \<Rightarrow> (if got = [] then (Inr None, src) else (Inl Truncated, src))
      | (Full len_buf, src) \<Rightarrow>
          let len = (word_of_nat (le_nat len_buf) :: u32) in
          if MAX_FRAME_BYTES < len then (Inl (TooLarge len), src)
          else case read_exact_or_truncated (unat len) src of
            (Inl e, src) \<Rightarrow> (Inl e, src)
          | (Inr body, src) \<Rightarrow>
              (case Option.bind (from_slice body) client_frame_of_json of
                 None \<Rightarrow> (Inl Json_error, src)
               | Some frame \<Rightarrow> (Inr (Some frame), src)))"

section \<open>Frame output\<close>

definition frame_bytes :: "bytes \<Rightarrow> bytes" where
  "frame_bytes body = wr_u32 (word_of_nat (length body)) @ body"

definition write_frame :: "(json \<Rightarrow> bytes outcome) \<Rightarrow> server_frame \<Rightarrow> frame_error + bytes" where
  "write_frame to_vec frame =
     (case to_vec (server_frame_json frame) of
        Ok body \<Rightarrow>
          if 2 ^ 32 \<le> length body then Inl (TooLarge (-1))
          else if unat MAX_FRAME_BYTES < length body then Inl (TooLarge (word_of_nat (length body)))
          else Inr (frame_bytes body)
      | _ \<Rightarrow> Inl Json_error)"

definition write_reject :: "(json \<Rightarrow> bytes outcome) \<Rightarrow> reject_reason \<Rightarrow> frame_error + bytes" where
  "write_reject to_vec reason = write_frame to_vec (Reject reason)"

section \<open>Properties\<close>

text \<open>A stream that delivers its bytes without failing, in whatever pieces.\<close>

fun smooth :: "stream \<Rightarrow> bool" where
  "smooth [] = True"
| "smooth (Data bs # src) = (bs \<noteq> [] \<and> smooth src)"
| "smooth (Interrupted # src) = smooth src"
| "smooth (Read_failed e # src) = False"

fun stream_bytes :: "stream \<Rightarrow> bytes" where
  "stream_bytes [] = []"
| "stream_bytes (Data bs # src) = bs @ stream_bytes src"
| "stream_bytes (_ # src) = stream_bytes src"

lemma gather_smooth:
  assumes "smooth src" and "n \<le> length (stream_bytes src)"
  shows "\<exists>src'. gather n src got = (Full (got @ take n (stream_bytes src)), src') \<and> smooth src' \<and>
    stream_bytes src' = drop n (stream_bytes src)"
  using assms
proof (induction n src got rule: gather.induct)
  case (5 n bs src got)
  show ?case
  proof (cases "length bs \<le> Suc n")
    case True
    from 5 True have "bs \<noteq> []" "smooth src" "Suc n - length bs \<le> length (stream_bytes src)" by auto
    from 5(1) [OF this(1) True this(2,3)] this True show ?thesis by auto
  next
    case False
    then show ?thesis using 5 by auto
  qed
qed auto

lemma gather_end:
  assumes "smooth src" and "stream_bytes src = []" and "0 < n"
  shows "\<exists>src'. gather n src got = (Closed_after got, src')"
  using assms by (induction n src got rule: gather.induct) auto

lemma read_frame_smooth:
  assumes "smooth src" and "stream_bytes src = frame_bytes body @ rest"
    and "length body \<le> unat MAX_FRAME_BYTES"
  shows "\<exists>src'. smooth src' \<and> stream_bytes src' = rest \<and> read_frame from_slice src =
    ((case Option.bind (from_slice body) client_frame_of_json of
        None \<Rightarrow> Inl Json_error | Some f \<Rightarrow> Inr (Some f)), src')"
proof -
  let ?len = "word_of_nat (length body) :: u32"
  have small: "length body < 2 ^ 32" using assms(3) by (simp add: MAX_FRAME_BYTES_def)
  then have len: "unat ?len = length body" by (simp add: unat_of_nat)
  have four: "take 4 (stream_bytes src) = wr_u32 ?len" "drop 4 (stream_bytes src) = body @ rest"
    by (simp_all add: assms(2) frame_bytes_def length_wr)
  obtain src1 where src1: "gather 4 src [] = (Full (wr_u32 ?len), src1)" "smooth src1"
    "stream_bytes src1 = body @ rest"
    using gather_smooth [OF assms(1), of 4 "[]"] four
    by (auto simp: assms(2) frame_bytes_def length_wr)
  obtain src2 where src2: "gather (length body) src1 [] = (Full body, src2)" "smooth src2"
    "stream_bytes src2 = rest"
    using gather_smooth [OF src1(2), of "length body" "[]"] src1(3) by auto
  have word: "word_of_nat (le_nat (wr_u32 ?len)) = ?len"
    using rd_wr_u32 [of ?len "[]"] by (simp add: rd_u32_def rd_def length_wr)
  have cap: "\<not> MAX_FRAME_BYTES < ?len" using assms(3) len by (simp add: word_less_nat_alt)
  show ?thesis
    using src1(1) src2 cap
    by (intro exI [of _ src2])
       (auto simp: read_frame_def read_exact_or_truncated_def word len Let_def split: option.splits)
qed

text \<open>Reading frame after frame until the peer closes.\<close>

fun read_frames ::
    "nat \<Rightarrow> (bytes \<Rightarrow> json option) \<Rightarrow> stream \<Rightarrow> client_frame list \<times> (frame_error + unit)" where
  "read_frames 0 from_slice src = ([], Inr ())"
| "read_frames (Suc n) from_slice src =
     (case read_frame from_slice src of
        (Inl e, src) \<Rightarrow> ([], Inl e)
      | (Inr None, src) \<Rightarrow> ([], Inr ())
      | (Inr (Some f), src) \<Rightarrow>
          let (fs, r) = read_frames n from_slice src in (f # fs, r))"

text \<open>Framing is independent of how the pipe cuts the stream: however the bytes of a sequence of
framed documents are split into reads, with interrupted reads anywhere, the frames come out one by
one, complete and in order, followed by a clean end of stream.\<close>

theorem framing_roundtrip:
  assumes "smooth src" and "stream_bytes src = concat (map frame_bytes bodies)"
    and "\<forall>b\<in>set bodies. length b \<le> unat MAX_FRAME_BYTES"
    and "\<forall>b\<in>set bodies. Option.bind (from_slice b) client_frame_of_json \<noteq> None"
    and "length bodies < n"
  shows "read_frames n from_slice src =
    (map (\<lambda>b. the (Option.bind (from_slice b) client_frame_of_json)) bodies, Inr ())"
  using assms
proof (induction bodies arbitrary: src n)
  case Nil
  then obtain m where n: "n = Suc m" by (cases n) auto
  from gather_end [of src 4 "[]"] Nil obtain src' where "gather 4 src [] = (Closed_after [], src')"
    by auto
  then show ?case by (simp add: n read_frame_def)
next
  case (Cons b bodies)
  then obtain m where n: "n = Suc m" "length bodies < m" by (cases n) auto
  obtain f where f: "Option.bind (from_slice b) client_frame_of_json = Some f" using Cons.prems by auto
  obtain src' where src': "smooth src'" "stream_bytes src' = concat (map frame_bytes bodies)"
    "read_frame from_slice src = (Inr (Some f), src')"
    using read_frame_smooth [of src b "concat (map frame_bytes bodies)" from_slice] Cons.prems f
    by auto
  from Cons.IH [OF src'(1,2) _ _ n(2)] Cons.prems src'(3) f show ?case by (simp add: n(1))
qed

theorem framing_roundtrip_witness:
  "read_frames 3 (\<lambda>b. if b = [1] then Some (JObj [(''type'', JStr ''goodbye'')]) else None)
     [Data [1, 0], Interrupted, Data [0, 0, 1, 1], Data [0, 0, 0, 1]] = ([Goodbye, Goodbye], Inr ())"
proof -
  let ?p = "\<lambda>b :: bytes. if b = [1] then Some (JObj [(''type'', JStr ''goodbye'')]) else None"
  let ?src = "[Data [1, 0], Interrupted, Data [0, 0, 1, 1], Data [0, 0, 0, 1]]"
  have bytes: "stream_bytes ?src = concat (map frame_bytes [[1], [1]])" by code_simp
  have parsed: "client_frame_of_json (JObj [(''type'', JStr ''goodbye'')]) = Some Goodbye"
    by code_simp
  have "read_frames 3 ?p ?src =
      (map (\<lambda>b. the (Option.bind (?p b) client_frame_of_json)) [[1], [1]], Inr ())"
    by (rule framing_roundtrip [OF _ bytes]) (simp_all add: parsed MAX_FRAME_BYTES_def)
  then show ?thesis using parsed by simp
qed

text \<open>What the agent writes is a frame it would accept the length of.\<close>

lemma write_frame_bounded:
  "write_frame to_vec f = Inr bs \<Longrightarrow>
     \<exists>body. bs = frame_bytes body \<and> length body \<le> unat MAX_FRAME_BYTES"
  by (auto simp: write_frame_def split: outcome.splits if_splits)

end
