(* ===== verification/Decimal.thy ===== *)
theory Decimal
  imports Prelude
begin

text \<open>
  Decimal numerals: what \<open>format!("{}", n)\<close> writes is read back, so no two numbers share a
  numeral; and how the byte order of file names, by which the spool and the shipper sort, relates
  to the order of the numbers in them.
\<close>

definition digit_value :: "char \<Rightarrow> nat" where
  "digit_value c = of_char c - 48"

fun dec_value :: "str \<Rightarrow> nat" where
  "dec_value [] = 0"
| "dec_value (c # cs) = digit_value c * 10 ^ length cs + dec_value cs"

definition is_digit :: "char \<Rightarrow> bool" where
  "is_digit c \<longleftrightarrow> CHR ''0'' \<le> c \<and> c \<le> CHR ''9''"

lemma digit_cases: "n < 10 \<Longrightarrow> n \<in> {0, 1, 2, 3, 4, 5, 6, 7, 8, 9 :: nat}"
  by auto

lemma digit_value_digit: "n < 10 \<Longrightarrow> digit_value (digit n) = n"
  by (drule digit_cases) (auto simp: digit_def digit_value_def)

lemma is_digit_digit: "n < 10 \<Longrightarrow> is_digit (digit n)"
  by (drule digit_cases) (auto simp: digit_def is_digit_def less_eq_char_def)

lemma dec_value_snoc: "dec_value (cs @ [c]) = 10 * dec_value cs + digit_value c"
  by (induction cs) (simp_all add: algebra_simps)

lemma dec_unfold: "dec n = (if n < 10 then [digit n] else dec (n div 10) @ [digit (n mod 10)])"
  by (simp add: dec_def radix.simps [of 10 n])

lemma dec_value_dec: "dec_value (dec n) = n"
proof (induction n rule: less_induct)
  case (less n)
  show ?case
  proof (cases "n < 10")
    case True
    then show ?thesis by (simp add: dec_unfold [of n] digit_value_digit)
  next
    case False
    then have "dec_value (dec (n div 10)) = n div 10" by (intro less) simp
    with False show ?thesis by (simp add: dec_unfold [of n] dec_value_snoc digit_value_digit)
  qed
qed

lemma dec_digits: "\<forall>c\<in>set (dec n). is_digit c"
proof (induction n rule: less_induct)
  case (less n)
  show ?case
  proof (cases "n < 10")
    case False
    then have "\<forall>c\<in>set (dec (n div 10)). is_digit c" by (intro less) simp
    with False show ?thesis by (simp add: dec_unfold [of n] is_digit_digit)
  qed (simp add: dec_unfold [of n] is_digit_digit)
qed

lemma dec_inject [simp]: "dec m = dec n \<longleftrightarrow> m = n"
  by (metis dec_value_dec)

lemma dec_not_Nil [simp]: "dec n \<noteq> []"
  by (subst dec_unfold) simp

lemma dec_not_digit: "\<not> is_digit c \<Longrightarrow> c \<notin> set (dec n)"
  using dec_digits by auto

section \<open>Byte order and numeric order\<close>

lemma digit_value_less: "is_digit c \<Longrightarrow> digit_value c < 10"
  unfolding is_digit_def digit_value_def less_eq_char_def by (simp, linarith)

lemma is_digit_less: "is_digit c \<Longrightarrow> is_digit d \<Longrightarrow> c < d \<longleftrightarrow> digit_value c < digit_value d"
  by (auto simp: is_digit_def digit_value_def less_eq_char_def less_char_def)

lemma dec_value_bound: "\<forall>c\<in>set cs. is_digit c \<Longrightarrow> dec_value cs < 10 ^ length cs"
proof (induction cs)
  case (Cons c cs)
  then have "digit_value c \<le> 9" using digit_value_less [of c] by simp
  then have *: "digit_value c * 10 ^ length cs \<le> 9 * 10 ^ length cs" by (rule mult_right_mono) simp
  have "dec_value cs < 10 ^ length cs" using Cons by simp
  with * show ?case by (simp only: dec_value.simps list.size power_Suc power_add power_one_right One_nat_def [symmetric])
qed simp

lemma digits_less_iff:
  assumes "length cs = length ds" and "\<forall>c\<in>set cs. is_digit c" and "\<forall>c\<in>set ds. is_digit c"
  shows "cs < ds \<longleftrightarrow> dec_value cs < dec_value ds"
  using assms
proof (induction cs ds rule: list_induct2)
  case (Cons c cs d ds)
  let ?p = "10 ^ length ds :: nat"
  have b: "dec_value cs < ?p" "dec_value ds < ?p"
    using Cons dec_value_bound [of cs] dec_value_bound [of ds] by simp_all
  consider "digit_value c < digit_value d" | "digit_value c = digit_value d"
    | "digit_value d < digit_value c" by linarith
  then show ?case
  proof cases
    case 1
    then have "Suc (digit_value c) * ?p \<le> digit_value d * ?p" by (intro mult_right_mono) simp_all
    then have "dec_value (c # cs) < dec_value (d # ds)" using b Cons.hyps by simp
    with 1 Cons.prems show ?thesis by (simp add: is_digit_less)
  next
    case 2
    then have "c = d" using Cons.prems is_digit_less [of c d] is_digit_less [of d c]
      by (metis linorder_less_linear list.set_intros(1) nat_neq_iff)
    with Cons show ?thesis by simp
  next
    case 3
    then have "Suc (digit_value d) * ?p \<le> digit_value c * ?p" by (intro mult_right_mono) simp_all
    then have "dec_value (d # ds) < dec_value (c # cs)" using b Cons.hyps by simp
    moreover have "d < c" using 3 Cons.prems by (simp add: is_digit_less)
    ultimately show ?thesis by auto
  qed
qed simp

lemma dec_less_iff: "length (dec m) = length (dec n) \<Longrightarrow> dec m < dec n \<longleftrightarrow> m < n"
  using digits_less_iff [of "dec m" "dec n"] dec_digits by (simp add: dec_value_dec)

lemma append_less_iff:
  fixes xs ys us vs :: "char list"
  assumes "length xs = length ys"
  shows "xs @ us < ys @ vs \<longleftrightarrow> xs < ys \<or> (xs = ys \<and> us < vs)"
  using assms by (induction xs ys rule: list_induct2) auto

section \<open>Hexadecimal numerals\<close>

definition hex_digit_value :: "char \<Rightarrow> nat" where
  "hex_digit_value c = (if is_digit c then digit_value c else of_char c - 87)"

definition hex_value :: "str \<Rightarrow> nat" where
  "hex_value s = foldl (\<lambda>a c. 16 * a + hex_digit_value c) 0 s"

lemma hex_digit_value_digit: "n < 16 \<Longrightarrow> hex_digit_value (digit n) = n"
proof -
  assume "n < 16"
  then have "n \<in> set [0..<16]" by simp
  moreover have "\<forall>n\<in>set [0..<16]. hex_digit_value (digit n) = n" by code_simp
  ultimately show ?thesis by blast
qed

lemma hex_unfold: "hex n = (if n < 16 then [digit n] else hex (n div 16) @ [digit (n mod 16)])"
  by (simp add: hex_def radix.simps [of 16 n])

lemma hex_value_hex: "hex_value (hex n) = n"
proof (induction n rule: less_induct)
  case (less n)
  show ?case
  proof (cases "n < 16")
    case True
    then show ?thesis by (simp add: hex_unfold [of n] hex_value_def hex_digit_value_digit)
  next
    case False
    then have "hex_value (hex (n div 16)) = n div 16" by (intro less) simp
    with False show ?thesis
      by (simp add: hex_unfold [of n] hex_value_def hex_digit_value_digit)
  qed
qed

lemma hex_value_pad0: "hex_value (pad0 w s) = hex_value s"
proof -
  have "foldl (\<lambda>a c. 16 * a + hex_digit_value c) 0 (replicate k (CHR ''0'')) = 0" for k
    by (induction k) (simp_all add: hex_digit_value_def digit_value_def is_digit_def less_eq_char_def)
  then show ?thesis by (simp add: hex_value_def pad0_def)
qed

lemma pad0_hex_inject: "pad0 w (hex m) = pad0 w (hex n) \<longleftrightarrow> m = n"
  by (metis hex_value_hex hex_value_pad0)

lemma length_hex: "n < 16 ^ Suc k \<Longrightarrow> length (hex n) \<le> Suc k"
proof (induction k arbitrary: n)
  case 0
  then show ?case by (simp add: hex_unfold [of n])
next
  case (Suc k)
  then have "n div 16 < 16 ^ Suc k" by (simp add: less_mult_imp_div_less mult.commute)
  with Suc.IH have "length (hex (n div 16)) \<le> Suc k" by blast
  then show ?case by (simp add: hex_unfold [of n])
qed

lemma length_pad0_hex: "n < 16 ^ w \<Longrightarrow> 0 < w \<Longrightarrow> length (pad0 w (hex n)) = w"
  using length_hex [of n "w - 1"] by (simp add: length_pad0)

end
