(* ===== verification/Handshake.thy ===== *)
theory Handshake
  imports Manifest Frames Decimal
begin

text \<open>
  Who is on the other end of the plugin pipe: the identity of the client process and the hash of its
  binary (\<open>src/src/plugin/identity.rs\<close>), and the handshake that checks both against the manifest
  (\<open>validate_handshake\<close> and \<open>gen_session_id\<close> of \<open>src/src/plugin/server.rs\<close>). The Win32 and CNG calls
  are parameters, each with the result it returns.
\<close>

section \<open>Identity of the client\<close>

record client_identity =
  ci_pid :: u32
  ci_image_path :: str

record pipe_client =
  GetNamedPipeClientProcessId :: "u32 + u32"
  OpenProcess :: "u32 \<Rightarrow> u32 option"
  QueryFullProcessImageName :: "u32 \<Rightarrow> u32 + u16 list"

definition identify_client :: "pipe_client \<Rightarrow> client_identity outcome" where
  "identify_client c =
     (case GetNamedPipeClientProcessId c of
        Inl err \<Rightarrow> Err (''GetNamedPipeClientProcessId failed: error '' @ dec (unat err))
      | Inr pid \<Rightarrow>
          (case OpenProcess c pid of
             Some err \<Rightarrow>
               Err (''OpenProcess(pid='' @ dec (unat pid) @ '') failed: error '' @ dec (unat err))
           | None \<Rightarrow>
               (case QueryFullProcessImageName c pid of
                  Inl err \<Rightarrow> Err (''QueryFullProcessImageNameW(pid='' @ dec (unat pid) @
                               '') failed: error '' @ dec (unat err))
                | Inr buf \<Rightarrow> Ok \<lparr>ci_pid = pid, ci_image_path = from_utf16_lossy buf\<rparr>)))"

section \<open>Hash of the binary\<close>

text \<open>A hash provider: \<open>Some\<close> is the failing status of a call. \<open>open\<close> covers the algorithm handle and
the hash object.\<close>

record 'h cng =
  cng_open_algorithm :: "u32 option"
  cng_create :: "u32 + 'h"
  cng_data :: "'h \<Rightarrow> bytes \<Rightarrow> u32 + 'h"
  cng_finish :: "'h \<Rightarrow> u32 + bytes"

text \<open>What the successive \<open>ReadFile\<close> calls return; an empty read, and the end of the list, is the end
of the file.\<close>

fun hash_reads :: "'h cng \<Rightarrow> (u32 + bytes) list \<Rightarrow> 'h \<Rightarrow> str + 'h" where
  "hash_reads g [] h = Inr h"
| "hash_reads g (Inl err # rs) h = Inl (''os error '' @ dec (unat err))"
| "hash_reads g (Inr bs # rs) h =
     (if bs = [] then Inr h
      else case cng_data g h bs of
        Inl status \<Rightarrow> Inl (''BCryptHashData failed: 0x'' @ hex (unat status))
      | Inr h \<Rightarrow> hash_reads g rs h)"

definition hex_string :: "bytes \<Rightarrow> str" where
  "hex_string bs = concat (map hex_byte bs)"

definition sha256_file_hex :: "'h cng \<Rightarrow> u32 + (u32 + bytes) list \<Rightarrow> str + str" where
  "sha256_file_hex g opened =
     (case opened of
        Inl err \<Rightarrow> Inl (''os error '' @ dec (unat err))
      | Inr reads \<Rightarrow>
          (case cng_open_algorithm g of
             Some status \<Rightarrow> Inl (''BCryptOpenAlgorithmProvider failed: 0x'' @ hex (unat status))
           | None \<Rightarrow>
               (case cng_create g of
                  Inl status \<Rightarrow> Inl (''BCryptCreateHash failed: 0x'' @ hex (unat status))
                | Inr h \<Rightarrow>
                    (case hash_reads g reads h of
                       Inl e \<Rightarrow> Inl e
                     | Inr h \<Rightarrow>
                         (case cng_finish g h of
                            Inl status \<Rightarrow> Inl (''BCryptFinishHash failed: 0x'' @ hex (unat status))
                          | Inr digest \<Rightarrow> Inr (hex_string digest))))))"

text \<open>The bytes of a file that was read to its end, in whatever pieces.\<close>

fun file_bytes :: "(u32 + bytes) list \<Rightarrow> bytes" where
  "file_bytes (Inr bs # rs) = (if bs = [] then [] else bs @ file_bytes rs)"
| "file_bytes _ = []"

text \<open>A provider that hashes what it was fed: \<open>sha\<close> of the concatenation. This is what CNG documents
of \<open>BCryptHashData\<close>.\<close>

definition hashes_fed :: "'h cng \<Rightarrow> (bytes \<Rightarrow> bytes) \<Rightarrow> ('h \<Rightarrow> bytes) \<Rightarrow> bool" where
  "hashes_fed g sha fed \<longleftrightarrow>
     (\<forall>h. cng_create g = Inr h \<longrightarrow> fed h = []) \<and>
     (\<forall>h bs h'. cng_data g h bs = Inr h' \<longrightarrow> fed h' = fed h @ bs) \<and>
     (\<forall>h d. cng_finish g h = Inr d \<longrightarrow> d = sha (fed h))"

lemma hash_reads_fed:
  "hashes_fed g sha fed \<Longrightarrow> hash_reads g rs h = Inr h' \<Longrightarrow> fed h' = fed h @ file_bytes rs"
proof (induction g rs h rule: hash_reads.induct)
  case (3 g bs rs h)
  show ?case
  proof (cases "bs = []")
    case False
    with 3(3) obtain h1 where h1: "cng_data g h bs = Inr h1" "hash_reads g rs h1 = Inr h'"
      by (auto split: sum.splits)
    then have "fed h1 = fed h @ bs" using 3(2) by (auto simp: hashes_fed_def)
    with 3(1) [OF False h1(1) 3(2) h1(2)] False show ?thesis by simp
  qed (use 3(3) in simp)
qed simp_all

lemma sha256_file_hex_correct:
  assumes "hashes_fed g sha fed" and "sha256_file_hex g (Inr reads) = Inr s"
  shows "s = hex_string (sha (file_bytes reads))"
  using assms hash_reads_fed [OF assms(1)]
  by (fastforce simp: sha256_file_hex_def hashes_fed_def split: sum.splits option.splits)

section \<open>The handshake\<close>

record host =
  hs_lower :: "str \<Rightarrow> str"
  hs_sha256 :: "str \<Rightarrow> str + str"
  hs_authenticode :: "str \<Rightarrow> bool"

definition validate_handshake ::
    "host \<Rightarrow> hello \<Rightarrow> client_identity \<Rightarrow> manifest_store \<Rightarrow> reject_reason + plugin_manifest" where
  "validate_handshake w hello identity store =
     (if hl_schema_version hello \<noteq> SCHEMA_VERSION then Inl SchemaMismatch
      else case store_get store (hl_plugin_id hello) of
        None \<Rightarrow> Inl UnknownPluginId
      | Some m \<Rightarrow>
          if pm_revoked m then Inl Revoked
          else if \<not> paths_match (hs_lower w) (ci_image_path identity) (pm_expected_path m)
          then Inl PathMismatch
          else if (case pm_expected_sha256 m of
                     None \<Rightarrow> False
                   | Some expected \<Rightarrow>
                       (case hs_sha256 w (ci_image_path identity) of
                          Inr actual \<Rightarrow> \<not> eq_ignore_ascii_case actual expected
                        | Inl _ \<Rightarrow> True))
          then Inl HashMismatch
          else if pm_expected_signer m \<noteq> None \<and> \<not> hs_authenticode w (ci_image_path identity)
          then Inl SignatureInvalid
          else Inr m)"

definition gen_session_id :: "u64 \<Rightarrow> u64 \<Rightarrow> u32 \<Rightarrow> str" where
  "gen_session_id n ns pid =
     ''s-'' @ pad0 8 (hex (unat pid)) @ ''-'' @
     pad0 4 (hex (unat (ucast (drop_bit 48 ns) :: u16))) @ ''-'' @
     pad0 4 (hex (unat (ucast (drop_bit 32 ns) :: u16))) @ ''-'' @
     pad0 4 (hex (unat (ucast (drop_bit 48 n) :: u16))) @ ''-'' @
     pad0 12 (hex (unat (take_bit 48 n)))"

section \<open>Properties\<close>

lemma validate_handshake_Inr:
  "validate_handshake w h i store = Inr m \<longleftrightarrow>
     hl_schema_version h = SCHEMA_VERSION \<and> store_get store (hl_plugin_id h) = Some m \<and>
     \<not> pm_revoked m \<and> paths_match (hs_lower w) (ci_image_path i) (pm_expected_path m) \<and>
     (\<forall>expected. pm_expected_sha256 m = Some expected \<longrightarrow>
        (\<exists>actual. hs_sha256 w (ci_image_path i) = Inr actual \<and> eq_ignore_ascii_case actual expected)) \<and>
     (pm_expected_signer m \<noteq> None \<longrightarrow> hs_authenticode w (ci_image_path i))"
  by (auto simp: validate_handshake_def split: option.splits sum.splits if_splits)

lemma loaded_pinned:
  assumes "load_dir fs seen dir = Inr store" and "store_get store i = Some m"
  shows "pm_plugin_id m = i \<and> (pm_expected_sha256 m \<noteq> None \<or> pm_expected_signer m \<noteq> None)"
proof -
  have "(i, m) \<in> set (ms_by_id store)" using assms(2) by (simp add: store_get_def map_of_SomeD)
  then obtain f where "load_one fs f = Inr m" "pm_plugin_id m = i"
    using loaded_sources [OF assms(1)] by blast
  then show ?thesis by (simp add: load_one_iff)
qed

text \<open>C15. No unverified plugin: against a store loaded from the plugin directory, a handshake succeeds
only for an enrolled plugin that is not revoked, from the enrolled path, and whose binary was checked:
the SHA-256 of the bytes read from that very path equals the pinned one (and it is always compared when
one is pinned), or, when a signer is pinned, its signature verified.\<close>

theorem only_verified_plugins:
  assumes "load_dir fs seen dir = Inr store"
    and "hashes_fed g sha fed" and "hs_sha256 w = (\<lambda>path. sha256_file_hex g (opened path))"
    and "validate_handshake w h i store = Inr m"
  shows "store_get store (hl_plugin_id h) = Some m \<and> pm_plugin_id m = hl_plugin_id h \<and> \<not> pm_revoked m \<and>
    paths_match (hs_lower w) (ci_image_path i) (pm_expected_path m) \<and>
    (pm_expected_sha256 m \<noteq> None \<or> pm_expected_signer m \<noteq> None) \<and>
    (\<forall>pin. pm_expected_sha256 m = Some pin \<longrightarrow>
       (\<exists>reads. opened (ci_image_path i) = Inr reads \<and>
          eq_ignore_ascii_case (hex_string (sha (file_bytes reads))) pin)) \<and>
    (pm_expected_signer m \<noteq> None \<longrightarrow> hs_authenticode w (ci_image_path i))"
proof -
  from assms(4) have ok: "store_get store (hl_plugin_id h) = Some m" "\<not> pm_revoked m"
    "paths_match (hs_lower w) (ci_image_path i) (pm_expected_path m)"
    "pm_expected_signer m \<noteq> None \<longrightarrow> hs_authenticode w (ci_image_path i)"
    by (simp_all add: validate_handshake_Inr)
  have "\<exists>reads. opened (ci_image_path i) = Inr reads \<and>
      eq_ignore_ascii_case (hex_string (sha (file_bytes reads))) pin"
    if pin: "pm_expected_sha256 m = Some pin" for pin
  proof -
    from assms(4) pin obtain actual where
      actual: "sha256_file_hex g (opened (ci_image_path i)) = Inr actual"
      "eq_ignore_ascii_case actual pin" by (auto simp: validate_handshake_Inr assms(3))
    then obtain reads where reads: "opened (ci_image_path i) = Inr reads"
      by (auto simp: sha256_file_hex_def split: sum.splits)
    with actual sha256_file_hex_correct [OF assms(2), of reads actual] show ?thesis by simp
  qed
  with ok loaded_pinned [OF assms(1) ok(1)] show ?thesis by blast
qed

text \<open>The pinned signer is a switch: its subject is compared with nothing.\<close>

lemma signer_subject_ignored:
  assumes "store_get store (hl_plugin_id h) = Some m" and "pm_expected_signer m = Some subject"
    and "store_get store' (hl_plugin_id h) = Some (m\<lparr>pm_expected_signer := Some subject'\<rparr>)"
  shows "(\<exists>m'. validate_handshake w h i store' = Inr m') \<longleftrightarrow> (\<exists>m'. validate_handshake w h i store = Inr m')"
  using assms by (simp add: validate_handshake_Inr)

lemma high_low_inject:
  fixes n n' :: u64
  shows "(ucast (drop_bit 48 n) :: u16) = ucast (drop_bit 48 n') \<and> take_bit 48 n = take_bit 48 n'
    \<longleftrightarrow> n = n'"
proof
  assume eq: "(ucast (drop_bit 48 n) :: u16) = ucast (drop_bit 48 n') \<and> take_bit 48 n = take_bit 48 n'"
  show "n = n'"
  proof (rule bit_word_eqI)
    fix k assume k: "k < LENGTH(64)"
    show "bit n k = bit n' k"
    proof (cases "k < 48")
      case True
      have "bit (take_bit 48 n) k = bit (take_bit 48 n') k" using eq by simp
      with True show ?thesis by (simp add: bit_take_bit_iff)
    next
      case False
      have "bit (ucast (drop_bit 48 n) :: u16) (k - 48) = bit (ucast (drop_bit 48 n') :: u16) (k - 48)"
        using eq by simp
      moreover have "k - 48 < 16" using False k by simp
      ultimately show ?thesis using False k by (simp add: bit_ucast_iff bit_drop_bit_eq)
    qed
  qed
qed simp

text \<open>Session ids never collide within a run: two ids are equal exactly when the process, the
session counter and the time (in steps of 2^32 ns) are, so the counter alone keeps sessions apart,
whatever the clock does.\<close>

theorem session_id_inject:
  "gen_session_id n ns pid = gen_session_id n' ns' pid' \<longleftrightarrow>
     pid = pid' \<and> n = n' \<and> (ucast (drop_bit 48 ns) :: u16) = ucast (drop_bit 48 ns') \<and>
     (ucast (drop_bit 32 ns) :: u16) = ucast (drop_bit 32 ns')"
proof -
  have pid: "length (pad0 8 (hex (unat p))) = 8" for p :: u32
    using unsigned_less [of p, where 'a = nat] by (intro length_pad0_hex) simp_all
  have quad: "length (pad0 4 (hex (unat p))) = 4" for p :: u16
    using unsigned_less [of p, where 'a = nat] by (intro length_pad0_hex) simp_all
  show ?thesis
    by (auto simp: gen_session_id_def append_eq_append_conv pid quad pad0_hex_inject
        simp flip: high_low_inject [of n n'] word_unat_eq_iff)
qed

section \<open>Examples\<close>

definition sample_hasher :: "bytes cng" where
  "sample_hasher = \<lparr>cng_open_algorithm = None, cng_create = Inr [],
     cng_data = (\<lambda>h bs. Inr (h @ bs)), cng_finish = (\<lambda>h. Inr (take 2 h))\<rparr>"

definition sample_host :: host where
  "sample_host = \<lparr>hs_lower = map ascii_lower,
     hs_sha256 = (\<lambda>path. sha256_file_hex sample_hasher (Inr [Inr [0xab], Inr [0x12, 9], Inr []])),
     hs_authenticode = (\<lambda>path. False)\<rparr>"

definition sample_hello :: hello where
  "sample_hello = \<lparr>hl_plugin_id = ''p1'', hl_plugin_version = ''1.0'', hl_schema_version = 1\<rparr>"

definition sample_identity :: client_identity where
  "sample_identity = \<lparr>ci_pid = 77, ci_image_path = ''c:/ACME.exe''\<rparr>"

lemma sample_accepted:
  "validate_handshake sample_host sample_hello sample_identity sample_store = Inr sample_enrolled"
proof -
  have "hs_sha256 sample_host p = Inr ''ab12''" for p
    by (simp add: sample_host_def, code_simp)
  moreover have "paths_match (hs_lower sample_host) (ci_image_path sample_identity)
      (pm_expected_path sample_enrolled)" "\<not> pm_revoked sample_enrolled"
    "pm_expected_signer sample_enrolled = None" "pm_expected_sha256 sample_enrolled = Some ''ab12''"
    by code_simp+
  ultimately show ?thesis
    by (simp add: validate_handshake_Inr store_get_def sample_store_def sample_hello_def
        SCHEMA_VERSION_def)
qed

theorem only_verified_plugins_witness:
  "\<exists>reads. (\<lambda>path :: str. Inr [Inr [0xab], Inr [0x12, 9], Inr []] :: u32 + (u32 + bytes) list)
       ''c:/ACME.exe'' = Inr reads \<and>
     eq_ignore_ascii_case (hex_string (take 2 (file_bytes reads))) ''ab12''"
proof -
  have fed: "hashes_fed sample_hasher (take 2) (\<lambda>h. h)"
    by (simp add: hashes_fed_def sample_hasher_def)
  have host: "hs_sha256 sample_host =
      (\<lambda>path. sha256_file_hex sample_hasher (Inr [Inr [0xab], Inr [0x12, 9], Inr []]))"
    by (simp add: sample_host_def)
  have "pm_expected_sha256 sample_enrolled = Some ''ab12''" by code_simp
  with only_verified_plugins [OF sample_dir_loads fed host sample_accepted]
  show ?thesis by simp
qed

end
