(* ===== verification/Xml_Enrich.thy ===== *)
theory Xml_Enrich
  imports Text_Util Json_Value Decimal
begin

text \<open>
  The enrichment of plugin payloads that carry Windows event XML (\<open>src/src/plugin/server.rs\<close>):
  \<open>raw_xml\<close> is scanned for the event id and the \<open><Data Name="..">..</Data>\<close> pairs, which become
  fields of the payload unless the plugin already sent a field of that name.
\<close>

section \<open>The code\<close>

definition parse_u32 :: "str \<Rightarrow> nat option" where
  "parse_u32 s =
     (let ds = (case s of c # cs \<Rightarrow> if c = CHR ''+'' then cs else s | [] \<Rightarrow> []) in
      if ds \<noteq> [] \<and> (\<forall>c\<in>set ds. is_digit c) \<and> dec_value ds < 2 ^ 32 then Some (dec_value ds) else None)"

definition scan_event_id :: "str \<Rightarrow> nat option" where
  "scan_event_id xml =
     (case find_sub ''<EventID'' xml of
        None \<Rightarrow> None
      | Some start \<Rightarrow>
          (case find_sub ''>'' (drop start xml) of
             None \<Rightarrow> None
           | Some gt \<Rightarrow>
               let body = drop (gt + start + 1) xml in
               (case find_sub ''</EventID>'' body of
                  None \<Rightarrow> None
                | Some end_rel \<Rightarrow> parse_u32 (trim (take end_rel body)))))"

definition normalize_data_key :: "str \<Rightarrow> str" where
  "normalize_data_key name =
     map (\<lambda>c. if c = CHR '' '' then CHR ''_'' else ascii_lower c) (trim name)"

definition decode_xml_entities :: "str \<Rightarrow> str" where
  "decode_xml_entities s =
     (if CHR ''&'' \<notin> set s then s
      else replace_sub ''&apos;'' [CHR 0x27] (replace_sub ''&quot;'' [CHR 0x22]
        (replace_sub ''&gt;'' ''>'' (replace_sub ''&lt;'' ''<'' (replace_sub ''&amp;'' ''&'' s)))))"

definition is_quote :: "char \<Rightarrow> bool" where
  "is_quote c \<longleftrightarrow> c = CHR 0x22 \<or> c = CHR 0x27"

text \<open>One turn of the scan: the value of a complete pair and the text after it, or \<open>break\<close>, or
\<open>continue\<close> with the rest.\<close>

datatype scan_turn = Break | Skip str | Pair str str str

definition scan_pair :: "str \<Rightarrow> scan_turn" where
  "scan_pair xml =
     (case find_sub ''<Data Name='' xml of
        None \<Rightarrow> Break
      | Some off \<Rightarrow>
          (case drop (off + 11) xml of
             [] \<Rightarrow> Break
           | quote # r \<Rightarrow>
               if \<not> is_quote quote then Skip (quote # r)
               else case find_sub [quote] r of
                 None \<Rightarrow> Break
               | Some name_end \<Rightarrow>
                   let r2 = drop (name_end + 1) r in
                   (case find_sub ''>'' r2 of
                      None \<Rightarrow> Break
                    | Some tag_end \<Rightarrow>
                        let r3 = drop (tag_end + 1) r2 in
                        (case find_sub ''</Data>'' r3 of
                           None \<Rightarrow> Break
                         | Some val_end \<Rightarrow>
                             Pair (take name_end r) (trim (take val_end r3))
                               (drop (val_end + 7) r3)))))"

lemma scan_pair_shrinks:
  "scan_pair xml = Skip r \<Longrightarrow> length r < length xml"
  "scan_pair xml = Pair n v r \<Longrightarrow> length r < length xml"
proof -
  assume "scan_pair xml = Skip r"
  then obtain off where "find_sub ''<Data Name='' xml = Some off" "drop (off + 11) xml = r"
    by (auto simp: scan_pair_def Let_def split: option.splits list.splits if_splits)
  with find_sub_bound [OF this(1)] show "length r < length xml" by auto
next
  assume "scan_pair xml = Pair n v r"
  then obtain off q s k where "find_sub ''<Data Name='' xml = Some off" "drop (off + 11) xml = q # s"
    "r = drop k s"
    by (auto simp: scan_pair_def Let_def split: option.splits list.splits if_splits)
  then have "length r \<le> length s" "length (q # s) \<le> length xml"
    by (simp, metis length_drop diff_le_self)
  then show "length r < length xml" by simp
qed

function scan_data_fields :: "str \<Rightarrow> (str \<times> str) list" where
  "scan_data_fields xml =
     (case scan_pair xml of
        Break \<Rightarrow> []
      | Skip r \<Rightarrow> scan_data_fields r
      | Pair name v r \<Rightarrow>
          (if v = [] then [] else [(normalize_data_key name, decode_xml_entities v)])
            @ scan_data_fields r)"
  by pat_completeness auto
termination
  by (relation "measure length") (auto dest: scan_pair_shrinks)

declare scan_data_fields.simps [simp del]

definition insert_new :: "str \<times> json \<Rightarrow> (str \<times> json) list \<Rightarrow> (str \<times> json) list" where
  "insert_new e obj =
     (case e of (k, v) \<Rightarrow> if map_of obj k \<noteq> None then obj else put k v obj)"

definition enrich_with_xml_data_fields :: "json \<Rightarrow> json" where
  "enrich_with_xml_data_fields payload =
     (case payload of
        JObj obj \<Rightarrow>
          (case map_of obj ''raw_xml'' of
             Some (JStr xml) \<Rightarrow>
               let obj = (if map_of obj ''event_id'' \<noteq> None then obj
                          else case scan_event_id xml of
                            Some eid \<Rightarrow> put ''event_id'' (JInt (int eid)) obj
                          | None \<Rightarrow> obj)
               in JObj (fold (\<lambda>(k, v). insert_new (k, JStr v)) (scan_data_fields xml) obj)
           | _ \<Rightarrow> payload)
      | _ \<Rightarrow> payload)"

section \<open>What enrichment keeps\<close>

lemma insert_new_keeps: "map_of obj k = Some v \<Longrightarrow> map_of (insert_new e obj) k = Some v"
  by (cases e) (auto simp: insert_new_def)

lemma fold_insert_new_keeps:
  "map_of obj k = Some v \<Longrightarrow> map_of (fold (\<lambda>(k, v). insert_new (k, f v)) es obj) k = Some v"
  by (induction es arbitrary: obj) (auto simp: insert_new_keeps)

lemma fold_insert_new_first:
  "map_of obj k = None \<Longrightarrow>
     map_of (fold (\<lambda>(k, v). insert_new (k, f v)) es obj) k = map_option f (map_of es k)"
proof (induction es arbitrary: obj)
  case (Cons e es)
  obtain k' v where e: "e = (k', v)" by force
  show ?case
  proof (cases "k = k'")
    case True
    then have "map_of (insert_new (k', f v) obj) k = Some (f v)"
      using Cons.prems by (simp add: insert_new_def)
    from fold_insert_new_keeps [OF this] True show ?thesis by (simp add: e)
  next
    case False
    then have "map_of (insert_new (k', f v) obj) k = None"
      using Cons.prems by (simp add: insert_new_def)
    from Cons.IH [OF this] False show ?thesis by (simp add: e)
  qed
qed simp

text \<open>Enrichment only adds: every field a plugin sent keeps its value (\<open>raw_xml\<close> included), a
payload without \<open>raw_xml\<close> is unchanged, and a field that was not there gets the first value the XML
gives that name.\<close>

theorem enrich_only_adds:
  "(json_get ''raw_xml'' p = None \<longrightarrow> enrich_with_xml_data_fields p = p) \<and>
   (json_get k p = Some v \<longrightarrow> json_get k (enrich_with_xml_data_fields p) = Some v) \<and>
   (json_get ''raw_xml'' p = Some (JStr xml) \<and> json_get k p = None \<and> k \<noteq> ''event_id'' \<longrightarrow>
      json_get k (enrich_with_xml_data_fields p) = map_option JStr (map_of (scan_data_fields xml) k))"
proof (cases p)
  case (JObj obj)
  show ?thesis
  proof (cases "map_of obj ''raw_xml''")
    case (Some j)
    show ?thesis
    proof (cases j)
      case (JStr x)
      define obj' where "obj' = (if map_of obj ''event_id'' \<noteq> None then obj
        else case scan_event_id x of Some eid \<Rightarrow> put ''event_id'' (JInt (int eid)) obj | None \<Rightarrow> obj)"
      have enriched: "enrich_with_xml_data_fields p =
          JObj (fold (\<lambda>(k, v). insert_new (k, JStr v)) (scan_data_fields x) obj')"
        by (simp add: enrich_with_xml_data_fields_def JObj Some JStr obj'_def Let_def)
      have "map_of obj k = Some v \<Longrightarrow> map_of obj' k = Some v"
        "map_of obj k = None \<Longrightarrow> k \<noteq> ''event_id'' \<Longrightarrow> map_of obj' k = None"
        by (auto simp: obj'_def split: option.splits)
      then show ?thesis unfolding enriched
        by (simp add: JObj Some JStr fold_insert_new_keeps fold_insert_new_first)
    qed (simp_all add: enrich_with_xml_data_fields_def JObj Some)
  qed (simp add: enrich_with_xml_data_fields_def JObj)
qed (simp_all add: enrich_with_xml_data_fields_def)

theorem enrich_only_adds_witness:
  "json_get ''seq'' (enrich_with_xml_data_fields
     (JObj [(''seq'', JInt 4), (''raw_xml'', JStr ''<EventID>7</EventID>'')])) = Some (JInt 4)"
  using enrich_only_adds [of "JObj [(''seq'', JInt 4), (''raw_xml'', JStr ''<EventID>7</EventID>'')]"
    "''seq''" "JInt 4"] by simp

section \<open>Reading back what a writer of the schema produces\<close>

lemma find_sub_first:
  assumes "p \<noteq> []" and "hd p \<notin> set v"
  shows "find_sub p (v @ p @ rest) = Some (length v)"
  using assms(2)
proof (induction v)
  case Nil
  have "starts_with (p @ rest) p" by simp
  then show ?case using assms(1) by (cases "p @ rest") auto
next
  case (Cons c v)
  then have "\<not> starts_with (c # v @ p @ rest) p" using assms(1)
    by (cases p) (auto simp: starts_with_def)
  with Cons show ?case by simp
qed

text \<open>The four entities of characters other than the ampersand.\<close>

definition entity :: "char \<Rightarrow> str option" where
  "entity c =
     (if c = CHR ''<'' then Some ''&lt;'' else if c = CHR ''>'' then Some ''&gt;''
      else if c = CHR 0x22 then Some ''&quot;'' else if c = CHR 0x27 then Some ''&apos;'' else None)"

definition escaped :: "char set \<Rightarrow> str \<Rightarrow> str" where
  "escaped done s =
     concat (map (\<lambda>c. case entity c of Some e \<Rightarrow> if c \<in> done then [c] else e | None \<Rightarrow> [c]) s)"

definition xml_escape :: "str \<Rightarrow> str" where "xml_escape s = escaped {} s"

lemma entity_Some:
  "entity c = Some e \<longleftrightarrow> c = CHR ''<'' \<and> e = ''&lt;'' \<or> c = CHR ''>'' \<and> e = ''&gt;'' \<or>
     c = CHR 0x22 \<and> e = ''&quot;'' \<or> c = CHR 0x27 \<and> e = ''&apos;''"
  by (auto simp: entity_def)

lemma replace_sub_Cons:
  "p \<noteq> [] \<Longrightarrow> \<not> starts_with (c # s) p \<Longrightarrow> replace_sub p r (c # s) = c # replace_sub p r s"
  by (simp add: replace_sub.simps [of p r "c # s"])

lemma replace_sub_prefix: "p \<noteq> [] \<Longrightarrow> replace_sub p r (p @ s) = r @ replace_sub p r s"
proof (cases p)
  case (Cons c cs)
  have "starts_with (c # cs @ s) (c # cs)" by (simp add: starts_with_def)
  then show ?thesis by (subst replace_sub.simps) (simp add: Cons)
qed simp

lemma replace_sub_skip:
  "p \<noteq> [] \<Longrightarrow> hd p \<notin> set t \<Longrightarrow> replace_sub p r (t @ s) = t @ replace_sub p r s"
proof (induction t)
  case (Cons c t)
  then have "\<not> starts_with (c # t @ s) p" by (cases p) (auto simp: starts_with_def)
  with Cons show ?case by (simp add: replace_sub_Cons)
qed simp

lemma replace_sub_entity:
  assumes "p \<noteq> []" and "hd p = CHR ''&''" and "CHR ''&'' \<notin> set t"
    and "\<not> starts_with (CHR ''&'' # t @ s) p"
  shows "replace_sub p r (CHR ''&'' # t @ s) = CHR ''&'' # t @ replace_sub p r s"
  using replace_sub_Cons [OF assms(1,4), of r] replace_sub_skip [of p t r s] assms by simp

lemma entity_tail:
  assumes "entity c = Some e"
  obtains t where "e = CHR ''&'' # t" "CHR ''&'' \<notin> set t"
  using assms that by (auto simp: entity_Some)

text \<open>One replacement decodes one entity and leaves the others alone.\<close>

lemma replace_entity:
  assumes "entity x = Some e" and "CHR ''&'' \<notin> set s" and "x \<notin> done"
  shows "replace_sub e [x] (escaped done s) = escaped (insert x done) s"
  using assms(2)
proof (induction s)
  case (Cons c s)
  have e: "e \<noteq> []" "hd e = CHR ''&''" using assms(1) by (auto simp: entity_Some)
  let ?rest = "escaped done s"
  have IH: "replace_sub e [x] ?rest = escaped (insert x done) s" using Cons by simp
  consider "c = x" | "c \<noteq> x" "entity c = None \<or> c \<in> done" | e' where "c \<noteq> x" "entity c = Some e'" "c \<notin> done"
    by (cases "entity c") auto
  then show ?case
  proof cases
    case 1
    then show ?thesis using assms(1,3) IH e by (simp add: escaped_def replace_sub_prefix)
  next
    case 2
    moreover have "replace_sub e [x] ([c] @ ?rest) = [c] @ replace_sub e [x] ?rest"
      using e Cons.prems by (intro replace_sub_skip) auto
    ultimately show ?thesis using IH by (auto simp: escaped_def split: option.splits)
  next
    case 3
    obtain t where t: "e' = CHR ''&'' # t" "CHR ''&'' \<notin> set t" using 3(2) by (rule entity_tail)
    have "\<not> starts_with (e' @ ?rest) e"
      using 3(1,2) assms(1) by (auto simp: entity_Some starts_with_def)
    then have "replace_sub e [x] (e' @ ?rest) = e' @ replace_sub e [x] ?rest"
      using replace_sub_entity [OF e t(2)] by (simp add: t(1))
    then show ?thesis using 3 IH by (simp add: escaped_def)
  qed
qed (simp add: escaped_def)

lemma replace_amp_escaped:
  assumes "CHR ''&'' \<notin> set s"
  shows "replace_sub ''&amp;'' ''&'' (escaped {} s) = escaped {} s"
  using assms
proof (induction s)
  case (Cons c s)
  let ?rest = "escaped {} s"
  let ?p = "''&amp;''"
  have IH: "replace_sub ?p ''&'' ?rest = ?rest" using Cons by simp
  show ?case
  proof (cases "entity c")
    case None
    have "replace_sub ?p ''&'' ([c] @ ?rest) = [c] @ replace_sub ?p ''&'' ?rest"
      using Cons.prems by (intro replace_sub_skip) auto
    then show ?thesis using IH None by (simp add: escaped_def)
  next
    case (Some e)
    obtain t where t: "e = CHR ''&'' # t" "CHR ''&'' \<notin> set t" using Some by (rule entity_tail)
    have "\<not> starts_with (e @ ?rest) ?p" using Some by (auto simp: entity_Some starts_with_def)
    then have "replace_sub ?p ''&'' (e @ ?rest) = e @ replace_sub ?p ''&'' ?rest"
      using replace_sub_entity [of ?p t ?rest "''&''"] t(2) by (simp add: t(1))
    then show ?thesis using IH Some by (simp add: escaped_def)
  qed
qed (simp add: escaped_def)

lemma escaped_all: "escaped {CHR ''<'', CHR ''>'', CHR 0x22, CHR 0x27} s = s"
proof (induction s)
  case (Cons c s)
  then show ?case by (cases "entity c") (auto simp: escaped_def entity_def split: if_splits)
qed (simp add: escaped_def)

lemma decode_escape:
  assumes amp: "CHR ''&'' \<notin> set s"
  shows "decode_xml_entities (xml_escape s) = s"
proof (cases "CHR ''&'' \<in> set (xml_escape s)")
  case True
  let ?one = "{CHR ''<''}" and ?two = "{CHR ''>'', CHR ''<''}"
  let ?three = "{CHR 0x22, CHR ''>'', CHR ''<''}" and ?four = "{CHR 0x27, CHR 0x22, CHR ''>'', CHR ''<''}"
  have "replace_sub ''&lt;'' ''<'' (escaped {} s) = escaped ?one s"
    by (rule replace_entity [OF _ amp]) (simp_all add: entity_def)
  moreover have "replace_sub ''&gt;'' ''>'' (escaped ?one s) = escaped ?two s"
    by (rule replace_entity [OF _ amp]) (simp_all add: entity_def)
  moreover have "replace_sub ''&quot;'' [CHR 0x22] (escaped ?two s) = escaped ?three s"
    by (rule replace_entity [OF _ amp]) (simp_all add: entity_def)
  moreover have "replace_sub ''&apos;'' [CHR 0x27] (escaped ?three s) = escaped ?four s"
    by (rule replace_entity [OF _ amp]) (simp_all add: entity_def)
  moreover have "?four = {CHR ''<'', CHR ''>'', CHR 0x22, CHR 0x27}" by blast
  ultimately show ?thesis using True replace_amp_escaped [OF amp]
    by (simp only: decode_xml_entities_def xml_escape_def escaped_all if_not_P not_not)
next
  case False
  then have "decode_xml_entities (xml_escape s) = xml_escape s" by (simp add: decode_xml_entities_def)
  also from False have "xml_escape s = s"
  proof (induction s)
    case (Cons c s)
    then have "entity c = None"
      by (cases "entity c") (auto simp: xml_escape_def escaped_def elim: entity_tail)
    with Cons show ?case by (simp add: xml_escape_def escaped_def)
  qed (simp add: xml_escape_def escaped_def)
  finally show ?thesis .
qed

text \<open>The writer of the schema: one \<open>Data\<close> element per pair, quoted either way.\<close>

definition data_element :: "char \<Rightarrow> str \<times> str \<Rightarrow> str" where
  "data_element q e =
     (case e of (name, v) \<Rightarrow>
        ''<Data Name='' @ [q] @ name @ [q] @ ''>'' @ xml_escape v @ ''</Data>'')"

definition plain_field :: "char \<Rightarrow> str \<times> str \<Rightarrow> bool" where
  "plain_field q e \<longleftrightarrow>
     q \<notin> set (fst e) \<and> snd e \<noteq> [] \<and> CHR ''&'' \<notin> set (snd e) \<and> trim (xml_escape (snd e)) = xml_escape (snd e)"

lemma escape_no_angle: "CHR ''<'' \<notin> set (xml_escape s)"
  by (auto simp: xml_escape_def escaped_def entity_def split: if_splits)

lemma escape_Nil: "xml_escape s = [] \<longleftrightarrow> s = []"
  by (cases s) (auto simp: xml_escape_def escaped_def entity_def)

lemma scan_pair_element:
  assumes "is_quote q" and "plain_field q (name, v)"
  shows "scan_pair (data_element q (name, v) @ rest) = Pair name (xml_escape v) rest"
proof -
  let ?tail = "xml_escape v @ ''</Data>'' @ rest"
  have "find_sub ''<Data Name='' ([] @ ''<Data Name='' @ q # name @ [q] @ ''>'' @ ?tail) = Some 0"
    using find_sub_first [of "''<Data Name=''" "[]"] by simp
  moreover have "find_sub [q] (name @ [q] @ ''>'' @ ?tail) = Some (length name)"
    using assms(2) by (intro find_sub_first) (simp_all add: plain_field_def)
  moreover have "find_sub ''>'' (''>'' @ ?tail) = Some 0"
    using find_sub_first [of "''>''" "[]"] by simp
  moreover have "find_sub ''</Data>'' ?tail = Some (length (xml_escape v))"
    by (intro find_sub_first) (simp_all add: escape_no_angle)
  moreover have "trim (xml_escape v) = xml_escape v" using assms(2) by (simp add: plain_field_def)
  ultimately show ?thesis using assms(1)
    by (simp add: scan_pair_def data_element_def Let_def del: find_sub.simps)
qed

lemma scan_data_fields_element:
  assumes "is_quote q" and "plain_field q (name, v)"
  shows "scan_data_fields (data_element q (name, v) @ rest) =
    (normalize_data_key name, v) # scan_data_fields rest"
  using assms(2)
  by (subst scan_data_fields.simps)
     (simp add: scan_pair_element [OF assms] decode_escape escape_Nil plain_field_def)

lemma scan_data_fields_no_element:
  "find_sub ''<Data Name='' rest = None \<Longrightarrow> scan_data_fields rest = []"
  by (simp add: scan_data_fields.simps [of rest] scan_pair_def)

lemma scan_elements:
  assumes "is_quote q" and "find_sub ''<Data Name='' rest = None"
  shows "\<forall>e\<in>set es. plain_field q e \<Longrightarrow>
    scan_data_fields (concat (map (data_element q) es) @ rest) =
      map (\<lambda>(n, v). (normalize_data_key n, v)) es"
proof (induction es)
  case Nil
  then show ?case using assms(2) by (simp add: scan_data_fields_no_element)
next
  case (Cons e es)
  obtain n v where e: "e = (n, v)" by force
  with Cons scan_data_fields_element [OF assms(1), of n v] show ?case by simp
qed

text \<open>The scan reads back what an event-log provider writes: for a sequence of \<open>Data\<close> elements,
quoted with either character and with the characters \<open><\<close>, \<open>>\<close> and the quotes written as entities, it
yields exactly the names, normalised, and the original values, in order, whatever follows. (A value
that holds an ampersand is outside: \<open>&\<close> is decoded first and what it uncovers is decoded again.)\<close>

theorem xml_fields_roundtrip:
  assumes "is_quote q" and "\<forall>e\<in>set es. plain_field q e" and "find_sub ''<Data Name='' rest = None"
  shows "scan_data_fields (concat (map (data_element q) es) @ rest) =
    map (\<lambda>(n, v). (normalize_data_key n, v)) es"
  using assms by (intro scan_elements)

theorem xml_fields_roundtrip_witness:
  "scan_data_fields (concat (map (data_element (CHR 0x27))
      [(''Threat Name'', ''a<b''), (''FWLink'', ''x'')]) @ ''</EventData>'') =
   [(''threat_name'', ''a<b''), (''fwlink'', ''x'')]"
proof -
  have "is_quote (CHR 0x27)" by (simp add: is_quote_def)
  moreover have "\<forall>e\<in>set [(''Threat Name'', ''a<b''), (''FWLink'', ''x'')]. plain_field (CHR 0x27) e"
    by code_simp
  moreover have "find_sub ''<Data Name='' ''</EventData>'' = None" by code_simp
  ultimately have "scan_data_fields (concat (map (data_element (CHR 0x27))
      [(''Threat Name'', ''a<b''), (''FWLink'', ''x'')]) @ ''</EventData>'') =
    map (\<lambda>(n, v). (normalize_data_key n, v)) [(''Threat Name'', ''a<b''), (''FWLink'', ''x'')]"
    by (rule xml_fields_roundtrip)
  also have "\<dots> = [(''threat_name'', ''a<b''), (''fwlink'', ''x'')]" by code_simp
  finally show ?thesis .
qed

text \<open>An escaped ampersand is decoded twice.\<close>

lemma double_decoding: "decode_xml_entities ''&amp;lt;'' = ''<''"
  by code_simp

end
