(* ===== verification/Civil_Time.thy ===== *)
theory Civil_Time
  imports Prelude
begin

text \<open>
  The timestamp of plugin events (\<open>format_iso8601_ns\<close> of \<open>src/src/plugin/server.rs\<close>), which converts
  a day count to a Gregorian date by closed formulas, against the calendar defined day by day.
\<close>

section \<open>The code\<close>

definition year_of_era :: "int \<Rightarrow> int" where
  "year_of_era doe = (doe - doe div 1460 + doe div 36524 - doe div 146096) div 365"

definition days_before :: "int \<Rightarrow> int" where
  "days_before yoe = 365 * yoe + yoe div 4 - yoe div 100"

definition month_day :: "int \<Rightarrow> int \<times> int" where
  "month_day doy =
     (let mp = (5 * doy + 2) div 153;
          d = doy - (153 * mp + 2) div 5 + 1;
          m = (if mp < 10 then mp + 3 else mp - 9)
      in (m, d))"

definition civil_from_days :: "int \<Rightarrow> int \<times> int \<times> int" where
  "civil_from_days days =
     (let days = days + 719468;
          era = (if days \<ge> 0 then days else days - 146096) div 146097;
          doe = days - era * 146097;
          yoe = year_of_era doe;
          y = yoe + era * 400;
          doy = doe - days_before yoe;
          (m, d) = month_day doy
      in (if m \<le> 2 then y + 1 else y, m, d))"

definition iso_text :: "int \<times> int \<times> int \<Rightarrow> nat \<Rightarrow> nat \<Rightarrow> nat \<Rightarrow> nat \<Rightarrow> str" where
  "iso_text date hours mins secs ms =
     (case date of (year, m, d) \<Rightarrow>
        pad0 4 (dec_int year) @ ''-'' @ pad0 2 (dec_int m) @ ''-'' @ pad0 2 (dec_int d) @ ''T'' @
        pad0 2 (dec hours) @ '':'' @ pad0 2 (dec mins) @ '':'' @ pad0 2 (dec secs) @ ''.'' @
        pad0 3 (dec ms) @ ''Z'')"

definition format_iso8601_ns :: "u64 \<Rightarrow> str" where
  "format_iso8601_ns ns =
     (let total_secs = unat ns div 1000000000;
          ms = (unat ns mod 1000000000) div 1000000;
          secs = total_secs mod 60;
          mins = (total_secs div 60) mod 60;
          hours = (total_secs div 3600) mod 24;
          days = int (total_secs div 86400)
      in iso_text (civil_from_days days) hours mins secs ms)"

section \<open>The calendar\<close>

definition leap :: "int \<Rightarrow> bool" where
  "leap y \<longleftrightarrow> 4 dvd y \<and> (\<not> 100 dvd y \<or> 400 dvd y)"

definition month_length :: "int \<Rightarrow> int \<Rightarrow> int" where
  "month_length y m =
     (if m = 2 then (if leap y then 29 else 28) else if m \<in> {4, 6, 9, 11} then 30 else 31)"

definition next_day :: "int \<times> int \<times> int \<Rightarrow> int \<times> int \<times> int" where
  "next_day date =
     (case date of (y, m, d) \<Rightarrow>
        if d < month_length y m then (y, m, d + 1)
        else if m < 12 then (y, m + 1, 1)
        else (y + 1, 1, 1))"

fun date_after :: "nat \<Rightarrow> int \<times> int \<times> int" where
  "date_after 0 = (1970, 1, 1)"
| "date_after (Suc n) = next_day (date_after n)"

definition valid_date :: "int \<times> int \<times> int \<Rightarrow> bool" where
  "valid_date date =
     (case date of (y, m, d) \<Rightarrow> 1 \<le> m \<and> m \<le> 12 \<and> 1 \<le> d \<and> d \<le> month_length y m)"

section \<open>Years of an era\<close>

text \<open>Years here begin in March. The year of a day of the era is the one whose span contains it: the
code's formula is monotone, and right at both ends of each of the 400 spans.\<close>

definition year_end :: "int \<Rightarrow> int" where
  "year_end y = (if y = 399 then 146097 else days_before (y + 1))"

lemma year_ends:
  "\<forall>y\<in>set [0..399]. year_of_era (days_before y) = y \<and> year_of_era (year_end y - 1) = y \<and>
     days_before y < year_end y"
  by code_simp

lemma minus_div_mono:
  fixes a b n :: int
  assumes "a \<le> b" and "0 < n"
  shows "a - a div n \<le> b - b div n"
proof -
  have "1 * (b - a) \<le> n * (b - a)" using assms by (intro mult_right_mono) simp_all
  then have "b \<le> a + n * (b - a)" by simp
  then have "b div n \<le> (a + n * (b - a)) div n" using assms(2) by (rule zdiv_mono1)
  also have "\<dots> = a div n + (b - a)" using assms(2) by simp
  finally show ?thesis by simp
qed

lemma year_of_era_mono:
  assumes "0 \<le> a" and "a \<le> b" and "b < 146096"
  shows "year_of_era a \<le> year_of_era b"
proof -
  have "a - a div 1460 \<le> b - b div 1460" using assms(2) by (rule minus_div_mono) simp
  moreover have "a div 36524 \<le> b div 36524" using assms(2) by (simp add: zdiv_mono1)
  moreover have "a div 146096 = 0" "b div 146096 = 0" using assms by simp_all
  ultimately have "a - a div 1460 + a div 36524 - a div 146096 \<le>
      b - b div 1460 + b div 36524 - b div 146096" by linarith
  then show ?thesis unfolding year_of_era_def by (rule zdiv_mono1) simp
qed

lemma year_exists:
  "0 \<le> doe \<Longrightarrow> n \<le> 399 \<Longrightarrow> doe < year_end (int n) \<Longrightarrow>
     \<exists>y. 0 \<le> y \<and> y \<le> int n \<and> days_before y \<le> doe \<and> doe < year_end y"
proof (induction n)
  case 0
  then show ?case by (intro exI [of _ 0]) (simp add: days_before_def)
next
  case (Suc n)
  show ?case
  proof (cases "doe < year_end (int n)")
    case True
    then obtain y where "0 \<le> y \<and> y \<le> int n \<and> days_before y \<le> doe \<and> doe < year_end y"
      using Suc.IH Suc.prems by auto
    then show ?thesis by (intro exI [of _ y]) simp
  next
    case False
    with Suc.prems show ?thesis
      by (intro exI [of _ "int (Suc n)"]) (auto simp: year_end_def add.commute split: if_splits)
  qed
qed

lemma era_year:
  assumes "0 \<le> doe" and "doe < 146097"
  obtains y where "0 \<le> y" "y \<le> 399" "days_before y \<le> doe" "doe < year_end y" "year_of_era doe = y"
proof -
  obtain y where y: "0 \<le> y" "y \<le> 399" "days_before y \<le> doe" "doe < year_end y"
    using year_exists [of doe 399] assms by (auto simp: year_end_def)
  then have ends: "year_of_era (days_before y) = y" "year_of_era (year_end y - 1) = y"
    using year_ends by auto
  have low: "0 \<le> days_before y" using y(1) by (simp add: days_before_def)
  have "year_of_era doe = y"
  proof (cases "doe < 146096")
    case True
    have "year_of_era (days_before y) \<le> year_of_era doe"
      by (rule year_of_era_mono [OF low y(3) True])
    moreover have "year_of_era doe \<le> y"
    proof (cases "y = 399")
      case True
      have "year_of_era doe \<le> year_of_era 146095"
        using assms \<open>doe < 146096\<close> by (intro year_of_era_mono) simp_all
      also have "\<dots> = 399" by (simp add: year_of_era_def)
      finally show ?thesis using True by simp
    next
      case False
      have "year_end y \<le> 146096" using False y(1,2) by (simp add: year_end_def days_before_def)
      then have "year_of_era doe \<le> year_of_era (year_end y - 1)"
        using assms y by (intro year_of_era_mono) simp_all
      then show ?thesis using ends by simp
    qed
    ultimately show ?thesis using ends by simp
  next
    case False
    then have doe: "doe = 146096" using assms by simp
    have "y = 399" using y False by (auto simp: year_end_def days_before_def split: if_splits)
    then show ?thesis by (simp add: doe year_of_era_def)
  qed
  with y show thesis by (rule that)
qed

section \<open>One day further\<close>

lemma year_lengths:
  "\<forall>y\<in>set [0..399]. year_end y - days_before y = (if leap (y + 1) then 366 else 365)"
  by code_simp

lemma months:
  "\<forall>doy\<in>set [0..364]. let (m, d) = month_day doy in 1 \<le> m \<and> m \<le> 12 \<and> 1 \<le> d \<and>
     month_day (doy + 1) = (if m = 2 then (2, d + 1)
       else if d < month_length 1 m then (m, d + 1) else if m < 12 then (m + 1, 1) else (1, 1)) \<and>
     (m = 2 \<longrightarrow> d = doy - 336) \<and> (m \<noteq> 2 \<longrightarrow> d \<le> month_length 1 m) \<and> (doy = 364 \<longrightarrow> m = 2)"
  by code_simp

lemma month_day_ends: "month_day 0 = (3, 1)" "month_day 365 = (2, 29)" "month_day 364 = (2, 28)"
  by code_simp+

lemma leap_era: "leap (y + 400 * e) = leap y"
proof -
  have "k dvd y + 400 * e \<longleftrightarrow> k dvd y" if "k \<in> {4, 100, 400}" for k
    using that by (auto simp: dvd_add_left_iff)
  then show ?thesis by (simp add: leap_def)
qed

text \<open>The date of a day of an era.\<close>

definition era_date :: "int \<Rightarrow> int \<Rightarrow> int \<Rightarrow> int \<times> int \<times> int" where
  "era_date era y doy =
     (let (m, d) = month_day doy in (if m \<le> 2 then y + era * 400 + 1 else y + era * 400, m, d))"

lemma civil_era_date:
  assumes "0 \<le> days" and "days + 719468 = era * 146097 + doe" and "0 \<le> doe" and "doe < 146097"
    and "year_of_era doe = y"
  shows "civil_from_days days = era_date era y (doe - days_before y)"
proof -
  have "(days + 719468) div 146097 = era"
    unfolding assms(2) using assms(3,4) by simp
  then show ?thesis using assms
    by (simp add: civil_from_days_def era_date_def Let_def split: prod.split)
qed

lemma month_length_year: "m \<noteq> 2 \<Longrightarrow> month_length y m = month_length 1 m"
  by (simp add: month_length_def)

lemma era_date_next:
  assumes "0 \<le> y" and "y \<le> 399" and "0 \<le> doy" and "doy + 1 < year_end y - days_before y"
  shows "era_date era y (doy + 1) = next_day (era_date era y doy)"
proof -
  obtain m d where md: "month_day doy = (m, d)" by force
  have len: "year_end y - days_before y = (if leap (y + 1) then 366 else 365)"
    using year_lengths assms(1,2) by simp
  have "doy \<le> 364" using assms(4) len by (simp split: if_splits)
  with assms(3) months have table: "1 \<le> m" "m \<le> 12" "1 \<le> d"
    "month_day (doy + 1) = (if m = 2 then (2, d + 1)
       else if d < month_length 1 m then (m, d + 1) else if m < 12 then (m + 1, 1) else (1, 1))"
    "m = 2 \<longrightarrow> d = doy - 336" by (auto simp: md Let_def dest!: bspec [of _ _ doy])
  have leap: "leap (y + era * 400 + 1) = leap (y + 1)"
    using leap_era [of "y + 1" era] by (simp add: algebra_simps)
  show ?thesis
  proof (cases "m = 2")
    case True
    then have "d < month_length (y + era * 400 + 1) 2"
      using table(5) assms(4) len leap by (auto simp: month_length_def split: if_splits)
    with True table show ?thesis by (simp add: era_date_def md next_day_def)
  next
    case False
    define Y where "Y = (if m \<le> 2 then y + era * 400 + 1 else y + era * 400)"
    have now: "era_date era y doy = (Y, m, d)" by (simp add: era_date_def md Y_def)
    have len: "month_length Y m = month_length 1 m" using False by (rule month_length_year)
    consider "d < month_length 1 m" | "\<not> d < month_length 1 m" "m < 12" | "\<not> d < month_length 1 m" "m = 12"
      using table(2) by linarith
    then show ?thesis
    proof cases
      case 1
      then have "month_day (doy + 1) = (m, d + 1)" using table(4) False by simp
      with 1 show ?thesis by (simp add: now next_day_def len) (simp add: era_date_def Y_def)
    next
      case 2
      then have "month_day (doy + 1) = (m + 1, 1)" using table(4) False by simp
      with 2 table(1) False show ?thesis
        by (simp add: now next_day_def len) (auto simp: era_date_def Y_def)
    next
      case 3
      then have "month_day (doy + 1) = (1, 1)" using table(4) False by simp
      moreover have "\<not> d < month_length Y m" using 3 len by simp
      ultimately show ?thesis using 3(2) by (simp add: now next_day_def) (simp add: era_date_def Y_def)
    qed
  qed
qed

lemma era_date_last:
  assumes "0 \<le> y" and "y \<le> 399" and "doy + 1 = year_end y - days_before y"
  shows "next_day (era_date era y doy) = (y + 1 + era * 400, 3, 1)"
proof -
  have len: "year_end y - days_before y = (if leap (y + 1) then 366 else 365)"
    using year_lengths assms(1,2) by simp
  have leap: "leap (y + era * 400 + 1) = leap (y + 1)"
    using leap_era [of "y + 1" era] by (simp add: algebra_simps)
  have "doy = (if leap (y + 1) then 365 else 364)" using assms(3) len by (simp split: if_splits)
  then show ?thesis
    using leap by (auto simp: era_date_def month_day_ends next_day_def month_length_def)
qed

lemma civil_next:
  assumes "0 \<le> days"
  shows "civil_from_days (days + 1) = next_day (civil_from_days days)"
proof -
  define era where "era = (days + 719468) div 146097"
  define doe where "doe = (days + 719468) mod 146097"
  have split: "days + 719468 = era * 146097 + doe" and doe: "0 \<le> doe" "doe < 146097"
    by (simp_all add: era_def doe_def)
  obtain y where y: "0 \<le> y" "y \<le> 399" "days_before y \<le> doe" "doe < year_end y" "year_of_era doe = y"
    using era_year [OF doe] .
  have now: "civil_from_days days = era_date era y (doe - days_before y)"
    by (rule civil_era_date [OF assms split doe y(5)])
  show ?thesis
  proof (cases "doe + 1 < year_end y")
    case True
    have bound: "doe + 1 < 146097" using True y(1,2)
      by (auto simp: year_end_def days_before_def split: if_splits)
    obtain z where z: "0 \<le> z" "z \<le> 399" "days_before z \<le> doe + 1" "doe + 1 < year_end z"
      "year_of_era (doe + 1) = z" using era_year [of "doe + 1"] doe bound by auto
    have "z = y"
    proof (rule ccontr)
      have mono: "a < b \<Longrightarrow> b \<le> 399 \<Longrightarrow> year_end a \<le> days_before b" for a b
      proof -
        assume ab: "a < b" "b \<le> 399"
        have "a + 1 - (a + 1) div 100 \<le> b - b div 100" using ab by (intro minus_div_mono) simp_all
        moreover have "(a + 1) div 4 \<le> b div 4" using ab by (intro zdiv_mono1) simp_all
        ultimately show ?thesis using ab by (simp add: year_end_def days_before_def)
      qed
      assume "z \<noteq> y"
      then consider "z < y" | "y < z" by linarith
      then show False using mono [of z y] mono [of y z] y z True by cases auto
    qed
    then have "civil_from_days (days + 1) = era_date era y (doe + 1 - days_before y)"
      using z split doe bound by (intro civil_era_date) (use assms in simp_all)
    also have "\<dots> = next_day (era_date era y (doe - days_before y))"
      using era_date_next [of y "doe - days_before y" era] y True by (simp add: algebra_simps)
    finally show ?thesis using now by simp
  next
    case False
    then have last: "doe + 1 = year_end y" using y(4) by simp
    have next_year: "next_day (civil_from_days days) = (y + 1 + era * 400, 3, 1)"
      unfolding now using y last by (intro era_date_last) simp_all
    show ?thesis
    proof (cases "y = 399")
      case True
      then have "days + 1 + 719468 = (era + 1) * 146097 + 0"
        using split last by (simp add: year_end_def)
      then have "civil_from_days (days + 1) = era_date (era + 1) 0 (0 - days_before 0)"
        by (intro civil_era_date) (use assms in \<open>simp_all add: year_of_era_def\<close>)
      then show ?thesis using next_year True
        by (simp add: era_date_def days_before_def month_day_ends)
    next
      case False
      then have d: "doe + 1 = days_before (y + 1)" using last by (simp add: year_end_def)
      have ends: "year_of_era (days_before (y + 1)) = y + 1" "days_before (y + 1) < year_end (y + 1)"
        using year_ends y(1,2) False by auto
      have "doe + 1 < 146097" using ends(2) d y(1,2) False
        by (auto simp: year_end_def days_before_def split: if_splits)
      then have "civil_from_days (days + 1) = era_date era (y + 1) (doe + 1 - days_before (y + 1))"
        using split doe ends d by (intro civil_era_date) (use assms in simp_all)
      then show ?thesis using next_year d by (simp add: era_date_def month_day_ends algebra_simps)
    qed
  qed
qed

lemma civil_correct: "civil_from_days (int n) = date_after n"
proof (induction n)
  case 0
  show ?case by code_simp
next
  case (Suc n)
  then show ?case using civil_next [of "int n"] by (simp add: add.commute)
qed

lemma next_day_valid: "valid_date date \<Longrightarrow> valid_date (next_day date)"
  by (auto simp: valid_date_def next_day_def month_length_def split: prod.splits if_splits)

lemma date_after_valid: "valid_date (date_after n)"
  by (induction n) (simp_all add: next_day_valid, simp add: valid_date_def month_length_def)

text \<open>The timestamp of a plugin event is right for every instant a \<open>u64\<close> of nanoseconds can name:
the date is the day of the Gregorian calendar reached by counting from 1 January 1970, the time of day
is in range, and the two together give back the instant, to the millisecond.\<close>

theorem iso8601_correct:
  "\<exists>days h mi s ms. format_iso8601_ns ns = iso_text (date_after days) h mi s ms \<and>
     valid_date (date_after days) \<and> h < 24 \<and> mi < 60 \<and> s < 60 \<and> ms < 1000 \<and>
     unat ns div 1000000 = (((days * 24 + h) * 60 + mi) * 60 + s) * 1000 + ms"
proof -
  define N where "N = unat ns"
  define t where "t = N div 1000000000"
  define a where "a = t div 60"
  define b where "b = a div 60"
  define c where "c = b div 24"
  define ms where "ms = N mod 1000000000 div 1000000"
  have hours: "t div 3600 = b" "t div 86400 = c"
    using div_mult2_eq [of t 60 60] div_mult2_eq [of t 3600 24] by (simp_all add: a_def b_def c_def)
  have printed: "format_iso8601_ns ns = iso_text (date_after c) (b mod 24) (a mod 60) (t mod 60) ms"
    using hours by (simp add: format_iso8601_ns_def Let_def N_def t_def a_def ms_def flip: civil_correct)
  have ms: "N div 1000000 = t * 1000 + ms" "ms < 1000"
    using div_mult2_eq [of N 1000000 1000] mod_mult2_eq [of N 1000000 1000]
    by (simp_all add: t_def ms_def)
  have "t = a * 60 + t mod 60" "a = b * 60 + a mod 60" "b = c * 24 + b mod 24"
    unfolding a_def b_def c_def by (rule div_mult_mod_eq [symmetric])+
  moreover have "t = a * 60 + x \<Longrightarrow> a = b * 60 + y \<Longrightarrow> b = c * 24 + z \<Longrightarrow>
      t = ((c * 24 + z) * 60 + y) * 60 + x" for x y z by simp
  ultimately have "t = ((c * 24 + b mod 24) * 60 + a mod 60) * 60 + t mod 60" by blast
  with ms(1) have "unat ns div 1000000 =
      (((c * 24 + b mod 24) * 60 + a mod 60) * 60 + t mod 60) * 1000 + ms" by (simp add: N_def)
  moreover have "b mod 24 < 24" "a mod 60 < 60" "t mod 60 < 60" by simp_all
  ultimately show ?thesis using printed ms(2) date_after_valid by blast
qed

end
