(* ===== verification/Wire_Events.thy ===== *)
theory Wire_Events
  imports Wire_Format
begin

text \<open>
  The seven event structs of \<open>src/src/ipc/events.rs\<close>: for each its record (field order as in the
  source), its size, its reader and the image the driver writes. Every event starts with the
  common header. A signed field (\<open>timestamp: i64\<close>, \<open>exit_code: i32\<close>) is the word of its bits,
  read with \<open>sint\<close> where the source reads the number.
\<close>

record event_header =
  hdr_version :: u16
  hdr_type :: u16
  hdr_timestamp :: u64
  hdr_size :: u32
  hdr_drop_count :: u32
  hdr_trunc_count :: u32

definition size_of_header :: nat where
  "size_of_header = 2 + 2 + 8 + 4 + 4 + 4"

definition rd_header :: "event_header reader" where
  "rd_header bs =
     (let (a, bs) = rd_u16 bs; (b, bs) = rd_u16 bs; (c, bs) = rd_u64 bs; (d, bs) = rd_u32 bs;
          (e, bs) = rd_u32 bs; (f, bs) = rd_u32 bs
      in (\<lparr>hdr_version = a, hdr_type = b, hdr_timestamp = c, hdr_size = d,
           hdr_drop_count = e, hdr_trunc_count = f\<rparr>, bs))"

definition image_header :: "event_header \<Rightarrow> bytes" where
  "image_header h = wr_u16 (hdr_version h) @ wr_u16 (hdr_type h) @ wr_u64 (hdr_timestamp h)
     @ wr_u32 (hdr_size h) @ wr_u32 (hdr_drop_count h) @ wr_u32 (hdr_trunc_count h)"

lemma rd_image_header [wire_simps]: "rd_header (image_header h @ bs) = (h, bs)"
  by (simp add: rd_header_def image_header_def wire_simps)

lemma length_image_header [wire_simps]: "length (image_header h) = size_of_header"
  by (simp add: image_header_def wire_simps size_of_header_def)

section \<open>ProcessCreateEvent\<close>

record process_create_event =
  pc_header :: event_header
  pc_process_id :: u32
  pc_parent_process_id :: u32
  pc_creating_process_id :: u32
  pc_image_path :: "u16 list"
  pc_image_path_len :: u16
  pc_command_line :: "u16 list"
  pc_command_line_len :: u16
  pc_parent_image_path :: "u16 list"
  pc_parent_image_path_len :: u16
  pc_user_sid :: "u16 list"
  pc_user_sid_len :: u16
  pc_integrity_level :: u32

definition size_of_process_create :: nat where
  "size_of_process_create = size_of_header + 4 + 4 + 4 + 2 * IMAGE_PATH_MAX + 2 + 2 * COMMAND_LINE_MAX + 2 + 2 * IMAGE_PATH_MAX + 2 + 2 * USER_SID_MAX + 2 + 4"

definition rd_process_create :: "process_create_event reader" where
  "rd_process_create bs =
     (let (h, bs) = rd_header bs;
          (pc0, bs) = rd_u32 bs;
          (pc1, bs) = rd_u32 bs;
          (pc2, bs) = rd_u32 bs;
          (pc3, bs) = rd_units IMAGE_PATH_MAX bs;
          (pc4, bs) = rd_u16 bs;
          (pc5, bs) = rd_units COMMAND_LINE_MAX bs;
          (pc6, bs) = rd_u16 bs;
          (pc7, bs) = rd_units IMAGE_PATH_MAX bs;
          (pc8, bs) = rd_u16 bs;
          (pc9, bs) = rd_units USER_SID_MAX bs;
          (pc10, bs) = rd_u16 bs;
          (pc11, bs) = rd_u32 bs
      in (\<lparr>pc_header = h,
           pc_process_id = pc0,
           pc_parent_process_id = pc1,
           pc_creating_process_id = pc2,
           pc_image_path = pc3,
           pc_image_path_len = pc4,
           pc_command_line = pc5,
           pc_command_line_len = pc6,
           pc_parent_image_path = pc7,
           pc_parent_image_path_len = pc8,
           pc_user_sid = pc9,
           pc_user_sid_len = pc10,
           pc_integrity_level = pc11\<rparr>, bs))"

definition image_process_create :: "process_create_event \<Rightarrow> bytes" where
  "image_process_create e =
     image_header (pc_header e) @
     wr_u32 (pc_process_id e) @
     wr_u32 (pc_parent_process_id e) @
     wr_u32 (pc_creating_process_id e) @
     wr_units (pc_image_path e) @
     wr_u16 (pc_image_path_len e) @
     wr_units (pc_command_line e) @
     wr_u16 (pc_command_line_len e) @
     wr_units (pc_parent_image_path e) @
     wr_u16 (pc_parent_image_path_len e) @
     wr_units (pc_user_sid e) @
     wr_u16 (pc_user_sid_len e) @
     wr_u32 (pc_integrity_level e)"

definition wf_process_create :: "process_create_event \<Rightarrow> bool" where
  "wf_process_create e \<longleftrightarrow>
     length (pc_image_path e) = IMAGE_PATH_MAX \<and>
     length (pc_command_line e) = COMMAND_LINE_MAX \<and>
     length (pc_parent_image_path e) = IMAGE_PATH_MAX \<and>
     length (pc_user_sid e) = USER_SID_MAX"

lemma rd_image_process_create [wire_simps]:
  "wf_process_create e \<Longrightarrow> rd_process_create (image_process_create e @ bs) = (e, bs)"
  by (simp add: rd_process_create_def image_process_create_def wf_process_create_def wire_simps)

lemma length_image_process_create [wire_simps]:
  "wf_process_create e \<Longrightarrow> length (image_process_create e) = size_of_process_create"
  by (simp add: image_process_create_def wf_process_create_def wire_simps size_of_process_create_def)

section \<open>ProcessExitEvent\<close>

record process_exit_event =
  pe_header :: event_header
  pe_process_id :: u32
  pe_exit_code :: u32

definition size_of_process_exit :: nat where
  "size_of_process_exit = size_of_header + 4 + 4"

definition rd_process_exit :: "process_exit_event reader" where
  "rd_process_exit bs =
     (let (h, bs) = rd_header bs;
          (pe0, bs) = rd_u32 bs;
          (pe1, bs) = rd_u32 bs
      in (\<lparr>pe_header = h,
           pe_process_id = pe0,
           pe_exit_code = pe1\<rparr>, bs))"

definition image_process_exit :: "process_exit_event \<Rightarrow> bytes" where
  "image_process_exit e =
     image_header (pe_header e) @
     wr_u32 (pe_process_id e) @
     wr_u32 (pe_exit_code e)"

lemma rd_image_process_exit [wire_simps]: "rd_process_exit (image_process_exit e @ bs) = (e, bs)"
  by (simp add: rd_process_exit_def image_process_exit_def wire_simps)

lemma length_image_process_exit [wire_simps]: "length (image_process_exit e) = size_of_process_exit"
  by (simp add: image_process_exit_def wire_simps size_of_process_exit_def)

section \<open>ImageLoadEvent\<close>

record image_load_event =
  il_header :: event_header
  il_process_id :: u32
  il_image_base :: u64
  il_image_size :: u64
  il_image_path :: "u16 list"
  il_image_path_len :: u16

definition size_of_image_load :: nat where
  "size_of_image_load = size_of_header + 4 + 8 + 8 + 2 * IMAGE_PATH_MAX + 2"

definition rd_image_load :: "image_load_event reader" where
  "rd_image_load bs =
     (let (h, bs) = rd_header bs;
          (il0, bs) = rd_u32 bs;
          (il1, bs) = rd_u64 bs;
          (il2, bs) = rd_u64 bs;
          (il3, bs) = rd_units IMAGE_PATH_MAX bs;
          (il4, bs) = rd_u16 bs
      in (\<lparr>il_header = h,
           il_process_id = il0,
           il_image_base = il1,
           il_image_size = il2,
           il_image_path = il3,
           il_image_path_len = il4\<rparr>, bs))"

definition image_image_load :: "image_load_event \<Rightarrow> bytes" where
  "image_image_load e =
     image_header (il_header e) @
     wr_u32 (il_process_id e) @
     wr_u64 (il_image_base e) @
     wr_u64 (il_image_size e) @
     wr_units (il_image_path e) @
     wr_u16 (il_image_path_len e)"

definition wf_image_load :: "image_load_event \<Rightarrow> bool" where
  "wf_image_load e \<longleftrightarrow>
     length (il_image_path e) = IMAGE_PATH_MAX"

lemma rd_image_image_load [wire_simps]:
  "wf_image_load e \<Longrightarrow> rd_image_load (image_image_load e @ bs) = (e, bs)"
  by (simp add: rd_image_load_def image_image_load_def wf_image_load_def wire_simps)

lemma length_image_image_load [wire_simps]:
  "wf_image_load e \<Longrightarrow> length (image_image_load e) = size_of_image_load"
  by (simp add: image_image_load_def wf_image_load_def wire_simps size_of_image_load_def)

section \<open>RegistryEvent\<close>

record registry_event =
  rg_header :: event_header
  rg_process_id :: u32
  rg_operation :: u16
  rg_value_type :: u32
  rg_data_size :: u32
  rg_key_path :: "u16 list"
  rg_key_path_len :: u16
  rg_value_name :: "u16 list"
  rg_value_name_len :: u16
  rg_data_preview :: bytes
  rg_data_preview_len :: u16

definition size_of_registry :: nat where
  "size_of_registry = size_of_header + 4 + 2 + 4 + 4 + 2 * REGISTRY_KEY_PATH_MAX + 2 + 2 * REGISTRY_VALUE_NAME_MAX + 2 + REGISTRY_DATA_PREVIEW_MAX + 2"

definition rd_registry :: "registry_event reader" where
  "rd_registry bs =
     (let (h, bs) = rd_header bs;
          (rg0, bs) = rd_u32 bs;
          (rg1, bs) = rd_u16 bs;
          (rg2, bs) = rd_u32 bs;
          (rg3, bs) = rd_u32 bs;
          (rg4, bs) = rd_units REGISTRY_KEY_PATH_MAX bs;
          (rg5, bs) = rd_u16 bs;
          (rg6, bs) = rd_units REGISTRY_VALUE_NAME_MAX bs;
          (rg7, bs) = rd_u16 bs;
          (rg8, bs) = rd_bytes REGISTRY_DATA_PREVIEW_MAX bs;
          (rg9, bs) = rd_u16 bs
      in (\<lparr>rg_header = h,
           rg_process_id = rg0,
           rg_operation = rg1,
           rg_value_type = rg2,
           rg_data_size = rg3,
           rg_key_path = rg4,
           rg_key_path_len = rg5,
           rg_value_name = rg6,
           rg_value_name_len = rg7,
           rg_data_preview = rg8,
           rg_data_preview_len = rg9\<rparr>, bs))"

definition image_registry :: "registry_event \<Rightarrow> bytes" where
  "image_registry e =
     image_header (rg_header e) @
     wr_u32 (rg_process_id e) @
     wr_u16 (rg_operation e) @
     wr_u32 (rg_value_type e) @
     wr_u32 (rg_data_size e) @
     wr_units (rg_key_path e) @
     wr_u16 (rg_key_path_len e) @
     wr_units (rg_value_name e) @
     wr_u16 (rg_value_name_len e) @
     rg_data_preview e @
     wr_u16 (rg_data_preview_len e)"

definition wf_registry :: "registry_event \<Rightarrow> bool" where
  "wf_registry e \<longleftrightarrow>
     length (rg_key_path e) = REGISTRY_KEY_PATH_MAX \<and>
     length (rg_value_name e) = REGISTRY_VALUE_NAME_MAX \<and>
     length (rg_data_preview e) = REGISTRY_DATA_PREVIEW_MAX"

lemma rd_image_registry [wire_simps]:
  "wf_registry e \<Longrightarrow> rd_registry (image_registry e @ bs) = (e, bs)"
  by (simp add: rd_registry_def image_registry_def wf_registry_def wire_simps)

lemma length_image_registry [wire_simps]:
  "wf_registry e \<Longrightarrow> length (image_registry e) = size_of_registry"
  by (simp add: image_registry_def wf_registry_def wire_simps size_of_registry_def)

section \<open>ThreadCreateEvent\<close>

record thread_create_event =
  tc_header :: event_header
  tc_process_id :: u32
  tc_thread_id :: u32
  tc_creating_process_id :: u32

definition size_of_thread_create :: nat where
  "size_of_thread_create = size_of_header + 4 + 4 + 4"

definition rd_thread_create :: "thread_create_event reader" where
  "rd_thread_create bs =
     (let (h, bs) = rd_header bs;
          (tc0, bs) = rd_u32 bs;
          (tc1, bs) = rd_u32 bs;
          (tc2, bs) = rd_u32 bs
      in (\<lparr>tc_header = h,
           tc_process_id = tc0,
           tc_thread_id = tc1,
           tc_creating_process_id = tc2\<rparr>, bs))"

definition image_thread_create :: "thread_create_event \<Rightarrow> bytes" where
  "image_thread_create e =
     image_header (tc_header e) @
     wr_u32 (tc_process_id e) @
     wr_u32 (tc_thread_id e) @
     wr_u32 (tc_creating_process_id e)"

lemma rd_image_thread_create [wire_simps]: "rd_thread_create (image_thread_create e @ bs) = (e, bs)"
  by (simp add: rd_thread_create_def image_thread_create_def wire_simps)

lemma length_image_thread_create [wire_simps]: "length (image_thread_create e) = size_of_thread_create"
  by (simp add: image_thread_create_def wire_simps size_of_thread_create_def)

section \<open>ThreadExitEvent\<close>

record thread_exit_event =
  te_header :: event_header
  te_process_id :: u32
  te_thread_id :: u32

definition size_of_thread_exit :: nat where
  "size_of_thread_exit = size_of_header + 4 + 4"

definition rd_thread_exit :: "thread_exit_event reader" where
  "rd_thread_exit bs =
     (let (h, bs) = rd_header bs;
          (te0, bs) = rd_u32 bs;
          (te1, bs) = rd_u32 bs
      in (\<lparr>te_header = h,
           te_process_id = te0,
           te_thread_id = te1\<rparr>, bs))"

definition image_thread_exit :: "thread_exit_event \<Rightarrow> bytes" where
  "image_thread_exit e =
     image_header (te_header e) @
     wr_u32 (te_process_id e) @
     wr_u32 (te_thread_id e)"

lemma rd_image_thread_exit [wire_simps]: "rd_thread_exit (image_thread_exit e @ bs) = (e, bs)"
  by (simp add: rd_thread_exit_def image_thread_exit_def wire_simps)

lemma length_image_thread_exit [wire_simps]: "length (image_thread_exit e) = size_of_thread_exit"
  by (simp add: image_thread_exit_def wire_simps size_of_thread_exit_def)

section \<open>ProcessHandleAccessEvent\<close>

record handle_access_event =
  ha_header :: event_header
  ha_source_process_id :: u32
  ha_target_process_id :: u32
  ha_desired_access :: u32
  ha_original_desired_access :: u32
  ha_operation :: u16

definition size_of_handle_access :: nat where
  "size_of_handle_access = size_of_header + 4 + 4 + 4 + 4 + 2"

definition rd_handle_access :: "handle_access_event reader" where
  "rd_handle_access bs =
     (let (h, bs) = rd_header bs;
          (ha0, bs) = rd_u32 bs;
          (ha1, bs) = rd_u32 bs;
          (ha2, bs) = rd_u32 bs;
          (ha3, bs) = rd_u32 bs;
          (ha4, bs) = rd_u16 bs
      in (\<lparr>ha_header = h,
           ha_source_process_id = ha0,
           ha_target_process_id = ha1,
           ha_desired_access = ha2,
           ha_original_desired_access = ha3,
           ha_operation = ha4\<rparr>, bs))"

definition image_handle_access :: "handle_access_event \<Rightarrow> bytes" where
  "image_handle_access e =
     image_header (ha_header e) @
     wr_u32 (ha_source_process_id e) @
     wr_u32 (ha_target_process_id e) @
     wr_u32 (ha_desired_access e) @
     wr_u32 (ha_original_desired_access e) @
     wr_u16 (ha_operation e)"

lemma rd_image_handle_access [wire_simps]: "rd_handle_access (image_handle_access e @ bs) = (e, bs)"
  by (simp add: rd_handle_access_def image_handle_access_def wire_simps)

lemma length_image_handle_access [wire_simps]: "length (image_handle_access e) = size_of_handle_access"
  by (simp add: image_handle_access_def wire_simps size_of_handle_access_def)

section \<open>Guarded reads\<close>

text \<open>
  The sizes the source asserts at compile time, and those of the other structs.
\<close>

lemma wire_sizes:
  "size_of_header = 24" "size_of_process_create = 10672" "size_of_process_exit = 32"
  "size_of_image_load = 1070" "size_of_registry = 1580" "size_of_thread_create = 36"
  "size_of_thread_exit = 32" "size_of_handle_access = 42"
  by (simp_all add: size_of_header_def size_of_process_create_def size_of_process_exit_def
      size_of_image_load_def size_of_registry_def size_of_thread_create_def size_of_thread_exit_def
      size_of_handle_access_def wire_max_defs)

definition read_unaligned :: "nat \<Rightarrow> 'a reader \<Rightarrow> bytes \<Rightarrow> 'a outcome" where
  "read_unaligned sz r buf = (if length buf < sz then Undefined else Ok (fst (r buf)))"

text \<open>\<open>read_packed\<close> of \<open>ipc/json.rs\<close> and \<open>read_packed_event\<close> of \<open>ipc/parser.rs\<close> (the same code twice).\<close>

definition read_packed :: "nat \<Rightarrow> 'a reader \<Rightarrow> bytes \<Rightarrow> u32 \<Rightarrow> str \<Rightarrow> 'a outcome" where
  "read_packed sz r buf header_size name =
     (if unat header_size < sz
      then Err (name @ '' too small: size='' @ dec (unat header_size) @ '', expected '' @ dec sz)
      else read_unaligned sz r buf)"

lemma read_unaligned_image [wire_simps]:
  "length img = sz \<Longrightarrow> r (img @ bs) = (e, bs) \<Longrightarrow> read_unaligned sz r (img @ bs) = Ok e"
  by (simp add: read_unaligned_def)

lemma read_packed_returns [outcome_simps]:
  "unat header_size \<le> length buf \<Longrightarrow> returns (read_packed sz r buf header_size name)"
  by (simp add: read_packed_def read_unaligned_def)

lemma read_packed_OkD:
  "read_packed sz r buf header_size name = Ok e \<Longrightarrow>
     sz \<le> unat header_size \<and> sz \<le> length buf \<and> e = fst (r buf)"
  by (auto simp: read_packed_def read_unaligned_def split: if_splits)

end
