(* ===== verification/Platform.thy ===== *)
theory Platform
  imports Json_Value
begin

text \<open>
  What the agent asks of Windows: the calendar (\<open>src/src/util/time.rs\<close>) and the user-mode
  enrichment of kernel events (\<open>src/src/enrich.rs\<close>). The Win32 calls are fields of a \<open>platform\<close>
  record, so every definition that depends on one says so; the formatting and the SID cache around
  them are the agent's.
\<close>

record system_time =
  wYear :: u16
  wMonth :: u16
  wDay :: u16
  wHour :: u16
  wMinute :: u16
  wSecond :: u16
  wMilliseconds :: u16

record platform =
  FileTimeToSystemTime :: "u64 \<Rightarrow> system_time option"
  resolve_user_of :: "str \<Rightarrow> (str \<times> str) option"
  query_session_id :: "u32 \<Rightarrow> u32 option"
  query_elevation :: "u32 \<Rightarrow> bool option"
  as_f64 :: "int \<Rightarrow> f64"
  serde_to_vec :: "json \<Rightarrow> bytes outcome"

text \<open>Every platform has a session and an elevation answer per PID; the agent asks for none of PID 0.\<close>

definition session_id_for_pid :: "platform \<Rightarrow> u32 \<Rightarrow> u32 option" where
  "session_id_for_pid p pid = (if pid = 0 then None else query_session_id p pid)"

definition is_elevated_for_pid :: "platform \<Rightarrow> u32 \<Rightarrow> bool option" where
  "is_elevated_for_pid p pid = (if pid = 0 then None else query_elevation p pid)"

definition format_system_time :: "system_time \<Rightarrow> str" where
  "format_system_time st =
     pad0 4 (dec (unat (wYear st))) @ ''-'' @ pad0 2 (dec (unat (wMonth st))) @ ''-'' @
     pad0 2 (dec (unat (wDay st))) @ ''T'' @ pad0 2 (dec (unat (wHour st))) @ '':'' @
     pad0 2 (dec (unat (wMinute st))) @ '':'' @ pad0 2 (dec (unat (wSecond st))) @ ''.'' @
     pad0 3 (dec (unat (wMilliseconds st))) @ ''Z''"

definition format_timestamp :: "platform \<Rightarrow> u64 \<Rightarrow> str" where
  "format_timestamp p ft =
     (case FileTimeToSystemTime p ft of
        None \<Rightarrow> ''ft='' @ dec_int (sint ft)
      | Some st \<Rightarrow> format_system_time st)"

section \<open>The SID cache\<close>

definition USER_CACHE_MAX :: nat where "USER_CACHE_MAX = 4096"

type_synonym user_cache = "(str \<times> (str \<times> str) option) list"

text \<open>
  \<open>resolve_user\<close>: an answer, negative ones included, is kept for the next event; the cache is
  emptied when it has grown past its bound, before the new answer goes in.
\<close>

definition resolve_user ::
    "(str \<Rightarrow> (str \<times> str) option) \<Rightarrow> user_cache \<Rightarrow> str \<Rightarrow> (str \<times> str) option \<times> user_cache" where
  "resolve_user lookup_sid cache sid =
     (if sid = [] then (None, cache)
      else case map_of cache sid of
        Some slot \<Rightarrow> (slot, cache)
      | None \<Rightarrow>
          let result = lookup_sid sid;
              cache = (if length cache > USER_CACHE_MAX then [] else cache)
          in (result, put sid result cache))"

definition cache_coherent :: "(str \<Rightarrow> (str \<times> str) option) \<Rightarrow> user_cache \<Rightarrow> bool" where
  "cache_coherent lookup_sid cache \<longleftrightarrow>
     (\<forall>sid r. map_of cache sid = Some r \<longrightarrow> r = lookup_sid sid)"

fun resolve_users ::
    "(str \<Rightarrow> (str \<times> str) option) \<Rightarrow> user_cache \<Rightarrow> str list \<Rightarrow> (str \<times> str) option list \<times> user_cache"
where
  "resolve_users l c [] = ([], c)"
| "resolve_users l c (s # ss) =
     (let (r, c) = resolve_user l c s; (rs, c) = resolve_users l c ss in (r # rs, c))"

lemma resolve_user_coherent:
  assumes "cache_coherent l c"
  shows "cache_coherent l (snd (resolve_user l c sid))"
    and "fst (resolve_user l c sid) = (if sid = [] then None else l sid)"
  using assms
  by (auto simp: resolve_user_def cache_coherent_def Let_def split: option.splits if_splits)

lemma resolve_user_bound:
  assumes "length c \<le> Suc USER_CACHE_MAX"
  shows "length (snd (resolve_user l c sid)) \<le> Suc USER_CACHE_MAX"
  using assms by (auto simp: resolve_user_def Let_def length_put split: option.splits)

text \<open>Over any sequence of lookups, the cached resolver answers exactly what the system lookup
answers for each SID (nothing for the empty one), whatever the cache held of earlier answers, and
the cache never holds more than one entry above its bound.\<close>

theorem resolve_users_correct:
  assumes "cache_coherent l c" and "length c \<le> Suc USER_CACHE_MAX"
  shows "fst (resolve_users l c sids) = map (\<lambda>s. if s = [] then None else l s) sids
     \<and> length (snd (resolve_users l c sids)) \<le> Suc USER_CACHE_MAX"
  using assms
proof (induction sids arbitrary: c)
  case (Cons s ss)
  define c' where "c' = snd (resolve_user l c s)"
  have "cache_coherent l c'" and "length c' \<le> Suc USER_CACHE_MAX"
    using Cons.prems by (auto simp: c'_def intro: resolve_user_coherent(1) resolve_user_bound)
  from Cons.IH [OF this] show ?case
    using resolve_user_coherent(2) [OF Cons.prems(1), of s]
    by (simp add: case_prod_unfold Let_def c'_def)
qed simp

theorem resolve_users_correct_witness:
  "fst (resolve_users (\<lambda>s. if s = ''S-1-5-18'' then Some (''SYSTEM'', ''NT AUTHORITY'') else None) []
      [''S-1-5-18'', ''S-1-5-99'', ''S-1-5-18''])
   = [Some (''SYSTEM'', ''NT AUTHORITY''), None, Some (''SYSTEM'', ''NT AUTHORITY'')]"
  using resolve_users_correct
    [of "\<lambda>s. if s = ''S-1-5-18'' then Some (''SYSTEM'', ''NT AUTHORITY'') else None" "[]"
        "[''S-1-5-18'', ''S-1-5-99'', ''S-1-5-18'']"]
  by (simp add: cache_coherent_def)

end
