(* ===== verification/Emission_Filter.thy ===== *)
theory Emission_Filter
  imports Prelude
begin

text \<open>
  The emission allow-list of \<open>src/src/filter.rs\<close>: the section of the configuration, the
  filter built from it, the process-wide cell that holds it (a \<open>OnceLock\<close>, an option that is set
  at most once) and the check each emitter calls.
\<close>

record filter_section =
  sec_modules :: "str list"
  sec_event_types :: "str list"

text \<open>The two \<open>HashSet\<close>s of the source are sets.\<close>

record event_filter =
  flt_modules :: "str set"
  flt_event_types :: "str set"

definition from_section :: "filter_section \<Rightarrow> event_filter" where
  "from_section s = \<lparr>flt_modules = set (sec_modules s), flt_event_types = set (sec_event_types s)\<rparr>"

definition filter_allows :: "event_filter \<Rightarrow> str \<Rightarrow> str \<Rightarrow> bool" where
  "filter_allows f m t =
     (if flt_modules f \<noteq> {} \<and> m \<notin> flt_modules f then False
      else if flt_event_types f \<noteq> {} \<and> t \<notin> flt_event_types f then False
      else True)"

definition is_active :: "event_filter \<Rightarrow> bool" where
  "is_active f \<longleftrightarrow> flt_modules f \<noteq> {} \<or> flt_event_types f \<noteq> {}"

definition default_section :: filter_section where
  "default_section = \<lparr>sec_modules = [], sec_event_types = []\<rparr>"

text \<open>\<open>init\<close>: \<open>OnceLock::set\<close> fails silently when the cell is already full.\<close>

definition filter_init :: "filter_section option \<Rightarrow> event_filter option \<Rightarrow> event_filter option" where
  "filter_init sec cell =
     (let f = from_section (case sec of Some s \<Rightarrow> s | None \<Rightarrow> default_section)
      in case cell of None \<Rightarrow> Some f | Some g \<Rightarrow> Some g)"

definition allows :: "event_filter option \<Rightarrow> str \<Rightarrow> str \<Rightarrow> bool" where
  "allows cell m t = (case cell of None \<Rightarrow> True | Some f \<Rightarrow> filter_allows f m t)"

lemma filter_allows_iff:
  "filter_allows f m t \<longleftrightarrow>
     (flt_modules f = {} \<or> m \<in> flt_modules f) \<and> (flt_event_types f = {} \<or> t \<in> flt_event_types f)"
  by (simp add: filter_allows_def)

lemma inactive_allows: "\<not> is_active f \<Longrightarrow> filter_allows f m t"
  by (simp add: is_active_def filter_allows_def)

lemma filter_init_idem: "filter_init s' (filter_init s cell) = filter_init s cell"
  by (simp add: filter_init_def Let_def split: option.splits)

end
