(* ===== verification/Kernel_Json.thy ===== *)
theory Kernel_Json
  imports Wire_Events Platform Emission_Filter
begin

text \<open>
  \<open>src/src/ipc/json.rs\<close>: a raw kernel event becomes, from one parse, an NDJSON line for the spool
  and a \<open>LogEvent\<close> for detection. One definition per encoder, in the source's order; the payloads
  are JSON objects with the entries the source inserts, under the same conditions.
\<close>

section \<open>Helpers\<close>

definition basename :: "str \<Rightarrow> str option" where
  "basename path =
     (if list_ex is_separator path
      then let name = rev (takeWhile (\<lambda>c. \<not> is_separator c) (rev path))
           in if name = [] then None else Some name
      else None)"

definition decode_path :: "nat \<Rightarrow> u16 list \<Rightarrow> u16 \<Rightarrow> str" where
  "decode_path N arr len =
     (if unat len = 0 \<or> N < unat len then [] else from_utf16_lossy (take (unat len) arr))"

definition jnum :: "('a::len) word \<Rightarrow> json" where
  "jnum w = JInt (uint w)"

section \<open>Payload encoders\<close>

definition integrity_label_str :: "u32 \<Rightarrow> str" where
  "integrity_label_str rid =
     (if rid = 0x0000 then ''untrusted'' else if rid = 0x1000 then ''low''
      else if rid = 0x2000 then ''medium'' else if rid = 0x2100 then ''medium_plus''
      else if rid = 0x3000 then ''high'' else if rid = 0x4000 then ''system''
      else if rid = 0x5000 then ''protected'' else ''unknown'')"

text \<open>An entry that is inserted only when it has something to say.\<close>

definition put_nonempty :: "str \<Rightarrow> str \<Rightarrow> (str \<times> json) list \<Rightarrow> (str \<times> json) list" where
  "put_nonempty k s obj = (if s = [] then obj else put k (JStr s) obj)"

definition put_option :: "str \<Rightarrow> json option \<Rightarrow> (str \<times> json) list \<Rightarrow> (str \<times> json) list" where
  "put_option k v obj = (case v of Some j \<Rightarrow> put k j obj | None \<Rightarrow> obj)"

definition put_user :: "platform \<Rightarrow> str \<Rightarrow> (str \<times> json) list \<Rightarrow> (str \<times> json) list" where
  "put_user p sid obj =
     (if sid = [] then obj
      else let obj = put ''user_sid'' (JStr sid) obj in
        case resolve_user_of p sid of
          None \<Rightarrow> obj
        | Some (account, domain) \<Rightarrow>
            put ''user_full''
              (JStr (if domain = [] then account else domain @ [CHR 0x5C] @ account))
              (put ''user_domain'' (JStr domain) (put ''user'' (JStr account) obj)))"

definition process_create_payload :: "platform \<Rightarrow> process_create_event \<Rightarrow> json" where
  "process_create_payload p evt =
     (let pid = pc_process_id evt;
          image_path = decode_path IMAGE_PATH_MAX (pc_image_path evt) (pc_image_path_len evt);
          command_line = decode_path COMMAND_LINE_MAX (pc_command_line evt) (pc_command_line_len evt);
          parent_image_path =
            decode_path IMAGE_PATH_MAX (pc_parent_image_path evt) (pc_parent_image_path_len evt);
          user_sid = decode_path USER_SID_MAX (pc_user_sid evt) (pc_user_sid_len evt);
          parent_image_name =
            (if parent_image_path = [] then []
             else case basename parent_image_path of Some n \<Rightarrow> n | None \<Rightarrow> []);
          obj = [(''pid'', jnum pid), (''parent_pid'', jnum (pc_parent_process_id evt)),
                 (''creating_pid'', jnum (pc_creating_process_id evt)),
                 (''image_path'', JStr image_path)];
          obj = put_nonempty ''command_line'' command_line obj;
          obj = put_nonempty ''parent_image_path'' parent_image_path obj;
          obj = put_nonempty ''parent_image_name'' parent_image_name obj;
          obj = put_user p user_sid obj;
          il = pc_integrity_level evt;
          obj = (if il \<noteq> 0xFFFFFFFF
                 then put ''integrity_label'' (JStr (integrity_label_str il))
                        (put ''integrity_level'' (jnum il) obj)
                 else obj);
          obj = put_option ''session_id'' (map_option jnum (session_id_for_pid p pid)) obj;
          obj = put_option ''elevated'' (map_option JBool (is_elevated_for_pid p pid)) obj
      in JObj obj)"

definition encode_process_create :: "platform \<Rightarrow> bytes \<Rightarrow> u32 \<Rightarrow> json outcome" where
  "encode_process_create p buf h_size =
     map_ok (process_create_payload p)
       (read_packed size_of_process_create rd_process_create buf h_size ''ProcessCreate'')"

definition process_exit_payload :: "process_exit_event \<Rightarrow> json" where
  "process_exit_payload evt =
     JObj [(''pid'', jnum (pe_process_id evt)), (''exit_code'', JInt (sint (pe_exit_code evt))),
           (''clean_exit'', JBool (pe_exit_code evt = 0))]"

definition encode_process_exit :: "bytes \<Rightarrow> u32 \<Rightarrow> json outcome" where
  "encode_process_exit buf h_size =
     map_ok process_exit_payload
       (read_packed size_of_process_exit rd_process_exit buf h_size ''ProcessExit'')"

definition image_load_payload :: "image_load_event \<Rightarrow> json" where
  "image_load_payload evt =
     (let pid = il_process_id evt in
      JObj [(''pid'', jnum pid), (''scope'', JStr (if pid = 0 then ''kernel'' else ''user'')),
            (''image_base'', jnum (il_image_base evt)), (''image_size'', jnum (il_image_size evt)),
            (''image_path'',
               JStr (decode_path IMAGE_PATH_MAX (il_image_path evt) (il_image_path_len evt)))])"

definition encode_image_load :: "bytes \<Rightarrow> u32 \<Rightarrow> json outcome" where
  "encode_image_load buf h_size =
     map_ok image_load_payload
       (read_packed size_of_image_load rd_image_load buf h_size ''ImageLoad'')"

definition registry_op_name :: "u16 \<Rightarrow> str" where
  "registry_op_name op =
     (if op = REGISTRY_OP_SET_VALUE then ''SetValue''
      else if op = REGISTRY_OP_DELETE_VALUE then ''DeleteValue''
      else if op = REGISTRY_OP_DELETE_KEY then ''DeleteKey''
      else if op = REGISTRY_OP_RENAME_KEY then ''RenameKey''
      else if op = REGISTRY_OP_CREATE_KEY then ''CreateKey'' else ''Unknown'')"

definition registry_payload :: "registry_event \<Rightarrow> json" where
  "registry_payload evt =
     (let op = rg_operation evt;
          prev_len = unat (rg_data_preview_len evt);
          key_path = decode_path REGISTRY_KEY_PATH_MAX (rg_key_path evt) (rg_key_path_len evt);
          value_name =
            (if unat (rg_value_name_len evt) = 0 then []
             else decode_path REGISTRY_VALUE_NAME_MAX (rg_value_name evt) (rg_value_name_len evt));
          obj = [(''pid'', jnum (rg_process_id evt)), (''op'', JStr (registry_op_name op)),
                 (''op_code'', jnum op), (''key_path'', JStr key_path)];
          obj = put_nonempty ''value_name'' value_name obj;
          obj = (if op = REGISTRY_OP_SET_VALUE
                 then let take_n = min prev_len REGISTRY_DATA_PREVIEW_MAX;
                          hex_str = concat (map hex_byte (take take_n (rg_data_preview evt)))
                      in put ''data_truncated'' (JBool (prev_len < unat (rg_data_size evt)))
                           (put ''data_preview_hex'' (JStr hex_str)
                             (put ''data_size'' (jnum (rg_data_size evt))
                               (put ''value_type'' (jnum (rg_value_type evt)) obj)))
                 else obj)
      in JObj obj)"

definition encode_registry :: "bytes \<Rightarrow> u32 \<Rightarrow> json outcome" where
  "encode_registry buf h_size =
     map_ok registry_payload
       (read_packed size_of_registry rd_registry buf h_size ''RegistryModify'')"

definition thread_create_payload :: "thread_create_event \<Rightarrow> json" where
  "thread_create_payload evt =
     (let pid = tc_process_id evt; creator = tc_creating_process_id evt in
      JObj [(''pid'', jnum pid), (''tid'', jnum (tc_thread_id evt)),
            (''creating_pid'', jnum creator),
            (''remote_injection'', JBool (creator \<noteq> pid \<and> creator \<noteq> 0))])"

definition encode_thread_create :: "bytes \<Rightarrow> u32 \<Rightarrow> json outcome" where
  "encode_thread_create buf h_size =
     map_ok thread_create_payload
       (read_packed size_of_thread_create rd_thread_create buf h_size ''ThreadCreate'')"

definition thread_exit_payload :: "thread_exit_event \<Rightarrow> json" where
  "thread_exit_payload evt =
     JObj [(''pid'', jnum (te_process_id evt)), (''tid'', jnum (te_thread_id evt))]"

definition encode_thread_exit :: "bytes \<Rightarrow> u32 \<Rightarrow> json outcome" where
  "encode_thread_exit buf h_size =
     map_ok thread_exit_payload
       (read_packed size_of_thread_exit rd_thread_exit buf h_size ''ThreadExit'')"

definition handle_access_payload :: "handle_access_event \<Rightarrow> json" where
  "handle_access_payload evt =
     (let src = ha_source_process_id evt; op = ha_operation evt in
      JObj [(''pid'', jnum src), (''source_pid'', jnum src),
            (''target_pid'', jnum (ha_target_process_id evt)),
            (''desired_access'', jnum (ha_desired_access evt)),
            (''original_desired_access'', jnum (ha_original_desired_access evt)),
            (''op'', JStr (if op = HANDLE_ACCESS_OP_CREATE then ''Open''
                           else if op = HANDLE_ACCESS_OP_DUPLICATE then ''Duplicate''
                           else ''Unknown'')),
            (''op_code'', jnum op)])"

definition encode_handle_access :: "bytes \<Rightarrow> u32 \<Rightarrow> json outcome" where
  "encode_handle_access buf h_size =
     map_ok handle_access_payload
       (read_packed size_of_handle_access rd_handle_access buf h_size ''ProcessHandleAccess'')"

lemmas encode_defs =
  encode_process_create_def encode_process_exit_def encode_image_load_def encode_registry_def
  encode_thread_create_def encode_thread_exit_def encode_handle_access_def

end
