(* ===== verification/Kernel_Decode.thy ===== *)
theory Kernel_Decode
  imports Kernel_Json
begin

text \<open>
  The second half of \<open>src/src/ipc/json.rs\<close>: the single parse of a kernel event, the envelope the
  server receives, the event the rules see, and the two entry points of the pump. The bytes of a
  document are the platform's \<open>serde_to_vec\<close>.
\<close>

section \<open>The process block\<close>

record process_slim =
  ps_pid :: u32
  ps_ppid :: "u32 option"
  ps_name :: "str option"
  ps_path :: "str option"
  ps_command_line :: "str option"
  ps_user :: "str option"
  ps_user_sid :: "str option"
  ps_user_domain :: "str option"
  ps_integrity_label :: "str option"
  ps_session_id :: "u32 option"
  ps_elevated :: "bool option"

definition as_u32 :: "nat \<Rightarrow> u32" where
  "as_u32 n = of_nat n"

definition extract_process :: "json \<Rightarrow> process_slim option" where
  "extract_process payload =
     (case get_u64 ''pid'' payload of
        None \<Rightarrow> None
      | Some n \<Rightarrow>
          let pid = as_u32 n in
          if pid = 0 then None
          else
            let ppid = map_option as_u32 (get_u64 ''parent_pid'' payload);
                path = get_nonempty ''image_path'' payload;
                name = Option.bind path basename;
                command_line = get_nonempty ''command_line'' payload;
                user_sid = get_nonempty ''user_sid'' payload;
                user_full = get_nonempty ''user_full'' payload;
                user = (case user_full of Some u \<Rightarrow> Some u | None \<Rightarrow> user_sid);
                user_domain = get_nonempty ''user_domain'' payload;
                integrity_label = get_nonempty ''integrity_label'' payload;
                session_id = map_option as_u32 (get_u64 ''session_id'' payload);
                elevated = get_bool ''elevated'' payload
            in Some \<lparr>ps_pid = pid, ps_ppid = ppid, ps_name = name, ps_path = path,
                     ps_command_line = command_line, ps_user = user, ps_user_sid = user_sid,
                     ps_user_domain = user_domain, ps_integrity_label = integrity_label,
                     ps_session_id = session_id, ps_elevated = elevated\<rparr>)"

text \<open>\<open>skip_serializing_if = "Option::is_none"\<close>, for the two structs that use it.\<close>

fun skip_none :: "(str \<times> json option) list \<Rightarrow> (str \<times> json) list" where
  "skip_none [] = []"
| "skip_none ((k, None) # es) = skip_none es"
| "skip_none ((k, Some v) # es) = (k, v) # skip_none es"

definition process_slim_json :: "process_slim \<Rightarrow> json" where
  "process_slim_json ps =
     JObj (skip_none
       [(''pid'', Some (jnum (ps_pid ps))), (''ppid'', map_option jnum (ps_ppid ps)),
        (''name'', map_option JStr (ps_name ps)), (''path'', map_option JStr (ps_path ps)),
        (''command_line'', map_option JStr (ps_command_line ps)),
        (''user'', map_option JStr (ps_user ps)), (''user_sid'', map_option JStr (ps_user_sid ps)),
        (''user_domain'', map_option JStr (ps_user_domain ps)),
        (''integrity_label'', map_option JStr (ps_integrity_label ps)),
        (''session_id'', map_option jnum (ps_session_id ps)),
        (''elevated'', map_option JBool (ps_elevated ps))])"

section \<open>Decoding\<close>

record decoded_kernel =
  dk_kind :: str
  dk_event_type :: str
  dk_payload :: json
  dk_ts :: str
  dk_ts_ft_100ns :: u64
  dk_version :: u16
  dk_drop_count :: u32
  dk_trunc_count :: u32

definition decode_payload :: "platform \<Rightarrow> bytes \<Rightarrow> event_header \<Rightarrow> (str \<times> str \<times> json) outcome" where
  "decode_payload p buf header =
     (let h_type = hdr_type header; h_size = hdr_size header;
          tag = (\<lambda>kind event_type payload. (kind, event_type, payload)) in
      if h_type = EVENT_TYPE_PROCESS_CREATE then
        map_ok (tag ''ProcessCreate'' ''process_create'') (encode_process_create p buf h_size)
      else if h_type = EVENT_TYPE_PROCESS_EXIT then
        map_ok (tag ''ProcessExit'' ''process_terminate'') (encode_process_exit buf h_size)
      else if h_type = EVENT_TYPE_IMAGE_LOAD then
        map_ok (tag ''ImageLoad'' ''module_load'') (encode_image_load buf h_size)
      else if h_type = EVENT_TYPE_REGISTRY_MODIFY then
        map_ok (tag ''RegistryModify'' ''registry_write'') (encode_registry buf h_size)
      else if h_type = EVENT_TYPE_THREAD_CREATE then
        map_ok (tag ''ThreadCreate'' ''thread_create'') (encode_thread_create buf h_size)
      else if h_type = EVENT_TYPE_THREAD_EXIT then
        map_ok (tag ''ThreadExit'' ''thread_exit'') (encode_thread_exit buf h_size)
      else if h_type = EVENT_TYPE_PROCESS_HANDLE_ACCESS then
        map_ok (tag ''ProcessHandleAccess'' ''process_handle_access'') (encode_handle_access buf h_size)
      else Ok (tag ''Unknown'' ''process_create''
                 (JObj [(''type'', jnum h_type), (''size'', jnum h_size)])))"

definition decode_kernel_event :: "platform \<Rightarrow> bytes \<Rightarrow> decoded_kernel outcome" where
  "decode_kernel_event p buf =
     (if length buf < size_of_header
      then Err (''event too short: '' @ dec (length buf) @ '' bytes, expected at least ''
                @ dec size_of_header)
      else and_then (read_unaligned size_of_header rd_header buf) (\<lambda>header.
        if hdr_version header \<noteq> EVENT_VERSION
        then Err (''unknown event version '' @ dec (unat (hdr_version header)))
        else if length buf < unat (hdr_size header)
        then Err (''header.size='' @ dec (unat (hdr_size header)) @ '' exceeds delivered ''
                  @ dec (length buf))
        else map_ok (\<lambda>(kind, event_type, payload).
               \<lparr>dk_kind = kind, dk_event_type = event_type, dk_payload = payload,
                dk_ts = format_timestamp p (hdr_timestamp header),
                dk_ts_ft_100ns = hdr_timestamp header, dk_version = hdr_version header,
                dk_drop_count = hdr_drop_count header, dk_trunc_count = hdr_trunc_count header\<rparr>)
             (decode_payload p buf header)))"

section \<open>The envelope and the two entry points\<close>

definition kernel_envelope :: "decoded_kernel \<Rightarrow> json" where
  "kernel_envelope d =
     JObj (skip_none
       [(''ts'', Some (JStr (dk_ts d))), (''module'', Some (JStr ''kernel_callback'')),
        (''event_type'', Some (JStr (dk_event_type d))),
        (''process'', map_option process_slim_json (extract_process (dk_payload d))),
        (''raw'', Some (dk_payload d)), (''ts_ft_100ns'', Some (JInt (sint (dk_ts_ft_100ns d)))),
        (''source'', Some (JStr ''kernel'')), (''kind'', Some (JStr (dk_kind d))),
        (''event_version'', Some (jnum (dk_version d))),
        (''drop_count'', if dk_drop_count d = 0 then None else Some (jnum (dk_drop_count d))),
        (''trunc_count'', if dk_trunc_count d = 0 then None else Some (jnum (dk_trunc_count d)))])"

definition newline :: u8 where "newline = 10"

definition encode_decoded :: "platform \<Rightarrow> decoded_kernel \<Rightarrow> bytes outcome" where
  "encode_decoded p d =
     map_ok (\<lambda>out. out @ [newline])
       (map_err ''serialize: '' (serde_to_vec p (kernel_envelope d)))"

definition decoded_to_log_event :: "platform \<Rightarrow> millis \<Rightarrow> decoded_kernel \<Rightarrow> log_event" where
  "decoded_to_log_event p now d =
     \<lparr>le_module = ''kernel_callback'', le_event_type = dk_event_type d,
      le_fields = (case as_object (dk_payload d) of
                     Some obj \<Rightarrow> flatten_fields (as_f64 p) obj | None \<Rightarrow> []),
      le_timestamp = now\<rparr>"

definition encode_kernel_event ::
    "platform \<Rightarrow> event_filter option \<Rightarrow> bytes \<Rightarrow> bytes option outcome" where
  "encode_kernel_event p cell buf =
     and_then (decode_kernel_event p buf) (\<lambda>d.
       if \<not> allows cell ''kernel_callback'' (dk_event_type d) then Ok None
       else map_ok Some (encode_decoded p d))"

definition encode_kernel_event_and_log ::
    "platform \<Rightarrow> millis \<Rightarrow> bytes \<Rightarrow> (bytes \<times> log_event) outcome" where
  "encode_kernel_event_and_log p now buf =
     and_then (decode_kernel_event p buf) (\<lambda>d.
       map_ok (\<lambda>line. (line, decoded_to_log_event p now d)) (encode_decoded p d))"


section \<open>What the driver writes\<close>

text \<open>
  An event of the driver, its bytes, and the conditions under which the driver's header describes
  it. Trailing bytes after the struct are allowed, as in the source.
\<close>

datatype driver_event =
    ProcessCreate process_create_event
  | ProcessExit process_exit_event
  | ImageLoad image_load_event
  | RegistryModify registry_event
  | ThreadCreate thread_create_event
  | ThreadExit thread_exit_event
  | ProcessHandleAccess handle_access_event

fun driver_image :: "driver_event \<Rightarrow> bytes" where
  "driver_image (ProcessCreate e) = image_process_create e"
| "driver_image (ProcessExit e) = image_process_exit e"
| "driver_image (ImageLoad e) = image_image_load e"
| "driver_image (RegistryModify e) = image_registry e"
| "driver_image (ThreadCreate e) = image_thread_create e"
| "driver_image (ThreadExit e) = image_thread_exit e"
| "driver_image (ProcessHandleAccess e) = image_handle_access e"

fun driver_header :: "driver_event \<Rightarrow> event_header" where
  "driver_header (ProcessCreate e) = pc_header e"
| "driver_header (ProcessExit e) = pe_header e"
| "driver_header (ImageLoad e) = il_header e"
| "driver_header (RegistryModify e) = rg_header e"
| "driver_header (ThreadCreate e) = tc_header e"
| "driver_header (ThreadExit e) = te_header e"
| "driver_header (ProcessHandleAccess e) = ha_header e"

fun driver_arrays_ok :: "driver_event \<Rightarrow> bool" where
  "driver_arrays_ok (ProcessCreate e) = wf_process_create e"
| "driver_arrays_ok (ImageLoad e) = wf_image_load e"
| "driver_arrays_ok (RegistryModify e) = wf_registry e"
| "driver_arrays_ok _ = True"

fun driver_type :: "driver_event \<Rightarrow> u16" where
  "driver_type (ProcessCreate e) = EVENT_TYPE_PROCESS_CREATE"
| "driver_type (ProcessExit e) = EVENT_TYPE_PROCESS_EXIT"
| "driver_type (ImageLoad e) = EVENT_TYPE_IMAGE_LOAD"
| "driver_type (RegistryModify e) = EVENT_TYPE_REGISTRY_MODIFY"
| "driver_type (ThreadCreate e) = EVENT_TYPE_THREAD_CREATE"
| "driver_type (ThreadExit e) = EVENT_TYPE_THREAD_EXIT"
| "driver_type (ProcessHandleAccess e) = EVENT_TYPE_PROCESS_HANDLE_ACCESS"

fun driver_kind :: "driver_event \<Rightarrow> str \<times> str" where
  "driver_kind (ProcessCreate e) = (''ProcessCreate'', ''process_create'')"
| "driver_kind (ProcessExit e) = (''ProcessExit'', ''process_terminate'')"
| "driver_kind (ImageLoad e) = (''ImageLoad'', ''module_load'')"
| "driver_kind (RegistryModify e) = (''RegistryModify'', ''registry_write'')"
| "driver_kind (ThreadCreate e) = (''ThreadCreate'', ''thread_create'')"
| "driver_kind (ThreadExit e) = (''ThreadExit'', ''thread_exit'')"
| "driver_kind (ProcessHandleAccess e) = (''ProcessHandleAccess'', ''process_handle_access'')"

fun driver_payload :: "platform \<Rightarrow> driver_event \<Rightarrow> json" where
  "driver_payload p (ProcessCreate e) = process_create_payload p e"
| "driver_payload p (ProcessExit e) = process_exit_payload e"
| "driver_payload p (ImageLoad e) = image_load_payload e"
| "driver_payload p (RegistryModify e) = registry_payload e"
| "driver_payload p (ThreadCreate e) = thread_create_payload e"
| "driver_payload p (ThreadExit e) = thread_exit_payload e"
| "driver_payload p (ProcessHandleAccess e) = handle_access_payload e"

definition driver_event_ok :: "driver_event \<Rightarrow> bool" where
  "driver_event_ok ev \<longleftrightarrow>
     driver_arrays_ok ev \<and> hdr_version (driver_header ev) = EVENT_VERSION \<and>
     hdr_type (driver_header ev) = driver_type ev \<and>
     unat (hdr_size (driver_header ev)) = length (driver_image ev)"

lemma driver_image_header:
  obtains body where "driver_image ev = image_header (driver_header ev) @ body"
proof (cases ev)
qed (auto simp: image_process_create_def image_process_exit_def image_image_load_def
    image_registry_def image_thread_create_def image_thread_exit_def image_handle_access_def)

lemma read_packed_image:
  assumes "r (img @ rest) = (e, rest)" and "length img = sz" and "unat h_size = sz"
  shows "read_packed sz r (img @ rest) h_size name = Ok e"
  using assms by (simp add: read_packed_def read_unaligned_def)

lemma decode_payload_image:
  assumes "driver_event_ok ev"
  shows "decode_payload p (driver_image ev @ rest) (driver_header ev)
     = Ok (fst (driver_kind ev), snd (driver_kind ev), driver_payload p ev)"
  using assms
  by (cases ev)
     (simp_all add: driver_event_ok_def decode_payload_def Let_def encode_defs event_type_defs
        read_packed_image wire_simps)

lemma decode_kernel_event_image:
  assumes "driver_event_ok ev"
  shows "decode_kernel_event p (driver_image ev @ rest) =
     Ok \<lparr>dk_kind = fst (driver_kind ev), dk_event_type = snd (driver_kind ev),
         dk_payload = driver_payload p ev,
         dk_ts = format_timestamp p (hdr_timestamp (driver_header ev)),
         dk_ts_ft_100ns = hdr_timestamp (driver_header ev), dk_version = EVENT_VERSION,
         dk_drop_count = hdr_drop_count (driver_header ev),
         dk_trunc_count = hdr_trunc_count (driver_header ev)\<rparr>"
proof -
  obtain body where body: "driver_image ev = image_header (driver_header ev) @ body"
    by (rule driver_image_header)
  have "read_unaligned size_of_header rd_header (driver_image ev @ rest) = Ok (driver_header ev)"
    by (simp add: body read_unaligned_def wire_simps)
  moreover have "size_of_header \<le> length (driver_image ev)"
    by (simp add: body wire_simps)
  ultimately show ?thesis
    using assms
    by (simp add: decode_kernel_event_def decode_payload_image driver_event_ok_def)
qed

text \<open>A platform that answers nothing and serialises every document alike, for examples.\<close>

definition bare_platform :: platform where
  "bare_platform = \<lparr>FileTimeToSystemTime = (\<lambda>_. None), resolve_user_of = (\<lambda>_. None),
     query_session_id = (\<lambda>_. None), query_elevation = (\<lambda>_. None), as_f64 = (\<lambda>_. 0),
     serde_to_vec = (\<lambda>_. Ok [0x7B, 0x7D])\<rparr>"

definition sample_exit :: driver_event where
  "sample_exit = ThreadExit \<lparr>te_header = \<lparr>hdr_version = 6, hdr_type = 6, hdr_timestamp = 1,
     hdr_size = 32, hdr_drop_count = 3, hdr_trunc_count = 0\<rparr>, te_process_id = 4, te_thread_id = 8\<rparr>"

lemma sample_exit_ok: "driver_event_ok sample_exit"
  by (simp add: sample_exit_def driver_event_ok_def EVENT_VERSION_def event_type_defs wire_simps
      wire_sizes)

section \<open>Properties\<close>

lemma decode_returns: "returns (decode_kernel_event p buf)"
proof -
  have "returns (decode_payload p buf h)" if "unat (hdr_size h) \<le> length buf" for h
    using that by (simp add: decode_payload_def Let_def encode_defs outcome_simps)
  then show ?thesis
    by (simp add: decode_kernel_event_def outcome_simps read_unaligned_def)
qed

lemma encode_entry_returns:
  assumes "\<forall>j. returns (serde_to_vec p j)"
  shows "returns (encode_kernel_event p cell buf)"
    and "returns (encode_kernel_event_and_log p now buf)"
proof -
  have "returns (encode_decoded p d)" for d
    using assms by (simp add: encode_decoded_def outcome_simps)
  then show "returns (encode_kernel_event p cell buf)"
    and "returns (encode_kernel_event_and_log p now buf)"
    by (simp_all add: encode_kernel_event_def encode_kernel_event_and_log_def returns_and_then
        returns_map_ok decode_returns)
qed


text \<open>C2. Every event the driver writes, with a header that describes it, is decoded to exactly its
own kind, event type and payload, with the header's timestamp and drop and truncation counts,
whatever bytes follow it in the buffer.\<close>

theorem decode_driver_event:
  assumes "driver_event_ok ev"
  shows "decode_kernel_event p (driver_image ev @ rest) =
     Ok \<lparr>dk_kind = fst (driver_kind ev), dk_event_type = snd (driver_kind ev),
         dk_payload = driver_payload p ev,
         dk_ts = format_timestamp p (hdr_timestamp (driver_header ev)),
         dk_ts_ft_100ns = hdr_timestamp (driver_header ev), dk_version = EVENT_VERSION,
         dk_drop_count = hdr_drop_count (driver_header ev),
         dk_trunc_count = hdr_trunc_count (driver_header ev)\<rparr>"
  by (rule decode_kernel_event_image [OF assms])

theorem decode_driver_event_witness:
  "decode_kernel_event bare_platform (driver_image sample_exit @ [0xFF])
   = Ok \<lparr>dk_kind = ''ThreadExit'', dk_event_type = ''thread_exit'',
         dk_payload = JObj [(''pid'', JInt 4), (''tid'', JInt 8)], dk_ts = ''ft=1'',
         dk_ts_ft_100ns = 1, dk_version = 6, dk_drop_count = 3, dk_trunc_count = 0\<rparr>"
  using decode_driver_event [OF sample_exit_ok, of bare_platform "[0xFF]"]
  by (simp add: sample_exit_def EVENT_VERSION_def thread_exit_payload_def jnum_def
      format_timestamp_def bare_platform_def dec_int_def dec_def radix.simps digit_def)

text \<open>What each entry of a process-creation payload is, whatever else was put beside it.\<close>

lemma map_of_put_nonempty [simp]:
  "k \<noteq> k' \<Longrightarrow> map_of (put_nonempty k' s obj) k = map_of obj k"
  "map_of obj k = None \<Longrightarrow> map_of (put_nonempty k s obj) k = (if s = [] then None else Some (JStr s))"
  by (simp_all add: put_nonempty_def)

lemma map_of_put_option [simp]:
  "k \<noteq> k' \<Longrightarrow> map_of (put_option k' v obj) k = map_of obj k"
  "map_of obj k = None \<Longrightarrow> map_of (put_option k v obj) k = v"
  by (simp_all add: put_option_def split: option.splits)

lemma map_of_put_user [simp]:
  "k \<notin> {''user_sid'', ''user'', ''user_domain'', ''user_full''} \<Longrightarrow>
     map_of (put_user p sid obj) k = map_of obj k"
  by (auto simp: put_user_def Let_def split: option.splits)

lemma map_of_if: "map_of (if b then m else n) k = (if b then map_of m k else map_of n k)"
  by simp

lemma as_u32_jnum [simp]:
  "as_u64 (JInt (uint (w :: u32))) = Some (unat w)" "as_u32 (unat w) = w"
proof -
  have "uint w < 2 ^ 64" using unsigned_less [of w, where 'a = int] by simp
  then show "as_u64 (JInt (uint w)) = Some (unat w)" by simp
qed (simp add: as_u32_def)

text \<open>How a user is displayed: the resolved name, or the SID when there is none.\<close>

definition display_user :: "platform \<Rightarrow> str \<Rightarrow> str option" where
  "display_user p sid =
     (if sid = [] then None
      else case resolve_user_of p sid of
        None \<Rightarrow> Some sid
      | Some (account, domain) \<Rightarrow>
          if domain = [] then Some (if account = [] then sid else account)
          else Some (domain @ [CHR 0x5C] @ account))"

lemma put_user_fields:
  assumes "map_of obj ''user_sid'' = None" "map_of obj ''user_full'' = None"
  shows "map_of (put_user p sid obj) ''user_sid'' = (if sid = [] then None else Some (JStr sid))"
    and "map_of (put_user p sid obj) ''user_full'' =
      (if sid = [] then None
       else map_option (\<lambda>(account, domain).
              JStr (if domain = [] then account else domain @ [CHR 0x5C] @ account))
            (resolve_user_of p sid))"
  using assms by (auto simp: put_user_def Let_def split: option.splits)

lemma process_create_entries:
  "json_get ''pid'' (process_create_payload p e) = Some (jnum (pc_process_id e))"
  "json_get ''parent_pid'' (process_create_payload p e) = Some (jnum (pc_parent_process_id e))"
  "json_get ''image_path'' (process_create_payload p e)
     = Some (JStr (decode_path IMAGE_PATH_MAX (pc_image_path e) (pc_image_path_len e)))"
  "json_get ''session_id'' (process_create_payload p e)
     = map_option jnum (session_id_for_pid p (pc_process_id e))"
  "json_get ''elevated'' (process_create_payload p e)
     = map_option JBool (is_elevated_for_pid p (pc_process_id e))"
  by (simp_all add: process_create_payload_def Let_def map_of_if)

lemma process_create_texts:
  "get_nonempty ''image_path'' (process_create_payload p e)
     = (let s = decode_path IMAGE_PATH_MAX (pc_image_path e) (pc_image_path_len e)
        in if s = [] then None else Some s)"
  "get_nonempty ''command_line'' (process_create_payload p e)
     = (let s = decode_path COMMAND_LINE_MAX (pc_command_line e) (pc_command_line_len e)
        in if s = [] then None else Some s)"
  "get_nonempty ''integrity_label'' (process_create_payload p e)
     = (if pc_integrity_level e = 0xFFFFFFFF then None
        else Some (integrity_label_str (pc_integrity_level e)))"
  by (simp_all add: get_nonempty_def get_str_def process_create_payload_def Let_def map_of_if
      integrity_label_str_def)

lemma process_create_user:
  fixes e defines "sid \<equiv> decode_path USER_SID_MAX (pc_user_sid e) (pc_user_sid_len e)"
  shows "get_nonempty ''user_sid'' (process_create_payload p e) = (if sid = [] then None else Some sid)"
    and "(case get_nonempty ''user_full'' (process_create_payload p e) of
            Some u \<Rightarrow> Some u | None \<Rightarrow> if sid = [] then None else Some sid) = display_user p sid"
proof -
  have user_sid: "json_get ''user_sid'' (process_create_payload p e)
      = (if sid = [] then None else Some (JStr sid))"
    and full: "json_get ''user_full'' (process_create_payload p e) =
      (if sid = [] then None
       else map_option (\<lambda>(account, domain).
              JStr (if domain = [] then account else domain @ [CHR 0x5C] @ account))
            (resolve_user_of p sid))"
    by (simp_all add: process_create_payload_def Let_def map_of_if put_user_fields sid_def)
  show "get_nonempty ''user_sid'' (process_create_payload p e) = (if sid = [] then None else Some sid)"
    by (simp add: get_nonempty_def get_str_def user_sid)
  show "(case get_nonempty ''user_full'' (process_create_payload p e) of
      Some u \<Rightarrow> Some u | None \<Rightarrow> if sid = [] then None else Some sid) = display_user p sid"
    by (auto simp: get_nonempty_def get_str_def full display_user_def split: option.splits)
qed

text \<open>The server's process block of a process-creation event is filled from the event: the block
is absent exactly for PID 0; otherwise PID and parent are the event's, path and command line are the
decoded ones when they are not empty, the session and elevation are what the platform answers for
the PID, and the user is the resolved account, or the raw SID when the resolution fails, so that it
is never missing when the driver sent a SID.\<close>

theorem process_block_of_create:
  "case extract_process (process_create_payload p e) of
     None \<Rightarrow> pc_process_id e = 0
   | Some ps \<Rightarrow>
       pc_process_id e \<noteq> 0 \<and> ps_pid ps = pc_process_id e \<and>
       ps_ppid ps = Some (pc_parent_process_id e) \<and>
       ps_session_id ps = query_session_id p (pc_process_id e) \<and>
       ps_elevated ps = query_elevation p (pc_process_id e) \<and>
       (let path = decode_path IMAGE_PATH_MAX (pc_image_path e) (pc_image_path_len e);
            cmd = decode_path COMMAND_LINE_MAX (pc_command_line e) (pc_command_line_len e);
            sid = decode_path USER_SID_MAX (pc_user_sid e) (pc_user_sid_len e)
        in ps_path ps = (if path = [] then None else Some path) \<and>
           ps_name ps = (if path = [] then None else basename path) \<and>
           ps_command_line ps = (if cmd = [] then None else Some cmd) \<and>
           ps_user_sid ps = (if sid = [] then None else Some sid) \<and>
           ps_user ps = display_user p sid)"
proof (cases "pc_process_id e = 0")
  case True
  then show ?thesis by (simp add: extract_process_def get_u64_def process_create_entries jnum_def as_u32_def Let_def)
next
  case False
  have words: "Option.bind (map_option jnum (w :: u32 option)) as_u64 = map_option unat w"
    and bools: "Option.bind (map_option JBool b) as_bool = b" for w b
    by (cases w; simp add: jnum_def del: as_u64.simps) (cases b; simp)
  from False show ?thesis
    by (simp add: extract_process_def get_u64_def get_bool_def process_create_entries words bools
        process_create_texts process_create_user jnum_def session_id_for_pid_def
        is_elevated_for_pid_def Let_def option.map_comp comp_def option.map_ident
        del: as_u64.simps)
qed

text \<open>A line handed to the spool is one NDJSON record: provided the serialiser writes compact
JSON (which escapes line breaks inside strings), the line ends with a line break and contains no
other, and it is only produced for an event type the allow-list keeps.\<close>

theorem ndjson_line:
  assumes "\<forall>j doc. serde_to_vec p j = Ok doc \<longrightarrow> newline \<notin> set doc"
    and "encode_kernel_event p cell buf = Ok (Some line)"
  shows "\<exists>doc d. line = doc @ [newline] \<and> newline \<notin> set doc \<and>
     decode_kernel_event p buf = Ok d \<and> serde_to_vec p (kernel_envelope d) = Ok doc \<and>
     allows cell ''kernel_callback'' (dk_event_type d)"
  using assms
  by (auto simp: encode_kernel_event_def encode_decoded_def map_err_def outcome_simps
      split: if_splits outcome.splits)

theorem ndjson_line_witness:
  "\<exists>doc. [0x7B, 0x7D, newline] = doc @ [newline] \<and> newline \<notin> set doc"
proof -
  obtain d where "decode_kernel_event bare_platform (driver_image sample_exit) = Ok d"
    using decode_kernel_event_image [OF sample_exit_ok, of bare_platform "[]"] by auto
  then have "encode_kernel_event bare_platform None (driver_image sample_exit)
      = Ok (Some ([0x7B, 0x7D] @ [newline]))"
    by (simp add: encode_kernel_event_def encode_decoded_def allows_def map_err_def bare_platform_def)
  from ndjson_line [OF _ this] show ?thesis
    by (auto simp: bare_platform_def newline_def)
qed

text \<open>A path field round-trips: for any text whose UTF-16 form fits the array, the decoder
recovers exactly that text from the array and its length, whatever the driver left in the rest of
the array; a length beyond the array yields the empty string instead of an over-read.\<close>

theorem decode_path_roundtrip:
  assumes "\<forall>c\<in>set cs. scalar c" and "us = map word_of_nat (concat (map utf16_units cs))"
    and "length us \<le> N" and "N < 2 ^ 16"
  shows "decode_path N (us @ padding) (word_of_nat (length us)) = utf8 cs
     \<and> (\<forall>arr len. N < unat len \<longrightarrow> decode_path N arr len = [])"
proof -
  have "unat (word_of_nat (length us) :: u16) = length us"
    using assms(3,4) by (simp add: unat_of_nat)
  moreover have "utf8 cs = from_utf16_lossy us"
    by (simp only: assms(2) from_utf16_lossy_encode [OF assms(1)])
  ultimately show ?thesis
    using assms(3) by (simp add: decode_path_def)
qed

theorem decode_path_roundtrip_witness:
  "decode_path 8 ([0x63, 0xD83D, 0xDC1D] @ [0, 0xFFFF, 0, 0, 7]) 3 = utf8 [0x63, 0x1F41D]"
  using decode_path_roundtrip
    [of "[0x63, 0x1F41D]" "[0x63, 0xD83D, 0xDC1D]" 8 "[0, 0xFFFF, 0, 0, 7]"]
  by (simp add: scalar_def)

end
