(* ===== verification/Detection.thy ===== *)
theory Detection
  imports Kernel_Decode Hot_Reload
begin

text \<open>
  The detection facade (\<open>src/src/detection/mod.rs\<close>, \<open>src/src/detection/actions.rs\<close>): one entry
  point that evaluates an event, runs the actions of the rules it triggers and forwards alerts, and
  a rule set that is swapped on reload. The rule engine itself lives in another crate: evaluating an
  event (\<open>process_event\<close>), parsing a rules file (\<open>parse_rules\<close>) and building an engine from rules
  (\<open>new_engine\<close>) are arguments.
\<close>

datatype action = Log | Alert str | KillProcess

record agent_alert =
  al_rule_name :: str
  al_action_taken :: str
  al_module :: str
  al_ts :: str
  al_evidence :: json

section \<open>Actions\<close>

definition get_field :: "str \<Rightarrow> log_event \<Rightarrow> field_value option" where
  "get_field k ev = map_of (le_fields ev) k"

definition event_pid :: "log_event \<Rightarrow> int option" where
  "event_pid ev =
     (let v = (case get_field ''pid'' ev of Some v \<Rightarrow> Some v | None \<Rightarrow> get_field ''target_pid'' ev)
      in case v of Some (FInt i) \<Rightarrow> Some i | _ \<Rightarrow> None)"

text \<open>\<open>execute\<close>: the line each action writes.\<close>

fun execute :: "str \<Rightarrow> action \<Rightarrow> log_event \<Rightarrow> str" where
  "execute rule Log ev =
     ''[waza] MATCH rule='' @ rule @ '' -> LOG ('' @ le_module ev @ ''.'' @ le_event_type ev @ '')''"
| "execute rule (Alert msg) ev =
     ''[waza] ALERT rule='' @ rule @ '' msg='' @ msg @ '' ('' @ le_module ev @ ''.''
     @ le_event_type ev @ '')''"
| "execute rule KillProcess ev =
     (case event_pid ev of
        Some p \<Rightarrow> ''[waza] KILL_PROCESS (stub) rule='' @ rule @ '' pid='' @ dec_int p
      | None \<Rightarrow> ''[waza] KILL_PROCESS (stub) rule='' @ rule)"

section \<open>Alerts\<close>

text \<open>The bounded channel to the control plane, and \<open>try_send\<close> on it.\<close>

record alert_channel =
  ac_queue :: "agent_alert list"
  ac_capacity :: nat
  ac_open :: bool

definition try_send :: "agent_alert \<Rightarrow> alert_channel \<Rightarrow> alert_channel" where
  "try_send a c =
     (if ac_open c \<and> length (ac_queue c) < ac_capacity c then c\<lparr>ac_queue := ac_queue c @ [a]\<rparr> else c)"

definition alert_worthy :: "action list \<Rightarrow> bool" where
  "alert_worthy acts \<longleftrightarrow> KillProcess \<in> set acts \<or> (\<exists>m. Alert m \<in> set acts)"

fun is_alert :: "action \<Rightarrow> bool" where
  "is_alert (Alert m) = True"
| "is_alert _ = False"

definition build_alert :: "str \<Rightarrow> str \<Rightarrow> action list \<Rightarrow> log_event \<Rightarrow> agent_alert option" where
  "build_alert ts rule acts ev =
     (let has_kill = list_ex (\<lambda>a. a = KillProcess) acts;
          has_alert = list_ex is_alert acts in
      if \<not> has_kill \<and> \<not> has_alert then None
      else
        let evidence = map (\<lambda>(k, v). (k, field_value_to_json v)) (le_fields ev);
            evidence = put ''event_type'' (JStr (le_event_type ev)) evidence
        in Some \<lparr>al_rule_name = rule, al_action_taken = (if has_kill then ''kill'' else ''alert''),
                 al_module = le_module ev, al_ts = ts, al_evidence = JObj evidence\<rparr>)"

definition emit_alert :: "str \<Rightarrow> str \<Rightarrow> action list \<Rightarrow> log_event \<Rightarrow> alert_channel \<Rightarrow> alert_channel" where
  "emit_alert ts rule acts ev c =
     (case build_alert ts rule acts ev of None \<Rightarrow> c | Some a \<Rightarrow> try_send a c)"

section \<open>The facade\<close>

record 'eng detector =
  dt_engine :: 'eng
  dt_alerts :: "alert_channel option"
  dt_log :: "str list"

fun run_match :: "str \<Rightarrow> log_event \<Rightarrow> str \<times> action list \<Rightarrow> 'eng detector \<Rightarrow> 'eng detector" where
  "run_match ts ev (rule, acts) d =
     d\<lparr>dt_log := dt_log d @ map (\<lambda>a. execute rule a ev) acts,
       dt_alerts := map_option (emit_alert ts rule acts ev) (dt_alerts d)\<rparr>"

definition process ::
    "(log_event \<Rightarrow> 'eng \<Rightarrow> (str \<times> action list) list \<times> 'eng) \<Rightarrow> str \<Rightarrow> log_event \<Rightarrow>
     'eng detector \<Rightarrow> 'eng detector" where
  "process process_event ts ev d =
     (let (matches, engine) = process_event ev (dt_engine d)
      in fold (run_match ts ev) matches (d\<lparr>dt_engine := engine\<rparr>))"

text \<open>\<open>reload\<close> (and \<open>force_reload\<close>): on a parse failure the previous engine is kept.\<close>

definition reload_engine ::
    "('src \<Rightarrow> 'rules outcome) \<Rightarrow> ('rules \<Rightarrow> 'eng) \<Rightarrow> 'src \<Rightarrow> 'eng detector \<Rightarrow>
     unit outcome \<times> 'eng detector" where
  "reload_engine parse_rules new_engine src d =
     (case parse_rules src of
        Ok rules \<Rightarrow> (Ok (), d\<lparr>dt_engine := new_engine rules\<rparr>)
      | Err e \<Rightarrow> (Err e, d)
      | Undefined \<Rightarrow> (Undefined, d)
      | Panicked \<Rightarrow> (Panicked, d))"

text \<open>The cadence of the reload thread: it sleeps \<open>interval\<close> in slices of 250 ms, at least one.\<close>

definition reload_slices :: "millis \<Rightarrow> nat" where
  "reload_slices interval = max (interval div 250) 1"

section \<open>Properties\<close>

lemma list_ex_alert: "list_ex is_alert acts \<longleftrightarrow> (\<exists>m. Alert m \<in> set acts)"
proof -
  have "is_alert a \<longleftrightarrow> (\<exists>m. a = Alert m)" for a by (cases a) auto
  then show ?thesis by (auto simp: list_ex_iff)
qed

lemma build_alert_cases:
  "build_alert ts rule acts ev = None \<longleftrightarrow> \<not> alert_worthy acts"
  unfolding build_alert_def Let_def alert_worthy_def list_ex_alert by (auto simp: list_ex_iff)

lemma run_match_engine [simp]: "dt_engine (fold (run_match ts ev) ms d) = dt_engine d"
  by (induction ms arbitrary: d) auto

lemma run_match_log:
  "dt_log (fold (run_match ts ev) ms d) =
     dt_log d @ concat (map (\<lambda>(rule, acts). map (\<lambda>a. execute rule a ev) acts) ms)"
  by (induction ms arbitrary: d) auto

lemma run_match_alerts:
  "dt_alerts (fold (run_match ts ev) ms d) =
     map_option (\<lambda>c. fold (\<lambda>(rule, acts). emit_alert ts rule acts ev) ms c) (dt_alerts d)"
  by (induction ms arbitrary: d) (auto simp: option.map_comp comp_def option.map_ident option.map_id)

definition alerts_of :: "str \<Rightarrow> log_event \<Rightarrow> (str \<times> action list) list \<Rightarrow> agent_alert list" where
  "alerts_of ts ev ms =
     List.map_filter (\<lambda>(rule, acts). build_alert ts rule acts ev) ms"

lemma try_send_fold:
  "ac_open c \<Longrightarrow> length (ac_queue c) + length as \<le> ac_capacity c \<Longrightarrow>
     fold try_send as c = c\<lparr>ac_queue := ac_queue c @ as\<rparr>"
  by (induction as arbitrary: c) (simp_all add: try_send_def)

lemma emit_fold:
  "fold (\<lambda>(rule, acts). emit_alert ts rule acts ev) ms c = fold try_send (alerts_of ts ev ms) c"
  by (induction ms arbitrary: c)
     (auto simp: alerts_of_def emit_alert_def map_filter_simps split: option.splits)


section \<open>Reloading\<close>

text \<open>Loading a rules file: parse it and build the engine.\<close>

definition load_engine ::
    "('src \<Rightarrow> 'rules outcome) \<Rightarrow> ('rules \<Rightarrow> 'eng) \<Rightarrow> 'src \<Rightarrow> 'eng outcome" where
  "load_engine parse_rules new_engine src = map_ok new_engine (parse_rules src)"

definition try_reload :: "('src \<Rightarrow> 'eng outcome) \<Rightarrow> 'src \<Rightarrow> 'eng detector \<Rightarrow> 'eng detector option" where
  "try_reload load src d = (case load src of Ok e \<Rightarrow> Some (d\<lparr>dt_engine := e\<rparr>) | _ \<Rightarrow> None)"

definition runs_rules :: "('src \<Rightarrow> 'eng outcome) \<Rightarrow> 'src \<Rightarrow> 'eng detector \<Rightarrow> bool" where
  "runs_rules load src d \<longleftrightarrow> load src = Ok (dt_engine d)"

interpretation rule_reload: hot_reload "try_reload load" "runs_rules load" fingerprint
  for load :: "'src \<Rightarrow> 'eng outcome" and fingerprint :: "'src \<Rightarrow> nat \<times> nat"
  by unfold_locales (auto simp: try_reload_def runs_rules_def split: outcome.splits)

text \<open>One turn of the reload thread, and its run over a history of the rules file.\<close>

definition reload_turn ::
    "('src \<Rightarrow> 'rules outcome) \<Rightarrow> ('rules \<Rightarrow> 'eng) \<Rightarrow> ('src \<Rightarrow> nat \<times> nat) \<Rightarrow> 'src \<times> 'src \<Rightarrow>
     (nat \<times> nat) \<times> 'eng detector \<Rightarrow> (nat \<times> nat) \<times> 'eng detector" where
  "reload_turn parse_rules new_engine fingerprint r st =
     (let fp = fingerprint (fst r) in
      if fp = fst st then st
      else case reload_engine parse_rules new_engine (snd r) (snd st) of
        (Ok u, d) \<Rightarrow> (fp, d)
      | (_, d) \<Rightarrow> (fst st, snd st))"

lemma reload_turn_tick:
  "reload_turn pr ne fp r st = rule_reload.tick (load_engine pr ne) fp r st"
  by (simp add: rule_reload.tick_def reload_turn_def try_reload_def reload_engine_def Let_def
      load_engine_def split: outcome.splits)

lemma reload_turns:
  "fold (reload_turn pr ne fp) rs st = rule_reload.ticks (load_engine pr ne) fp rs st"
proof -
  have "reload_turn pr ne fp = rule_reload.tick (load_engine pr ne) fp"
    by (intro ext) (rule reload_turn_tick)
  then show ?thesis by (simp add: rule_reload.ticks_def)
qed

text \<open>Hot reload converges and fails safe: once the rules file is final and parses, then whatever
was read while it was being edited, one further turn of the reload thread has the engine run exactly
its rules, and it stays so; and while no version read parses, the engine that was running goes on
unchanged.\<close>

theorem rules_reload_converges:
  assumes "\<forall>r\<in>set rs. fp (fst r) = fp src \<longrightarrow> snd r = src"
    and "fst st = fp src \<longrightarrow> pr src = Ok rules \<and> dt_engine (snd st) = ne rules"
    and "pr src = Ok rules" and "0 < n"
  shows "dt_engine (snd (fold (reload_turn pr ne fp) (rs @ replicate n (src, src)) st)) = ne rules
    \<and> ((\<forall>r\<in>set rs. \<exists>e. pr (snd r) = Err e) \<longrightarrow> fold (reload_turn pr ne fp) rs st = st)"
proof
  let ?load = "load_engine pr ne"
  have load: "?load src = Ok (ne rules)" using assms(3) by (simp add: load_engine_def)
  have "rule_reload.in_sync ?load fp src st" "rule_reload.final_reads fp src rs"
    using assms(1,2) load
    by (auto simp: rule_reload.in_sync_def rule_reload.final_reads_def runs_rules_def)
  moreover have "try_reload ?load src d \<noteq> None" for d
    using load by (simp add: try_reload_def)
  ultimately have "runs_rules ?load src
      (snd (fold (reload_turn pr ne fp) (rs @ replicate n (src, src)) st))"
    unfolding reload_turns using assms(4) by (intro rule_reload.converges)
  then show "dt_engine (snd (fold (reload_turn pr ne fp) (rs @ replicate n (src, src)) st)) = ne rules"
    using load by (simp add: runs_rules_def)
  show "(\<forall>r\<in>set rs. \<exists>e. pr (snd r) = Err e) \<longrightarrow> fold (reload_turn pr ne fp) rs st = st"
    unfolding reload_turns
    by (intro impI rule_reload.failure_keeps) (force simp: try_reload_def load_engine_def)
qed

section \<open>Examples\<close>

definition sample_log_event :: log_event where
  "sample_log_event = \<lparr>le_module = ''plugin'', le_event_type = ''dns_query'',
     le_fields = [(''pid'', FInt 7)], le_timestamp = 0\<rparr>"


theorem rules_reload_converges_witness:
  "dt_engine (snd (fold (reload_turn (\<lambda>v :: nat. if v = 1 then Err ''bad'' else Ok v) id (\<lambda>v. (v, 0)))
     ([(0, 1), (1, 1)] @ replicate 1 (2, 2)) ((0, 0), \<lparr>dt_engine = 9, dt_alerts = None, dt_log = []\<rparr>)))
   = id 2"
  by (rule rules_reload_converges [THEN conjunct1]) simp_all

end
