(* ===== verification/Spool.thy ===== *)
theory Spool
  imports Prelude
begin

text \<open>
  The on-disk spool (\<open>src/src/spool/writer.rs\<close>, \<open>src/src/spool/file.rs\<close>): a bounded channel, the
  writer thread that drains it into an active file, the rotation into compressed batches and the
  eviction of old batches.

  The spool directory is an association list from file names to contents. What the operating system
  answers to each call of a step (it fails, it reports this time, it removes that file) is a record
  given to the step, so every branch of the source is a value of it. Compression is the parameter
  \<open>zstd\<close>. The counters are natural numbers (the source's are 64 bits wide).
\<close>

definition MIN_RECV_TIMEOUT :: millis where "MIN_RECV_TIMEOUT = 100"
definition ACTIVE_FILE_NAME :: str where "ACTIVE_FILE_NAME = ''active.ndjson''"

record spool_config =
  max_bytes_per_file :: nat
  max_age :: millis
  max_total_bytes :: nat
  channel_capacity :: nat

type_synonym directory = "(str \<times> bytes) list"

definition remove_file :: "str \<Rightarrow> directory \<Rightarrow> directory" where
  "remove_file name d = filter (\<lambda>e. fst e \<noteq> name) d"

section \<open>The active file\<close>

text \<open>
  \<open>ActiveFile\<close>: the bytes handed to the buffered writer, and the count of those that were written
  without error (\<open>write_all\<close> may have passed on a part of a line when it fails).
\<close>

record active_file =
  af_content :: bytes
  af_bytes_written :: nat

definition active_create :: active_file where
  "active_create = \<lparr>af_content = [], af_bytes_written = 0\<rparr>"

datatype write_io = Write_ok | Write_failed nat

fun write_line :: "write_io \<Rightarrow> bytes \<Rightarrow> active_file \<Rightarrow> bool \<times> active_file" where
  "write_line Write_ok line f =
     (True, f\<lparr>af_content := af_content f @ line,
              af_bytes_written := af_bytes_written f + length line\<rparr>)"
| "write_line (Write_failed n) line f = (False, f\<lparr>af_content := af_content f @ take n line\<rparr>)"

section \<open>The spool\<close>

text \<open>
  The shared state: the channel, whether its receiver still exists, the writer's active file, the
  directory, and the published counters.
\<close>

record spool =
  sp_channel :: "bytes list"
  sp_connected :: bool
  sp_active :: "active_file option"
  sp_dir :: directory
  events_written :: nat
  events_dropped :: nat
  batches_sealed :: nat
  batches_evicted :: nat

definition try_submit :: "spool_config \<Rightarrow> bytes \<Rightarrow> spool \<Rightarrow> bool \<times> spool" where
  "try_submit cfg line s =
     (if sp_connected s \<and> length (sp_channel s) < channel_capacity cfg
      then (True, s\<lparr>sp_channel := sp_channel s @ [line]\<rparr>)
      else (False, s\<lparr>events_dropped := Suc (events_dropped s)\<rparr>))"

definition is_alive :: "spool \<Rightarrow> bool" where
  "is_alive s = sp_connected s"

definition batch_name :: "nat \<Rightarrow> nat \<Rightarrow> str" where
  "batch_name ts seq = ''batch-'' @ dec ts @ ''-'' @ dec seq @ ''.zst''"

definition staging_name :: "nat \<Rightarrow> nat \<Rightarrow> str" where
  "staging_name ts seq = ''batch-'' @ dec ts @ ''-'' @ dec seq @ ''.ndjson''"

definition is_batch_name :: "str \<Rightarrow> bool" where
  "is_batch_name n \<longleftrightarrow> starts_with n ''batch-'' \<and> ends_with n ''.zst''"

text \<open>The answers of the system during one rotation.\<close>

record seal_io =
  si_flush :: bool
  si_now :: nat
  si_rename :: bool
  si_open :: bool
  si_create :: bool
  si_encode :: "bytes option"
  si_listing :: bool
  si_stat :: "str \<Rightarrow> bool"
  si_removable :: "str \<Rightarrow> bool"
  si_reopen :: bool

section \<open>The size cap\<close>

fun evict_loop :: "(str \<Rightarrow> bool) \<Rightarrow> nat \<Rightarrow> nat \<Rightarrow> (str \<times> nat) list \<Rightarrow> spool \<Rightarrow> spool" where
  "evict_loop ok cap tot [] s = s"
| "evict_loop ok cap tot ((path, sz) # batches) s =
     (if tot \<le> cap then s
      else if ok path then
        evict_loop ok cap (tot - sz) batches
          (s\<lparr>sp_dir := remove_file path (sp_dir s), batches_evicted := Suc (batches_evicted s)\<rparr>)
      else evict_loop ok cap tot batches s)"

definition batch_entries :: "(str \<Rightarrow> bool) \<Rightarrow> directory \<Rightarrow> (str \<times> nat) list" where
  "batch_entries stat d =
     map (\<lambda>(n, content). (n, if stat n then length content else 0))
       (filter (\<lambda>e. is_batch_name (fst e)) d)"

definition enforce_total_size_cap :: "spool_config \<Rightarrow> seal_io \<Rightarrow> spool \<Rightarrow> spool" where
  "enforce_total_size_cap cfg io s =
     (if \<not> si_listing io then s
      else
        let batches = batch_entries (si_stat io) (sp_dir s);
            tot = sum_list (map snd batches)
        in if tot \<le> max_total_bytes cfg then s
           else evict_loop (si_removable io) (max_total_bytes cfg) tot (sort_key fst batches) s)"

section \<open>Sealing and rotation\<close>

text \<open>
  \<open>seal_active_file\<close>: every \<open>?\<close> of the source is a branch. \<open>si_encode = Some part\<close> says that creating
  the encoder, copying or finishing failed after \<open>part\<close> had reached the batch file. The sequence
  number is taken before the rename, so a failed seal uses one up.
\<close>

definition seal_active_file ::
    "(bytes \<Rightarrow> bytes) \<Rightarrow> spool_config \<Rightarrow> seal_io \<Rightarrow> active_file \<Rightarrow> spool \<Rightarrow> bool \<times> spool" where
  "seal_active_file zstd cfg io f s =
     (if \<not> si_flush io then (False, s)
      else
        let s = s\<lparr>sp_dir := put ACTIVE_FILE_NAME (af_content f) (sp_dir s)\<rparr>;
            ts = si_now io;
            seq = batches_sealed s;
            s = s\<lparr>batches_sealed := Suc seq\<rparr>;
            staging = staging_name ts seq;
            final = batch_name ts seq
        in if \<not> si_rename io then (False, s)
           else
             let s = s\<lparr>sp_dir := put staging (af_content f)
                                  (remove_file ACTIVE_FILE_NAME (sp_dir s))\<rparr>
             in if \<not> si_open io then (False, s)
                else if \<not> si_create io then (False, s)
                else case si_encode io of
                  Some part \<Rightarrow> (False, s\<lparr>sp_dir := put final part (sp_dir s)\<rparr>)
                | None \<Rightarrow>
                    let s = s\<lparr>sp_dir := put final (zstd (af_content f)) (sp_dir s)\<rparr>;
                        s = (if si_removable io staging
                             then s\<lparr>sp_dir := remove_file staging (sp_dir s)\<rparr> else s)
                    in (True, enforce_total_size_cap cfg io s))"

definition rotate :: "(bytes \<Rightarrow> bytes) \<Rightarrow> spool_config \<Rightarrow> seal_io \<Rightarrow> spool \<Rightarrow> spool" where
  "rotate zstd cfg io s =
     (let s = (case sp_active s of
                 None \<Rightarrow> s
               | Some f \<Rightarrow>
                   let (ok, s) = seal_active_file zstd cfg io f (s\<lparr>sp_active := None\<rparr>)
                   in if ok then s
                      else s\<lparr>sp_dir := remove_file ACTIVE_FILE_NAME (sp_dir s)\<rparr>)
      in if si_reopen io
         then s\<lparr>sp_active := Some active_create, sp_dir := put ACTIVE_FILE_NAME [] (sp_dir s)\<rparr>
         else s\<lparr>sp_active := None\<rparr>)"

section \<open>The writer thread\<close>

definition recv_timeout :: "spool_config \<Rightarrow> millis \<Rightarrow> millis" where
  "recv_timeout cfg elapsed = max (max_age cfg - elapsed) MIN_RECV_TIMEOUT"

text \<open>
  Setup. A leftover active file is discarded; when the directory or the file cannot be created the
  thread ends, its receiver with it, and the lines already queued are lost.
\<close>

definition writer_start :: "bool \<Rightarrow> bool \<Rightarrow> spool \<Rightarrow> spool" where
  "writer_start mkdir_ok create_ok s =
     (if \<not> mkdir_ok then s\<lparr>sp_connected := False, sp_channel := []\<rparr>
      else let s = s\<lparr>sp_dir := remove_file ACTIVE_FILE_NAME (sp_dir s)\<rparr> in
        if \<not> create_ok then s\<lparr>sp_connected := False, sp_channel := []\<rparr>
        else s\<lparr>sp_active := Some active_create, sp_dir := put ACTIVE_FILE_NAME [] (sp_dir s)\<rparr>)"

text \<open>The three results of \<open>recv_timeout\<close>, one definition per match arm.\<close>

definition on_line ::
    "(bytes \<Rightarrow> bytes) \<Rightarrow> spool_config \<Rightarrow> write_io \<Rightarrow> seal_io \<Rightarrow> bytes \<Rightarrow> spool \<Rightarrow> spool" where
  "on_line zstd cfg wio io line s =
     (case sp_active s of
        None \<Rightarrow> s\<lparr>events_dropped := Suc (events_dropped s)\<rparr>
      | Some f \<Rightarrow>
          let (ok, f) = write_line wio line f; s = s\<lparr>sp_active := Some f\<rparr> in
          if \<not> ok then s\<lparr>events_dropped := Suc (events_dropped s)\<rparr>
          else
            let s = s\<lparr>events_written := Suc (events_written s)\<rparr> in
            if max_bytes_per_file cfg \<le> af_bytes_written f then rotate zstd cfg io s else s)"

definition on_timeout :: "(bytes \<Rightarrow> bytes) \<Rightarrow> spool_config \<Rightarrow> seal_io \<Rightarrow> spool \<Rightarrow> spool" where
  "on_timeout zstd cfg io s =
     (case sp_active s of
        Some f \<Rightarrow> if 0 < af_bytes_written f then rotate zstd cfg io s else s
      | None \<Rightarrow> s)"

definition on_disconnected :: "(bytes \<Rightarrow> bytes) \<Rightarrow> spool_config \<Rightarrow> seal_io \<Rightarrow> spool \<Rightarrow> spool" where
  "on_disconnected zstd cfg io s =
     (let s' = s\<lparr>sp_active := None, sp_connected := False\<rparr> in
      case sp_active s of
        None \<Rightarrow> s'
      | Some f \<Rightarrow>
          if 0 < af_bytes_written f then snd (seal_active_file zstd cfg io f s')
          else s'\<lparr>sp_dir := remove_file ACTIVE_FILE_NAME (sp_dir s')\<rparr>)"

text \<open>
  The producers and the writer interleave at the channel operations. \<open>Recv\<close> takes the oldest line;
  \<open>Timeout\<close> and \<open>Disconnect\<close> are what an empty channel gives, with and without a sender left. A
  step that is not enabled leaves the spool unchanged.
\<close>

datatype spool_action =
    Submit bytes
  | Recv write_io seal_io
  | Timeout seal_io
  | Disconnect seal_io

fun spool_step :: "(bytes \<Rightarrow> bytes) \<Rightarrow> spool_config \<Rightarrow> spool_action \<Rightarrow> spool \<Rightarrow> spool" where
  "spool_step zstd cfg (Submit line) s = snd (try_submit cfg line s)"
| "spool_step zstd cfg (Recv wio io) s =
     (case sp_channel s of
        [] \<Rightarrow> s
      | line # rest \<Rightarrow>
          if sp_connected s then on_line zstd cfg wio io line (s\<lparr>sp_channel := rest\<rparr>) else s)"
| "spool_step zstd cfg (Timeout io) s =
     (if sp_connected s \<and> sp_channel s = [] then on_timeout zstd cfg io s else s)"
| "spool_step zstd cfg (Disconnect io) s =
     (if sp_connected s \<and> sp_channel s = [] then on_disconnected zstd cfg io s else s)"

definition spool_run :: "(bytes \<Rightarrow> bytes) \<Rightarrow> spool_config \<Rightarrow> spool_action list \<Rightarrow> spool \<Rightarrow> spool" where
  "spool_run zstd cfg as s = fold (spool_step zstd cfg) as s"

text \<open>The spool \<open>spawn_writer\<close> returns, over a directory left by an earlier run.\<close>

definition spool_new :: "directory \<Rightarrow> spool" where
  "spool_new d = \<lparr>sp_channel = [], sp_connected = True, sp_active = None, sp_dir = d,
     events_written = 0, events_dropped = 0, batches_sealed = 0, batches_evicted = 0\<rparr>"

end
