(* ===== verification/Spool_Props.thy ===== *)
theory Spool_Props
  imports Spool Decimal "HOL-Library.Multiset"
begin

text \<open>
  What the spool promises: every event is accounted for, the directory stays under its cap, nothing
  is lost or reordered while the file system works, and the two ways in which the promise ends (a
  failed reopen, a sequence number that grows a digit).
\<close>

section \<open>Where the events go\<close>

text \<open>The counters and the channel a step moves events between, and what it leaves alone.\<close>

lemma evict_loop_fields [counter_simps]:
  "sp_channel (evict_loop ok cap t bs s) = sp_channel s"
  "sp_connected (evict_loop ok cap t bs s) = sp_connected s"
  "sp_active (evict_loop ok cap t bs s) = sp_active s"
  "events_written (evict_loop ok cap t bs s) = events_written s"
  "events_dropped (evict_loop ok cap t bs s) = events_dropped s"
  "batches_sealed (evict_loop ok cap t bs s) = batches_sealed s"
  by (induction ok cap t bs s rule: evict_loop.induct) simp_all

lemma enforce_fields [counter_simps]:
  "sp_channel (enforce_total_size_cap cfg io s) = sp_channel s"
  "sp_connected (enforce_total_size_cap cfg io s) = sp_connected s"
  "sp_active (enforce_total_size_cap cfg io s) = sp_active s"
  "events_written (enforce_total_size_cap cfg io s) = events_written s"
  "events_dropped (enforce_total_size_cap cfg io s) = events_dropped s"
  "batches_sealed (enforce_total_size_cap cfg io s) = batches_sealed s"
  by (simp_all add: enforce_total_size_cap_def Let_def evict_loop_fields)

lemma seal_fields [counter_simps]:
  "sp_channel (snd (seal_active_file z cfg io f s)) = sp_channel s"
  "sp_connected (snd (seal_active_file z cfg io f s)) = sp_connected s"
  "sp_active (snd (seal_active_file z cfg io f s)) = sp_active s"
  "events_written (snd (seal_active_file z cfg io f s)) = events_written s"
  "events_dropped (snd (seal_active_file z cfg io f s)) = events_dropped s"
  by (simp_all add: seal_active_file_def Let_def enforce_fields split: option.splits)

lemma rotate_fields [counter_simps]:
  "sp_channel (rotate z cfg io s) = sp_channel s"
  "sp_connected (rotate z cfg io s) = sp_connected s"
  "events_written (rotate z cfg io s) = events_written s"
  "events_dropped (rotate z cfg io s) = events_dropped s"
  by (simp_all add: rotate_def Let_def seal_fields case_prod_unfold split: option.splits)

lemma rotate_active [counter_simps]:
  "sp_active (rotate z cfg io s) = (if si_reopen io then Some active_create else None)"
  by (simp add: rotate_def Let_def)

definition accounted :: "spool \<Rightarrow> nat" where
  "accounted s = events_written s + events_dropped s + length (sp_channel s)"

lemma try_submit_accounted: "accounted (snd (try_submit cfg line s)) = Suc (accounted s)"
  by (simp add: accounted_def try_submit_def)

lemma on_line_accounted: "accounted (on_line z cfg wio io line s) = Suc (accounted s)"
  by (cases wio)
     (simp_all add: accounted_def on_line_def Let_def counter_simps split: option.splits)

lemma on_timeout_accounted: "accounted (on_timeout z cfg io s) = accounted s"
  by (simp add: accounted_def on_timeout_def counter_simps split: option.splits)

lemma on_disconnected_accounted: "accounted (on_disconnected z cfg io s) = accounted s"
  by (simp add: accounted_def on_disconnected_def Let_def counter_simps split: option.splits)

fun submissions :: "spool_action list \<Rightarrow> bytes list" where
  "submissions [] = []"
| "submissions (Submit line # as) = line # submissions as"
| "submissions (_ # as) = submissions as"

lemma spool_step_accounted:
  "accounted (spool_step z cfg a s) = accounted s + length (submissions [a])"
proof (cases a)
  case (Recv wio io)
  show ?thesis
  proof (cases "sp_channel s")
    case (Cons line rest)
    have "accounted s = Suc (accounted (s\<lparr>sp_channel := rest\<rparr>))" by (simp add: accounted_def Cons)
    with Cons Recv show ?thesis by (simp add: on_line_accounted)
  qed (simp add: Recv)
qed (simp_all add: try_submit_accounted on_timeout_accounted on_disconnected_accounted)

lemma submissions_Cons: "submissions (a # as) = submissions [a] @ submissions as"
  by (cases a) simp_all


section \<open>The channel bound\<close>

lemma on_line_channel: "sp_channel (on_line z cfg wio io line s) = sp_channel s"
  by (cases wio) (simp_all add: on_line_def Let_def counter_simps split: option.splits)

lemma on_timeout_channel: "sp_channel (on_timeout z cfg io s) = sp_channel s"
  by (simp add: on_timeout_def counter_simps split: option.splits)

lemma on_disconnected_channel: "sp_channel (on_disconnected z cfg io s) = sp_channel s"
  by (simp add: on_disconnected_def Let_def counter_simps split: option.splits)

lemma spool_step_bound:
  "length (sp_channel s) \<le> channel_capacity cfg \<Longrightarrow>
     length (sp_channel (spool_step z cfg a s)) \<le> channel_capacity cfg"
  by (cases a)
     (auto simp: try_submit_def on_line_channel on_timeout_channel on_disconnected_channel
        split: list.splits)

section \<open>A writer that lost its active file\<close>

lemma dead_step:
  assumes "sp_active s = None"
  shows "sp_active (spool_step z cfg a s) = None"
    and "events_written (spool_step z cfg a s) = events_written s"
    and "sp_dir (spool_step z cfg a s) = sp_dir s"
  using assms
  by (cases a; simp add: try_submit_def on_line_def on_timeout_def on_disconnected_def Let_def
      split: list.splits)+

text \<open>A failed reopen is final: once the writer has no active file it never writes again, nor
touches the directory, whatever happens later; every line it receives is dropped, while the handle
goes on reporting the writer as alive as long as a sender exists.\<close>

theorem lost_active_file_is_final:
  assumes "sp_active s = None"
  shows "sp_active (spool_run z cfg as s) = None
     \<and> events_written (spool_run z cfg as s) = events_written s
     \<and> sp_dir (spool_run z cfg as s) = sp_dir s
     \<and> ((\<forall>a\<in>set as. \<nexists>io. a = Disconnect io) \<longrightarrow> is_alive (spool_run z cfg as s) = is_alive s)"
  using assms
proof (induction as arbitrary: s)
  case (Cons a as)
  have "is_alive (spool_step z cfg a s) = is_alive s" if "\<nexists>io. a = Disconnect io"
    using that Cons.prems
    by (cases a) (auto simp: is_alive_def try_submit_def on_line_def on_timeout_def
        split: list.splits)
  with Cons.IH [OF dead_step(1) [OF Cons.prems, of z cfg a]] Cons.prems show ?case
    by (simp add: spool_run_def dead_step)
qed (simp add: spool_run_def)

section \<open>Eviction\<close>

definition bytes_of :: "(str \<times> nat) list \<Rightarrow> nat" where
  "bytes_of bs = sum_list (map snd bs)"

lemma remove_file_remove:
  "filter (\<lambda>e. fst e \<notin> A) (remove_file n d) = filter (\<lambda>e. fst e \<notin> insert n A) d"
  unfolding remove_file_def filter_filter by (rule filter_cong) auto

lemma evict_loop_minimal:
  "\<exists>k \<le> length bs.
     sp_dir (evict_loop (\<lambda>_. True) cap (bytes_of bs) bs s)
       = filter (\<lambda>e. fst e \<notin> fst ` set (take k bs)) (sp_dir s) \<and>
     batches_evicted (evict_loop (\<lambda>_. True) cap (bytes_of bs) bs s) = batches_evicted s + k \<and>
     bytes_of (drop k bs) \<le> cap \<and> (\<forall>j<k. cap < bytes_of (drop j bs))"
proof (induction bs arbitrary: s)
  case Nil
  then show ?case by (simp add: bytes_of_def)
next
  case (Cons b bs)
  obtain n sz where b: "b = (n, sz)" by force
  show ?case
  proof (cases "bytes_of (b # bs) \<le> cap")
    case True
    then show ?thesis by (intro exI [of _ 0]) (simp add: b)
  next
    case False
    let ?s = "s\<lparr>sp_dir := remove_file n (sp_dir s), batches_evicted := Suc (batches_evicted s)\<rparr>"
    from Cons [of ?s] obtain k where k: "k \<le> length bs"
      "sp_dir (evict_loop (\<lambda>_. True) cap (bytes_of bs) bs ?s)
         = filter (\<lambda>e. fst e \<notin> fst ` set (take k bs)) (sp_dir ?s)"
      "batches_evicted (evict_loop (\<lambda>_. True) cap (bytes_of bs) bs ?s) = batches_evicted ?s + k"
      "bytes_of (drop k bs) \<le> cap" "\<forall>j<k. cap < bytes_of (drop j bs)" by blast
    have "evict_loop (\<lambda>_. True) cap (bytes_of (b # bs)) (b # bs) s
        = evict_loop (\<lambda>_. True) cap (bytes_of bs) bs ?s"
      using False by (simp add: b bytes_of_def)
    moreover have "\<forall>j < Suc k. cap < bytes_of (drop j (b # bs))"
      using k(5) False by (auto simp: less_Suc_eq_0_disj)
    ultimately show ?thesis
      using k by (intro exI [of _ "Suc k"]) (simp add: remove_file_remove b)
  qed
qed

lemma bytes_of_sort: "bytes_of (sort_key fst bs) = bytes_of bs"
  unfolding bytes_of_def by (metis mset_map mset_sort sum_mset_sum_list)


text \<open>A spool and the answers of a system where every call succeeds, for examples.\<close>

definition sample_io :: "nat \<Rightarrow> seal_io" where
  "sample_io now = \<lparr>si_flush = True, si_now = now, si_rename = True, si_open = True,
     si_create = True, si_encode = None, si_listing = True, si_stat = (\<lambda>_. True),
     si_removable = (\<lambda>_. True), si_reopen = True\<rparr>"

definition sample_config :: spool_config where
  "sample_config = \<lparr>max_bytes_per_file = 4, max_age = 10000, max_total_bytes = 9,
     channel_capacity = 4\<rparr>"


theorem lost_active_file_is_final_witness:
  "events_written (spool_run id sample_config
     [Submit [1, 10], Recv Write_ok (sample_io 3), Timeout (sample_io 4)] (spool_new [])) = 0"
  using lost_active_file_is_final [of "spool_new []" id sample_config
      "[Submit [1, 10], Recv Write_ok (sample_io 3), Timeout (sample_io 4)]"]
  by (simp add: spool_new_def)

section \<open>The order of batch names\<close>

lemma batch_name_less:
  assumes "length (dec ts) = length (dec ts')" and "length (dec seq) = length (dec seq')"
  shows "batch_name ts seq < batch_name ts' seq' \<longleftrightarrow> ts < ts' \<or> (ts = ts' \<and> seq < seq')"
  using assms by (simp add: batch_name_def append_less_iff dec_less_iff)

lemma batch_name_10_9: "batch_name ts 10 < batch_name ts 9"
proof -
  have "dec 9 = ''9''" "dec 10 = ''10''"
    by (simp_all add: dec_unfold [of 10] dec_unfold [of 9] dec_unfold [of 1] digit_def
        dec_unfold [of "Suc 0"])
  then show ?thesis by (simp add: batch_name_def append_less_iff less_char_def)
qed

lemma is_batch_batch_name [simp]: "is_batch_name (batch_name ts seq)"
  by (simp add: is_batch_name_def batch_name_def starts_with_def ends_with_def)

text \<open>While time stamps and sequence numbers keep their number of digits, the byte order of batch
names, by which both the evictor and the shipper pick the oldest batch, is the rotation order.\<close>

theorem batch_order:
  assumes "length (dec ts) = length (dec ts')" and "length (dec seq) = length (dec seq')"
  shows "batch_name ts seq < batch_name ts' seq' \<longleftrightarrow> ts < ts' \<or> (ts = ts' \<and> seq < seq')"
  by (rule batch_name_less [OF assms])

theorem batch_order_witness: "batch_name 1700000000 12 < batch_name 1700000003 11"
  using batch_order [of 1700000000 1700000003 12 11] by (simp add: dec_unfold)

text \<open>When the sequence number grows a digit the evictor deletes the newest batch and keeps the
older one: of batches 9 and 10 of one second, where room is left for the first, it removes the
second.\<close>

theorem evicts_newest_batch:
  assumes "sp_dir s = [(batch_name ts 9, old), (batch_name ts 10, new)]"
    and "si_listing io" "\<forall>n. si_stat io n" "si_removable io (batch_name ts 10)"
    and "length old \<le> max_total_bytes cfg" "max_total_bytes cfg < length old + length new"
  shows "sp_dir (enforce_total_size_cap cfg io s) = [(batch_name ts 9, old)]"
proof -
  have ne: "batch_name ts 9 \<noteq> batch_name ts 10" using batch_name_10_9 [of ts] by auto
  have "sort_key fst [(batch_name ts 9, length old), (batch_name ts 10, length new)]
      = [(batch_name ts 10, length new), (batch_name ts 9, length old)]"
    using batch_name_10_9 [of ts] by (auto simp: insort_key_def dest: leD)
  then show ?thesis
    using assms ne by (simp add: enforce_total_size_cap_def batch_entries_def remove_file_def)
qed

theorem evicts_newest_batch_witness:
  "sp_dir (enforce_total_size_cap sample_config (sample_io 7)
     (spool_new [(batch_name 5 9, replicate 6 0), (batch_name 5 10, replicate 6 0)]))
   = [(batch_name 5 9, replicate 6 0)]"
  using evicts_newest_batch [of
      "spool_new [(batch_name 5 9, replicate 6 0), (batch_name 5 10, replicate 6 0)]" 5
      "replicate 6 0" "replicate 6 0" "sample_io 7" sample_config]
  by (simp add: spool_new_def sample_io_def sample_config_def)

section \<open>Nothing is lost or reordered\<close>

text \<open>The answers under which every call of a step succeeds.\<close>

definition seal_io_ok :: "seal_io \<Rightarrow> bool" where
  "seal_io_ok io \<longleftrightarrow> si_flush io \<and> si_rename io \<and> si_open io \<and> si_create io \<and> si_encode io = None
     \<and> si_reopen io"

fun action_ok :: "spool_action \<Rightarrow> bool" where
  "action_ok (Submit line) = True"
| "action_ok (Recv wio io) = (wio = Write_ok \<and> seal_io_ok io)"
| "action_ok (Timeout io) = seal_io_ok io"
| "action_ok (Disconnect io) = seal_io_ok io"

text \<open>The lines that were let into the channel.\<close>

fun accepted_lines ::
    "(bytes \<Rightarrow> bytes) \<Rightarrow> spool_config \<Rightarrow> spool_action list \<Rightarrow> spool \<Rightarrow> bytes list" where
  "accepted_lines z cfg [] s = []"
| "accepted_lines z cfg (a # as) s =
     (case a of Submit line \<Rightarrow> if fst (try_submit cfg line s) then [line] else [] | _ \<Rightarrow> [])
     @ accepted_lines z cfg as (spool_step z cfg a s)"

definition batch_contents :: "directory \<Rightarrow> bytes list" where
  "batch_contents d = map snd (filter (\<lambda>e. is_batch_name (fst e)) d)"

definition active_content :: "spool \<Rightarrow> bytes" where
  "active_content s = (case sp_active s of None \<Rightarrow> [] | Some f \<Rightarrow> af_content f)"

definition stored :: "(bytes \<Rightarrow> bytes) \<Rightarrow> spool \<Rightarrow> bytes" where
  "stored unz s = concat (map unz (batch_contents (sp_dir s))) @ active_content s
     @ concat (sp_channel s)"

definition names_below :: "nat \<Rightarrow> directory \<Rightarrow> bool" where
  "names_below n d \<longleftrightarrow>
     (\<forall>k\<in>fst ` set d. is_batch_name k \<longrightarrow> (\<exists>ts seq. k = batch_name ts seq \<and> seq < n))"

definition spool_inv :: "spool \<Rightarrow> bool" where
  "spool_inv s \<longleftrightarrow> names_below (batches_sealed s) (sp_dir s) \<and> (sp_active s = None \<longleftrightarrow> \<not> sp_connected s) \<and>
     (\<forall>f. sp_active s = Some f \<longrightarrow> af_bytes_written f = length (af_content f)) \<and>
     (sp_connected s \<or> sp_channel s = [])"

lemma ends_with_last:
  assumes "ends_with n p" and "p \<noteq> []"
  shows "last n = last p"
proof -
  from assms have "drop (length n - length p) n = p" by (simp add: ends_with_def)
  moreover from this assms(2) have "length n - length p < length n"
    by (metis drop_eq_Nil not_le)
  ultimately show ?thesis by (metis last_drop)
qed

lemma not_batch [simp]: "\<not> is_batch_name ACTIVE_FILE_NAME" "\<not> is_batch_name (staging_name ts seq)"
  using ends_with_last [of "staging_name ts seq" "''.zst''"]
  by (auto simp: is_batch_name_def ACTIVE_FILE_NAME_def staging_name_def starts_with_def)

lemma batch_contents_remove [simp]:
  "\<not> is_batch_name n \<Longrightarrow> batch_contents (remove_file n d) = batch_contents d"
  unfolding batch_contents_def remove_file_def filter_filter
  by (rule arg_cong [where f = "map snd"]) (auto intro: filter_cong)

lemma batch_contents_put [simp]:
  "\<not> is_batch_name n \<Longrightarrow> batch_contents (put n c d) = batch_contents d"
  "is_batch_name n \<Longrightarrow> n \<notin> fst ` set d \<Longrightarrow> batch_contents (put n c d) = batch_contents d @ [c]"
  by (induction d) (auto simp: batch_contents_def)

lemma evict_loop_none:
  "batches_evicted s \<le> batches_evicted (evict_loop ok cap t bs s) \<and>
   (batches_evicted (evict_loop ok cap t bs s) = batches_evicted s \<longrightarrow>
      evict_loop ok cap t bs s = s)"
proof (induction ok cap t bs s rule: evict_loop.induct)
  case (2 ok cap t path sz batches s)
  then show ?case by (cases "t \<le> cap"; cases "ok path") auto
qed simp

lemma enforce_none:
  "batches_evicted s \<le> batches_evicted (enforce_total_size_cap cfg io s)"
  "batches_evicted (enforce_total_size_cap cfg io s) = batches_evicted s \<Longrightarrow>
     enforce_total_size_cap cfg io s = s"
  using evict_loop_none [of s] by (auto simp: enforce_total_size_cap_def Let_def)

lemma names_below_steps:
  "names_below n d \<Longrightarrow> \<not> is_batch_name k \<Longrightarrow> names_below n (put k c d)"
  "names_below n d \<Longrightarrow> names_below n (remove_file k d)"
  "names_below n d \<Longrightarrow> names_below (Suc n) (put (batch_name ts n) c d)"
proof -
  show "names_below n d \<Longrightarrow> \<not> is_batch_name k \<Longrightarrow> names_below n (put k c d)"
    by (auto simp only: names_below_def set_keys_put)
  show "names_below n d \<Longrightarrow> names_below n (remove_file k d)"
    by (auto simp: names_below_def remove_file_def)
  show "names_below n d \<Longrightarrow> names_below (Suc n) (put (batch_name ts n) c d)"
    unfolding names_below_def set_keys_put by (meson insertE less_Suc_eq)
qed

lemma batch_name_inject: "batch_name ts seq = batch_name ts' seq' \<Longrightarrow> seq = seq'"
proof -
  have dash: "CHR ''-'' \<notin> set (dec n)" for n
    by (rule dec_not_digit) (simp add: is_digit_def less_eq_char_def)
  assume "batch_name ts seq = batch_name ts' seq'"
  then have eq: "dec ts @ CHR ''-'' # dec seq @ ''.zst'' = dec ts' @ CHR ''-'' # dec seq' @ ''.zst''"
    by (simp add: batch_name_def)
  have "takeWhile (\<lambda>c. c \<noteq> CHR ''-'') (dec a @ CHR ''-'' # r) = dec a" for a r
    using dash [of a] by (subst takeWhile_append2) auto
  from this [of ts "dec seq @ ''.zst''"] this [of ts' "dec seq' @ ''.zst''"] eq
  have "dec ts = dec ts'" by simp
  with eq show "seq = seq'" by simp
qed

text \<open>A seal in which every call succeeds and nothing is evicted appends one batch.\<close>

lemma name_is_new: "names_below n d \<Longrightarrow> batch_name ts n \<notin> fst ` set d"
  unfolding names_below_def using batch_name_inject is_batch_batch_name by blast

lemma seal_appends:
  assumes "seal_io_ok io" and below: "names_below (batches_sealed s) (sp_dir s)"
    and "batches_evicted (snd (seal_active_file z cfg io f s)) = batches_evicted s"
  shows "fst (seal_active_file z cfg io f s)"
    and "batch_contents (sp_dir (snd (seal_active_file z cfg io f s)))
           = batch_contents (sp_dir s) @ [z (af_content f)]"
    and "names_below (batches_sealed (snd (seal_active_file z cfg io f s)))
           (sp_dir (snd (seal_active_file z cfg io f s)))"
proof -
  define seq where "seq = batches_sealed s"
  define staging where "staging = staging_name (si_now io) seq"
  define d1 where "d1 = put staging (af_content f)
    (remove_file ACTIVE_FILE_NAME (put ACTIVE_FILE_NAME (af_content f) (sp_dir s)))"
  define d2 where "d2 = put (batch_name (si_now io) seq) (z (af_content f)) d1"
  define d3 where "d3 = (if si_removable io staging then remove_file staging d2 else d2)"
  define s3 where "s3 = s\<lparr>batches_sealed := Suc seq, sp_dir := d3\<rparr>"
  have seal: "seal_active_file z cfg io f s = (True, enforce_total_size_cap cfg io s3)"
    using assms(1)
    by (simp add: seal_active_file_def seal_io_ok_def Let_def s3_def d3_def d2_def d1_def
        staging_def seq_def)
  have "batches_evicted s3 = batches_evicted s" by (simp add: s3_def)
  with assms(3) seal have s3: "enforce_total_size_cap cfg io s3 = s3"
    by (intro enforce_none) simp
  have st: "\<not> is_batch_name staging" by (simp add: staging_def)
  have d1: "names_below seq d1" "batch_contents d1 = batch_contents (sp_dir s)"
    unfolding d1_def seq_def using below st by (intro names_below_steps; simp) (simp add: st)
  then have d2: "names_below (Suc seq) d2"
      "batch_contents d2 = batch_contents (sp_dir s) @ [z (af_content f)]"
    unfolding d2_def using name_is_new [OF d1(1)] d1 by (simp_all add: names_below_steps(3))
  then have d3: "names_below (Suc seq) d3"
      "batch_contents d3 = batch_contents (sp_dir s) @ [z (af_content f)]"
    unfolding d3_def using st by (simp_all add: names_below_steps)
  show "fst (seal_active_file z cfg io f s)" by (simp add: seal)
  show "batch_contents (sp_dir (snd (seal_active_file z cfg io f s)))
      = batch_contents (sp_dir s) @ [z (af_content f)]"
    by (simp add: seal s3) (simp add: s3_def d3)
  show "names_below (batches_sealed (snd (seal_active_file z cfg io f s)))
      (sp_dir (snd (seal_active_file z cfg io f s)))"
    by (simp add: seal s3) (simp add: s3_def d3)
qed

lemma seal_evicted: "batches_evicted s \<le> batches_evicted (snd (seal_active_file z cfg io f s))"
  using enforce_none(1)
  by (simp add: seal_active_file_def Let_def split: option.splits)
     (metis (no_types, lifting) spool.select_convs(8) spool.surjective spool.update_convs(4)
       spool.update_convs(7))

lemma rotate_stores:
  assumes io: "seal_io_ok io" and inv: "spool_inv s" and conn: "sp_connected s"
    and z: "\<forall>x. unz (z x) = x"
    and ev: "batches_evicted (rotate z cfg io s) = batches_evicted s"
  shows "spool_inv (rotate z cfg io s)" and "stored unz (rotate z cfg io s) = stored unz s"
proof -
  obtain f where f: "sp_active s = Some f"
    using inv conn by (cases "sp_active s") (auto simp: spool_inv_def)
  define s0 where "s0 = s\<lparr>sp_active := None\<rparr>"
  define r where "r = seal_active_file z cfg io f s0"
  have below: "names_below (batches_sealed s0) (sp_dir s0)"
    using inv by (simp add: s0_def spool_inv_def)
  have "batches_evicted (rotate z cfg io s) = batches_evicted (snd r)"
    by (simp add: rotate_def f Let_def r_def s0_def case_prod_unfold)
  then have "batches_evicted (snd r) = batches_evicted s0" using ev by (simp add: s0_def)
  note sealed = seal_appends [OF io below this [unfolded r_def], folded r_def]
  have rot: "rotate z cfg io s =
      (snd r)\<lparr>sp_active := Some active_create, sp_dir := put ACTIVE_FILE_NAME [] (sp_dir (snd r))\<rparr>"
    using io sealed(1)
    by (simp add: rotate_def f Let_def r_def s0_def case_prod_unfold seal_io_ok_def)
  have same: "sp_channel (snd r) = sp_channel s" "sp_connected (snd r) = sp_connected s"
    by (simp_all add: r_def s0_def counter_simps)
  show "spool_inv (rotate z cfg io s)"
    using sealed(3) inv conn
    by (simp add: rot spool_inv_def same names_below_steps active_create_def)
  show "stored unz (rotate z cfg io s) = stored unz s"
    using sealed(2) z f
    by (simp add: rot stored_def same active_content_def active_create_def s0_def)
qed

lemma disconnected_stores:
  assumes io: "seal_io_ok io" and inv: "spool_inv s" and "sp_connected s" and "sp_channel s = []"
    and z: "\<forall>x. unz (z x) = x"
    and ev: "batches_evicted (on_disconnected z cfg io s) = batches_evicted s"
  shows "spool_inv (on_disconnected z cfg io s)"
    and "stored unz (on_disconnected z cfg io s) = stored unz s"
proof -
  obtain f where f: "sp_active s = Some f" "af_bytes_written f = length (af_content f)"
    using inv assms(3) by (cases "sp_active s") (auto simp: spool_inv_def)
  define s0 where "s0 = s\<lparr>sp_active := None, sp_connected := False\<rparr>"
  define r where "r = seal_active_file z cfg io f s0"
  have below: "names_below (batches_sealed s0) (sp_dir s0)"
    using inv by (simp add: s0_def spool_inv_def)
  have "spool_inv (on_disconnected z cfg io s) \<and>
      stored unz (on_disconnected z cfg io s) = stored unz s"
  proof (cases "af_content f = []")
    case True
    with below assms(4) show ?thesis
      by (simp add: on_disconnected_def Let_def f spool_inv_def stored_def active_content_def s0_def
          names_below_steps)
  next
    case False
    then have "on_disconnected z cfg io s = snd r"
      by (simp add: on_disconnected_def Let_def f r_def s0_def)
    moreover from this have "batches_evicted (snd r) = batches_evicted s0"
      using ev by (simp add: s0_def)
    note sealed = seal_appends [OF io below this [unfolded r_def], folded r_def]
    ultimately show ?thesis
      using sealed z assms(4) f
      by (simp add: spool_inv_def stored_def active_content_def r_def counter_simps)
         (simp add: s0_def)
  qed
  then show "spool_inv (on_disconnected z cfg io s)"
    and "stored unz (on_disconnected z cfg io s) = stored unz s" by simp_all
qed

lemma rotate_evicted: "batches_evicted s \<le> batches_evicted (rotate z cfg io s)"
proof (cases "sp_active s")
  case (Some f)
  have "batches_evicted (rotate z cfg io s)
      = batches_evicted (snd (seal_active_file z cfg io f (s\<lparr>sp_active := None\<rparr>)))"
    by (simp add: rotate_def Some Let_def case_prod_unfold)
  then show ?thesis using seal_evicted [of "s\<lparr>sp_active := None\<rparr>"] by simp
qed (simp add: rotate_def Let_def)

lemma spool_step_evicted: "batches_evicted s \<le> batches_evicted (spool_step z cfg a s)"
proof (cases a)
  case (Recv wio io)
  have "batches_evicted t \<le> batches_evicted (on_line z cfg wio io line t)" for line t
    by (cases wio)
       (auto simp: on_line_def Let_def split: option.splits intro: order_trans [OF _ rotate_evicted])
  from this [of "s\<lparr>sp_channel := tl (sp_channel s)\<rparr>"] Recv show ?thesis
    by (auto split: list.splits)
next
  case (Disconnect io)
  then show ?thesis
    using seal_evicted [of "s\<lparr>sp_active := None, sp_connected := False\<rparr>"]
    by (auto simp: on_disconnected_def Let_def split: option.splits)
qed (auto simp: try_submit_def on_timeout_def rotate_evicted split: option.splits)

lemma on_line_stores:
  assumes io: "seal_io_ok io" and inv: "spool_inv s" and conn: "sp_connected s"
    and z: "\<forall>x. unz (z x) = x"
    and ev: "batches_evicted (on_line z cfg Write_ok io line s) = batches_evicted s"
  shows "spool_inv (on_line z cfg Write_ok io line s)"
    and "stored unz (on_line z cfg Write_ok io line s) =
      concat (map unz (batch_contents (sp_dir s))) @ active_content s @ line @ concat (sp_channel s)"
proof -
  obtain f where f: "sp_active s = Some f" "af_bytes_written f = length (af_content f)"
    using inv conn by (cases "sp_active s") (auto simp: spool_inv_def)
  define s1 where "s1 = s\<lparr>sp_active := Some (snd (write_line Write_ok line f)),
    events_written := Suc (events_written s)\<rparr>"
  have inv1: "spool_inv s1" "sp_connected s1"
    using inv conn f by (simp_all add: s1_def spool_inv_def)
  have st: "stored unz s1 = concat (map unz (batch_contents (sp_dir s))) @ active_content s @ line
      @ concat (sp_channel s)"
    by (simp add: stored_def s1_def active_content_def f)
  have "on_line z cfg Write_ok io line s
      = (if max_bytes_per_file cfg \<le> length (af_content f) + length line
         then rotate z cfg io s1 else s1)"
    by (simp add: on_line_def Let_def f s1_def)
  moreover have "batches_evicted s1 = batches_evicted s" by (simp add: s1_def)
  ultimately show "spool_inv (on_line z cfg Write_ok io line s)"
    and "stored unz (on_line z cfg Write_ok io line s) =
      concat (map unz (batch_contents (sp_dir s))) @ active_content s @ line @ concat (sp_channel s)"
    using rotate_stores [OF io inv1, where unz = unz and z = z and cfg = cfg] z inv1 st ev by (auto split: if_splits)
qed

lemma spool_step_stores:
  assumes ok: "action_ok a" and inv: "spool_inv s" and z: "\<forall>x. unz (z x) = x"
    and ev: "batches_evicted (spool_step z cfg a s) = batches_evicted s"
  shows "spool_inv (spool_step z cfg a s) \<and> stored unz (spool_step z cfg a s)
      = stored unz s @ concat (accepted_lines z cfg [a] s)"
proof (cases a)
  case (Submit line)
  then show ?thesis
    using inv by (simp add: try_submit_def spool_inv_def stored_def active_content_def)
next
  case (Recv wio io)
  show ?thesis
  proof (cases "sp_channel s")
    case (Cons line rest)
    let ?s = "s\<lparr>sp_channel := rest\<rparr>"
    have conn: "sp_connected s" using inv Cons by (auto simp: spool_inv_def)
    with inv have "spool_inv ?s" by (simp add: spool_inv_def)
    with on_line_stores [of io ?s unz z cfg line] conn ok ev z show ?thesis
      by (simp add: Recv Cons stored_def active_content_def)
  qed (simp add: Recv inv)
next
  case (Timeout io)
  show ?thesis
  proof (cases "sp_connected s \<and> sp_channel s = []")
    case True
    then have "on_timeout z cfg io s = s \<or> on_timeout z cfg io s = rotate z cfg io s"
      by (simp add: on_timeout_def split: option.splits)
    then show ?thesis
      using rotate_stores [of io s unz z cfg] True ok ev inv z by (auto simp: Timeout)
  qed (use inv in \<open>auto simp: Timeout\<close>)
next
  case (Disconnect io)
  show ?thesis
  proof (cases "sp_connected s \<and> sp_channel s = []")
    case True
    then show ?thesis
      using disconnected_stores [of io s unz z cfg] ok ev inv z by (simp add: Disconnect)
  qed (use inv in \<open>auto simp: Disconnect\<close>)
qed

lemma spool_run_stores:
  assumes "\<forall>a\<in>set as. action_ok a" and "spool_inv s" and "\<forall>x. unz (z x) = x"
    and "batches_evicted (spool_run z cfg as s) = batches_evicted s"
  shows "stored unz (spool_run z cfg as s) = stored unz s @ concat (accepted_lines z cfg as s)"
  using assms
proof (induction as arbitrary: s)
  case Nil
  then show ?case by (simp add: spool_run_def)
next
  case (Cons a as)
  let ?s = "spool_step z cfg a s"
  have run: "spool_run z cfg (a # as) s = spool_run z cfg as ?s" by (simp add: spool_run_def)
  have mono: "batches_evicted t \<le> batches_evicted (spool_run z cfg as t)" for t
    by (induction as arbitrary: t)
       (auto simp: spool_run_def intro: order_trans [OF spool_step_evicted])
  have ev: "batches_evicted ?s = batches_evicted s"
    using Cons.prems(4) mono [of ?s] spool_step_evicted [of s z cfg a] by (simp add: run)
  have step: "spool_inv ?s"
    "stored unz ?s = stored unz s @ concat (accepted_lines z cfg [a] s)"
    using spool_step_stores [OF _ Cons.prems(2), where a = a and unz = unz and z = z and cfg = cfg]
      Cons.prems(1,3) ev by simp_all
  then show ?case
    using Cons.IH [OF _ step(1)] Cons.prems ev by (simp add: run)
qed

text \<open>C4. The spool loses and reorders nothing: from the start of the writer on an empty directory,
over any interleaving of producers and writer in which the file system does not fail and no batch
was evicted, the decompressed batches in the order they were written, followed by the active file
and the lines still in the channel, are the accepted lines, byte for byte and in order.\<close>

theorem spool_lossless:
  assumes "\<forall>a\<in>set as. action_ok a" and "\<forall>x. unzstd (zstd x) = x"
    and "s0 = writer_start True True (spool_new [])"
    and "s = spool_run zstd cfg as s0" and "batches_evicted s = 0"
  shows "concat (map unzstd (batch_contents (sp_dir s))) @ active_content s @ concat (sp_channel s)
     = concat (accepted_lines zstd cfg as s0)"
proof -
  have s0: "spool_inv s0" "stored unzstd s0 = []" "batches_evicted s0 = 0"
    using assms(3)
    by (simp_all add: writer_start_def spool_new_def spool_inv_def names_below_def stored_def
        remove_file_def batch_contents_def active_content_def active_create_def
        ACTIVE_FILE_NAME_def is_batch_name_def starts_with_def)
  then have "stored unzstd s = concat (accepted_lines zstd cfg as s0)"
    using spool_run_stores [OF assms(1) s0(1), where unz = unzstd and z = zstd and cfg = cfg]
      assms(2,4,5) by simp
  then show ?thesis by (simp add: stored_def)
qed

theorem spool_lossless_witness:
  "let s = spool_run rev sample_config [Submit [1, 10], Submit [2, 2, 10],
             Recv Write_ok (sample_io 5), Recv Write_ok (sample_io 6), Submit [3, 10],
             Timeout (sample_io 7)] (writer_start True True (spool_new []))
   in concat (map rev (batch_contents (sp_dir s))) @ active_content s @ concat (sp_channel s)
     = [1, 10, 2, 2, 10, 3, 10]"
proof -
  let ?as = "[Submit [1, 10], Submit [2, 2, 10], Recv Write_ok (sample_io 5),
    Recv Write_ok (sample_io 6), Submit [3, 10], Timeout (sample_io 7)]"
  let ?init = "writer_start True True (spool_new [])"
  let ?s = "spool_run rev sample_config ?as ?init"
  note defs = spool_run_def writer_start_def spool_new_def remove_file_def active_create_def
    try_submit_def on_line_def rotate_def seal_active_file_def sample_config_def sample_io_def
    enforce_total_size_cap_def Let_def ACTIVE_FILE_NAME_def batch_entries_def
  have "\<forall>a\<in>set ?as. action_ok a"
    by (simp add: seal_io_ok_def sample_io_def)
  moreover have "batches_evicted ?s = 0"
    by (simp add: defs is_batch_name_def batch_name_def staging_name_def starts_with_def
        ends_with_def)
  moreover have "accepted_lines rev sample_config ?as ?init = [[1, 10], [2, 2, 10], [3, 10]]"
    by (simp add: defs is_batch_name_def batch_name_def staging_name_def starts_with_def
        ends_with_def)
  ultimately show ?thesis
    using spool_lossless [where as = ?as and unzstd = rev and zstd = rev and cfg = sample_config
        and ?s0.0 = ?init and s = ?s] by (simp add: Let_def del: accepted_lines.simps)
qed

end
