(* ===== verification/Event_Sink.thy ===== *)
theory Event_Sink
  imports Spool_Props
begin

text \<open>
  The interface every event source has to the spool: \<open>try_submit\<close> either queues the line or counts
  it as dropped. The kernel pump, the ETW subscriptions, the polling modules and the plugin workers
  all submit through it and never block; what that gives over a series of submissions is proved
  here once.
\<close>

locale event_sink =
  fixes submit :: "'line \<Rightarrow> 's \<Rightarrow> bool \<times> 's"
    and queued :: "'s \<Rightarrow> 'line list"
    and dropped :: "'s \<Rightarrow> nat"
  assumes accepted: "fst (submit l s) \<Longrightarrow>
      queued (snd (submit l s)) = queued s @ [l] \<and> dropped (snd (submit l s)) = dropped s"
    and refused: "\<not> fst (submit l s) \<Longrightarrow>
      queued (snd (submit l s)) = queued s \<and> dropped (snd (submit l s)) = Suc (dropped s)"
begin

definition submit_all :: "'line list \<Rightarrow> 's \<Rightarrow> 's" where
  "submit_all ls s = fold (\<lambda>l s. snd (submit l s)) ls s"

text \<open>What was queued is a subsequence of what was submitted, in order, and the rest is counted.\<close>

lemma submit_all_accounts:
  "\<exists>ks. subseq ks ls \<and> queued (submit_all ls s) = queued s @ ks \<and>
     dropped (submit_all ls s) + length ks = dropped s + length ls"
proof (induction ls arbitrary: s)
  case Nil
  then show ?case by (simp add: submit_all_def)
next
  case (Cons l ls)
  from Cons [of "snd (submit l s)"] obtain ks where ks: "subseq ks ls"
    "queued (submit_all ls (snd (submit l s))) = queued (snd (submit l s)) @ ks"
    "dropped (submit_all ls (snd (submit l s))) + length ks = dropped (snd (submit l s)) + length ls"
    by blast
  show ?case
  proof (cases "fst (submit l s)")
    case True
    from ks accepted [OF True] show ?thesis
      by (intro exI [of _ "l # ks"]) (simp add: submit_all_def)
  next
    case False
    from ks refused [OF False] show ?thesis
      by (intro exI [of _ ks]) (simp add: submit_all_def list_emb_Cons)
  qed
qed

end

interpretation spool_sink: event_sink "try_submit cfg" sp_channel events_dropped
  by unfold_locales (auto simp: try_submit_def split: if_splits)

text \<open>A source holds the front end of the spool only when the spool is configured.\<close>

definition submit_to :: "spool_config \<Rightarrow> bytes \<Rightarrow> spool option \<Rightarrow> spool option" where
  "submit_to cfg line sp = map_option (\<lambda>s. snd (try_submit cfg line s)) sp"

text \<open>Submitting never touches what the writer owns.\<close>

lemma try_submit_writer [simp]:
  "sp_active (snd (try_submit cfg l s)) = sp_active s"
  "sp_dir (snd (try_submit cfg l s)) = sp_dir s"
  "events_written (snd (try_submit cfg l s)) = events_written s"
  "sp_connected (snd (try_submit cfg l s)) = sp_connected s"
  by (simp_all add: try_submit_def)

text \<open>A burst of events from any source never blocks and never overruns the channel: the lines
that were queued are a subsequence, in order, of those submitted, all others are counted as dropped,
and a channel within its capacity stays within it.\<close>

theorem burst_accounted:
  "\<exists>ks. subseq ks ls \<and>
     sp_channel (fold (\<lambda>l s. snd (try_submit cfg l s)) ls s) = sp_channel s @ ks \<and>
     events_dropped (fold (\<lambda>l s. snd (try_submit cfg l s)) ls s) + length ks
       = events_dropped s + length ls \<and>
     length (sp_channel (fold (\<lambda>l s. snd (try_submit cfg l s)) ls s))
       \<le> max (length (sp_channel s)) (channel_capacity cfg)"
proof -
  have "length (sp_channel (fold (\<lambda>l s. snd (try_submit cfg l s)) ls s))
      \<le> max (length (sp_channel s)) (channel_capacity cfg)"
  proof (induction ls arbitrary: s)
    case (Cons l ls)
    have "length (sp_channel (snd (try_submit cfg l s)))
        \<le> max (length (sp_channel s)) (channel_capacity cfg)"
      by (simp add: try_submit_def)
    with Cons [of "snd (try_submit cfg l s)"] show ?case by simp
  qed simp
  with spool_sink.submit_all_accounts [of ls cfg s] show ?thesis
    by (simp add: spool_sink.submit_all_def)
qed

end
