(* ===== verification/Plugin_Session.thy ===== *)
theory Plugin_Session
  imports Handshake Xml_Enrich Civil_Time Detection Event_Sink
begin

text \<open>
  One connected plugin (\<open>handle_session\<close> and \<open>emit_event\<close> of \<open>src/src/plugin/server.rs\<close>): identity,
  handshake, then frames until the session ends. The pipe is a stream of reads and a function that says
  whether a write succeeds; the clock gives the nanoseconds at the n-th event of the session.
\<close>

definition HEARTBEAT_SEC :: u32 where "HEARTBEAT_SEC = 30"

record 'eng session_env =
  se_host :: host
  se_from_slice :: "bytes \<Rightarrow> json option"
  se_to_vec :: "json \<Rightarrow> bytes outcome"
  se_write :: "bytes \<Rightarrow> bool"
  se_filter :: "event_filter option"
  se_spool_config :: spool_config
  se_process_event :: "log_event \<Rightarrow> 'eng \<Rightarrow> (str \<times> action list) list \<times> 'eng"
  se_as_f64 :: "int \<Rightarrow> f64"
  se_clock :: "nat \<Rightarrow> u64"
  se_now_iso8601 :: str
  se_now :: millis
  se_console_output :: bool
  se_version :: str

record plugin_stats =
  ps_sessions_rejected :: u64
  ps_events_received :: u64
  ps_events_invalid :: u64

record 'eng session =
  ss_stats :: plugin_stats
  ss_spool :: "spool option"
  ss_detection :: "'eng detector option"
  ss_stdout :: "bytes list"
  ss_sent :: "bytes list"
  ss_count :: nat

section \<open>Events\<close>

text \<open>The object of an event; the attribution comes from the session alone.\<close>

definition event_object ::
    "u64 \<Rightarrow> plugin_manifest \<Rightarrow> client_identity \<Rightarrow> str \<Rightarrow> plugin_event \<Rightarrow> json" where
  "event_object now_ns m identity sid ev =
     JObj [(''ts'', JStr (format_iso8601_ns now_ns)), (''ts_unix_ns'', JInt (uint now_ns)),
           (''source'', JStr ''plugin''), (''module'', JStr ''plugin''),
           (''event_type'', JStr ''plugin_event''), (''kind'', JStr (ev_kind ev)),
           (''plugin_id'', JStr (pm_plugin_id m)), (''plugin_name'', JStr (pm_name m)),
           (''plugin_pid'', JInt (uint (ci_pid identity))), (''session_id'', JStr sid),
           (''seq'', JInt (uint (ev_seq ev))), (''plugin_ts_unix_ns'', JInt (uint (ev_ts_unix_ns ev))),
           (''raw'', enrich_with_xml_data_fields (ev_payload ev))]"

definition event_log :: "'eng session_env \<Rightarrow> plugin_event \<Rightarrow> log_event" where
  "event_log env ev =
     \<lparr>le_module = ''plugin'', le_event_type = ev_kind ev,
      le_fields = (case ev_payload ev of JObj obj \<Rightarrow> flatten_fields (se_as_f64 env) obj | _ \<Rightarrow> []),
      le_timestamp = se_now env\<rparr>"

definition emit_event ::
    "'eng session_env \<Rightarrow> plugin_manifest \<Rightarrow> client_identity \<Rightarrow> str \<Rightarrow> plugin_event \<Rightarrow>
     'eng session \<Rightarrow> 'eng session" where
  "emit_event env m identity sid ev s =
     (if \<not> allows (se_filter env) ''plugin'' ''plugin_event'' then s
      else case se_to_vec env (event_object (se_clock env (ss_count s)) m identity sid ev) of
        Ok b \<Rightarrow>
          let line = b @ [10] in
          s\<lparr>ss_stdout := (if se_console_output env then ss_stdout s @ [line] else ss_stdout s),
            ss_spool := submit_to (se_spool_config env) line (ss_spool s),
            ss_detection := map_option (process (se_process_event env) (se_now_iso8601 env)
                              (event_log env ev)) (ss_detection s)\<rparr>
      | _ \<Rightarrow> s)"

section \<open>The session\<close>

definition count_received :: "'eng session \<Rightarrow> 'eng session" where
  "count_received s =
     s\<lparr>ss_stats := (ss_stats s)\<lparr>ps_events_received := ps_events_received (ss_stats s) + 1\<rparr>,
       ss_count := Suc (ss_count s)\<rparr>"

definition count_invalid :: "'eng session \<Rightarrow> 'eng session" where
  "count_invalid s =
     s\<lparr>ss_stats := (ss_stats s)\<lparr>ps_events_invalid := ps_events_invalid (ss_stats s) + 1\<rparr>\<rparr>"

definition count_rejected :: "'eng session \<Rightarrow> 'eng session" where
  "count_rejected s =
     s\<lparr>ss_stats := (ss_stats s)\<lparr>ps_sessions_rejected := ps_sessions_rejected (ss_stats s) + 1\<rparr>\<rparr>"

text \<open>Write a frame to the pipe; whether it went out.\<close>

definition send_frame :: "'eng session_env \<Rightarrow> server_frame \<Rightarrow> 'eng session \<Rightarrow> bool \<times> 'eng session" where
  "send_frame env f s =
     (case write_frame (se_to_vec env) f of
        Inl e \<Rightarrow> (False, s)
      | Inr bs \<Rightarrow> if se_write env bs then (True, s\<lparr>ss_sent := ss_sent s @ [bs]\<rparr>) else (False, s))"

text \<open>Every frame read takes at least its length prefix from the stream.\<close>

fun stream_size :: "stream \<Rightarrow> nat" where
  "stream_size [] = 0"
| "stream_size (Data bs # src) = Suc (length bs) + stream_size src"
| "stream_size (_ # src) = Suc (stream_size src)"

lemma gather_size: "stream_size (snd (gather n src got)) \<le> stream_size src"
proof (induction n src got rule: gather.induct)
  case (5 n bs src got)
  then show ?case by (cases "bs = []"; cases "length bs \<le> Suc n") auto
qed auto

lemma gather_takes:
  "gather n src got = (Full bs, src') \<Longrightarrow> 0 < n \<Longrightarrow> stream_size src' < stream_size src"
proof (cases src)
  case (Cons c rest)
  assume g: "gather n src got = (Full bs, src')" "0 < n"
  then obtain k where n: "n = Suc k" by (cases n) auto
  show ?thesis
  proof (cases c)
    case (Data d)
    show ?thesis
    proof (cases "d = [] \<or> length d \<le> Suc k")
      case True
      with g Data Cons n have "gather (Suc k - length d) rest (got @ d) = (Full bs, src')"
        by (auto split: if_splits)
      with gather_size [of "Suc k - length d" rest "got @ d"] show ?thesis by (simp add: Cons Data)
    qed (use g Data Cons n in auto)
  next
    case Interrupted
    with g Cons n have "gather (Suc k) rest got = (Full bs, src')" by simp
    with gather_size [of "Suc k" rest got] show ?thesis by (simp add: Cons Interrupted)
  qed (use g Cons n in auto)
qed (cases n; auto)

lemma read_frame_takes:
  "read_frame fs src = (Inr (Some f), src') \<Longrightarrow> stream_size src' < stream_size src"
proof -
  assume r: "read_frame fs src = (Inr (Some f), src')"
  obtain len_buf src1 where len: "gather 4 src [] = (Full len_buf, src1)"
    using r by (auto simp: read_frame_def Let_def split: gathered.splits prod.splits if_splits)
  let ?n = "unat (word_of_nat (le_nat len_buf) :: u32)"
  have "src' = snd (gather ?n src1 [])"
    using r by (auto simp: read_frame_def len Let_def read_exact_or_truncated_def
        split: gathered.splits prod.splits if_splits sum.splits option.splits)
  then show ?thesis using gather_takes [OF len] gather_size [of ?n src1 "[]"] by simp
qed

function session_loop ::
    "'eng session_env \<Rightarrow> plugin_manifest \<Rightarrow> client_identity \<Rightarrow> str \<Rightarrow> stream \<Rightarrow>
     'eng session \<Rightarrow> 'eng session" where
  "session_loop env m identity sid src s =
     (case read_frame (se_from_slice env) src of
        (Inr (Some (Event ev)), src) \<Rightarrow>
          session_loop env m identity sid src (emit_event env m identity sid ev (count_received s))
      | (Inr (Some (Heartbeat _)), src) \<Rightarrow> session_loop env m identity sid src s
      | (Inr (Some (Hello _)), src) \<Rightarrow> count_invalid s
      | (Inr (Some Goodbye), src) \<Rightarrow> s
      | (Inr None, src) \<Rightarrow> s
      | (Inl e, src) \<Rightarrow> count_invalid s)"
  by pat_completeness auto
termination
  by (relation "measure (\<lambda>(env, m, identity, sid, src, s). stream_size src)")
     (auto dest: read_frame_takes [OF sym])

declare session_loop.simps [simp del]

text \<open>The message a failed write of the acknowledgement carries is dropped by the caller and left out.\<close>

definition handle_session ::
    "'eng session_env \<Rightarrow> manifest_store \<Rightarrow> pipe_client \<Rightarrow> u64 \<Rightarrow> u64 \<Rightarrow> stream \<Rightarrow>
     'eng session \<Rightarrow> unit outcome \<times> 'eng session" where
  "handle_session env store client n ns src s =
     (case identify_client client of
        Ok identity \<Rightarrow>
          (case read_frame (se_from_slice env) src of
             (Inr (Some (Hello h)), src) \<Rightarrow>
               (case validate_handshake (se_host env) h identity store of
                  Inl reason \<Rightarrow>
                    (Err (''rejected: '' @ reason_str reason),
                     snd (send_frame env (Reject reason) (count_rejected s)))
                | Inr m \<Rightarrow>
                    let sid = gen_session_id n ns (ci_pid identity);
                        ack = \<lparr>ack_session_id = sid, ack_server_version = se_version env,
                               ack_max_payload_bytes = MAX_FRAME_BYTES,
                               ack_heartbeat_sec = HEARTBEAT_SEC\<rparr>;
                        (sent, s) = send_frame env (HelloAck ack) s
                    in if \<not> sent then (Err ''write HelloAck'', s)
                       else (Ok (), session_loop env m identity sid src s))
           | _ \<Rightarrow>
               (Err ''bad first frame'', snd (send_frame env (Reject BadHandshake) (count_rejected s))))
      | Err e \<Rightarrow> (Err (''identity: '' @ e), s)
      | Undefined \<Rightarrow> (Undefined, s)
      | Panicked \<Rightarrow> (Panicked, s))"

section \<open>Properties\<close>

lemma send_frame_keeps [simp]:
  "ss_spool (snd (send_frame env f s)) = ss_spool s"
  "ss_detection (snd (send_frame env f s)) = ss_detection s"
  "ss_stdout (snd (send_frame env f s)) = ss_stdout s"
  "ss_stats (snd (send_frame env f s)) = ss_stats s"
  "ss_count (snd (send_frame env f s)) = ss_count s"
  by (simp_all add: send_frame_def split: sum.splits)

lemma count_rejected_keeps [simp]:
  "ss_spool (count_rejected s) = ss_spool s" "ss_detection (count_rejected s) = ss_detection s"
  "ss_stdout (count_rejected s) = ss_stdout s" "ss_sent (count_rejected s) = ss_sent s"
  by (simp_all add: count_rejected_def)

text \<open>C21. Nothing a plugin sends has any effect before the handshake succeeded: a session whose first
frame is not a hello, or whose hello fails a check, leaves spool, detection and console untouched,
is counted as rejected, and is told the reason of the first failed check (when the pipe still takes a
write).\<close>

theorem rejected_session_has_no_effect:
  assumes "identify_client client = Ok identity"
    and "read_frame (se_from_slice env) src = (r, src')"
    and "reason = (case r of Inr (Some (Hello h)) \<Rightarrow>
           (case validate_handshake (se_host env) h identity store of Inl e \<Rightarrow> Some e | Inr _ \<Rightarrow> None)
         | _ \<Rightarrow> Some BadHandshake)"
    and "reason = Some e"
    and "write_frame (se_to_vec env) (Reject e) = Inr bs"
  shows "let s' = snd (handle_session env store client n ns src s) in
    ss_spool s' = ss_spool s \<and> ss_detection s' = ss_detection s \<and> ss_stdout s' = ss_stdout s \<and>
    ss_sent s' = ss_sent s @ (if se_write env bs then [bs] else []) \<and>
    ps_sessions_rejected (ss_stats s') = ps_sessions_rejected (ss_stats s) + 1"
proof -
  have "snd (handle_session env store client n ns src s) =
      snd (send_frame env (Reject e) (count_rejected s))"
    using assms(3,4)
    by (auto simp: handle_session_def assms(1,2) split: sum.splits option.splits client_frame.splits)
  then show ?thesis by (simp add: Let_def send_frame_def assms(5) count_rejected_def)
qed

text \<open>The events of a sequence of frames, and a session that takes them one by one.\<close>

fun frame_events :: "client_frame list \<Rightarrow> plugin_event list" where
  "frame_events [] = []"
| "frame_events (Event ev # fs) = ev # frame_events fs"
| "frame_events (_ # fs) = frame_events fs"

definition steady :: "client_frame \<Rightarrow> bool" where
  "steady f \<longleftrightarrow> (case f of Event _ \<Rightarrow> True | Heartbeat _ \<Rightarrow> True | _ \<Rightarrow> False)"

definition emit_all ::
    "'eng session_env \<Rightarrow> plugin_manifest \<Rightarrow> client_identity \<Rightarrow> str \<Rightarrow> plugin_event list \<Rightarrow>
     'eng session \<Rightarrow> 'eng session" where
  "emit_all env m identity sid evs s =
     fold (\<lambda>ev s. emit_event env m identity sid ev (count_received s)) evs s"

lemma session_loop_smooth:
  assumes "smooth src" and "stream_bytes src = concat (map frame_bytes bodies)"
    and "\<forall>b\<in>set bodies. length b \<le> unat MAX_FRAME_BYTES"
    and "map (\<lambda>b. Option.bind (se_from_slice env b) client_frame_of_json) bodies = map Some fs"
    and "\<forall>f\<in>set fs. steady f"
  shows "session_loop env m identity sid src s = emit_all env m identity sid (frame_events fs) s"
  using assms
proof (induction bodies arbitrary: src fs s)
  case Nil
  from gather_end [of src 4 "[]"] Nil obtain src' where "gather 4 src [] = (Closed_after [], src')"
    by auto
  then show ?case using Nil
    by (simp add: session_loop.simps [of env m identity sid src] read_frame_def emit_all_def)
next
  case (Cons b bodies)
  then obtain f fs' where f: "fs = f # fs'"
    "Option.bind (se_from_slice env b) client_frame_of_json = Some f" by (cases fs) auto
  obtain src' where src': "smooth src'" "stream_bytes src' = concat (map frame_bytes bodies)"
    "read_frame (se_from_slice env) src = (Inr (Some f), src')"
    using read_frame_smooth [of src b "concat (map frame_bytes bodies)" "se_from_slice env"] Cons.prems f
    by auto
  have rest: "map (\<lambda>b. Option.bind (se_from_slice env b) client_frame_of_json) bodies = map Some fs'"
    "\<forall>f\<in>set fs'. steady f" using Cons.prems f(1) by auto
  have "steady f" using Cons.prems f(1) by simp
  then consider ev where "f = Event ev" | q where "f = Heartbeat q"
    by (cases f) (auto simp: steady_def)
  then show ?case
    using Cons.IH [OF src'(1,2) _ rest] Cons.prems(3) f(1)
    by cases (simp_all add: session_loop.simps [of env m identity sid src] src'(3) emit_all_def)
qed

lemma emit_event_spool:
  assumes "se_to_vec env (event_object (se_clock env (ss_count s)) m identity sid ev) = Ok b"
  shows "ss_spool (emit_event env m identity sid ev s) =
      (if allows (se_filter env) ''plugin'' ''plugin_event''
       then submit_to (se_spool_config env) (b @ [10]) (ss_spool s) else ss_spool s)"
    and "ss_count (emit_event env m identity sid ev s) = ss_count s"
    and "ss_stats (emit_event env m identity sid ev s) = ss_stats s"
  using assms by (simp_all add: emit_event_def Let_def)

lemma emit_event_count [simp]:
  "ss_count (emit_event env m identity sid ev s) = ss_count s"
  "ss_stats (emit_event env m identity sid ev s) = ss_stats s"
  "ss_sent (emit_event env m identity sid ev s) = ss_sent s"
  by (simp_all add: emit_event_def Let_def split: outcome.splits)

lemma emit_all_received:
  "ps_events_received (ss_stats (emit_all env m i sid evs s)) =
     ps_events_received (ss_stats s) + word_of_nat (length evs)"
  by (induction evs arbitrary: s) (simp_all add: emit_all_def count_received_def)

text \<open>The acknowledgement a session sends.\<close>

definition session_ack :: "'eng session_env \<Rightarrow> str \<Rightarrow> server_frame" where
  "session_ack env sid =
     HelloAck \<lparr>ack_session_id = sid, ack_server_version = se_version env,
       ack_max_payload_bytes = MAX_FRAME_BYTES, ack_heartbeat_sec = HEARTBEAT_SEC\<rparr>"

text \<open>C20. An accepted session loses nothing and reorders nothing: when the hello is accepted and
acknowledged, then however the pipe cuts the byte stream, the session has emitted exactly the events
framed in it, one by one in order, under the manifest, the identity and the session id of this
session, has counted each, and has ended cleanly.\<close>

theorem session_delivers:
  assumes "identify_client client = Ok identity"
    and "smooth src" and "stream_bytes src = concat (map frame_bytes (hb # bodies))"
    and "\<forall>b\<in>set (hb # bodies). length b \<le> unat MAX_FRAME_BYTES"
    and "map (\<lambda>b. Option.bind (se_from_slice env b) client_frame_of_json) (hb # bodies) =
      map Some (Hello h # fs)"
    and "\<forall>f\<in>set fs. steady f"
    and "validate_handshake (se_host env) h identity store = Inr m"
    and "write_frame (se_to_vec env) (session_ack env (gen_session_id n ns (ci_pid identity))) = Inr bs"
    and "se_write env bs"
  shows "\<exists>s'. handle_session env store client n ns src s = (Ok (), s') \<and>
    s' = emit_all env m identity (gen_session_id n ns (ci_pid identity)) (frame_events fs)
           (s\<lparr>ss_sent := ss_sent s @ [bs]\<rparr>) \<and>
    ps_events_received (ss_stats s') =
      ps_events_received (ss_stats s) + word_of_nat (length (frame_events fs))"
proof -
  let ?sid = "gen_session_id n ns (ci_pid identity)"
  obtain src' where src': "smooth src'" "stream_bytes src' = concat (map frame_bytes bodies)"
    "read_frame (se_from_slice env) src = (Inr (Some (Hello h)), src')"
    using read_frame_smooth [of src hb "concat (map frame_bytes bodies)" "se_from_slice env"] assms(2-5)
    by auto
  have loop: "session_loop env m identity ?sid src' s' = emit_all env m identity ?sid (frame_events fs) s'"
    for s' using assms(4-6) by (intro session_loop_smooth [OF src'(1,2)]) auto
  have "send_frame env (session_ack env ?sid) s = (True, s\<lparr>ss_sent := ss_sent s @ [bs]\<rparr>)"
    using assms(8,9) by (simp add: send_frame_def)
  then show ?thesis
    by (simp add: handle_session_def assms(1,7) src'(3) Let_def session_ack_def loop emit_all_received)
qed

text \<open>Attribution cannot be forged: whatever event a plugin sends, payload keys and XML fields
included, the record that is written names the plugin id and name of the verified manifest, the process
id the kernel reported, the session id, and the agent's own source, module, type and time; only the
sequence number, the kind, the claimed time and the \<open>raw\<close> block depend on the event.\<close>

theorem attribution_from_session:
  "json_get ''plugin_id'' (event_object now m i sid ev) = Some (JStr (pm_plugin_id m)) \<and>
   json_get ''plugin_name'' (event_object now m i sid ev) = Some (JStr (pm_name m)) \<and>
   json_get ''plugin_pid'' (event_object now m i sid ev) = Some (JInt (uint (ci_pid i))) \<and>
   json_get ''session_id'' (event_object now m i sid ev) = Some (JStr sid) \<and>
   (k \<in> {''seq'', ''kind'', ''plugin_ts_unix_ns'', ''raw''} \<or>
    json_get k (event_object now m i sid ev) = json_get k (event_object now m i sid ev'))"
  by (auto simp: event_object_def)

text \<open>For plugin events the emission filter gates detection too: while the filter leaves out
\<open>plugin_event\<close>, no event of any kind reaches the rules, whatever they match, unlike kernel events,
which detection always sees.\<close>

theorem plugin_filter_gates_detection:
  assumes "\<not> allows (se_filter env) ''plugin'' ''plugin_event''"
  shows "ss_detection (emit_all env m i sid evs s) = ss_detection s"
proof (induction evs arbitrary: s)
  case (Cons ev evs)
  then show ?case using assms by (simp add: emit_all_def emit_event_def count_received_def)
qed (simp add: emit_all_def)

section \<open>Examples\<close>

definition sample_event_json :: json where
  "sample_event_json = JObj [(''type'', JStr ''event''), (''seq'', JInt 1), (''ts_unix_ns'', JInt 5),
     (''kind'', JStr ''login''), (''payload'', JObj [])]"

definition sample_hello_json :: json where
  "sample_hello_json = JObj [(''type'', JStr ''hello''), (''plugin_id'', JStr ''p1''),
     (''plugin_version'', JStr ''1.0''), (''schema_version'', JInt 1)]"

definition sample_env :: "event_filter option \<Rightarrow> unit session_env" where
  "sample_env flt = \<lparr>se_host = sample_host,
     se_from_slice = (\<lambda>b. if b = [1] then Some sample_hello_json
       else if b = [2] then Some sample_event_json else None),
     se_to_vec = (\<lambda>j. Ok [7]), se_write = (\<lambda>b. True), se_filter = flt,
     se_spool_config = sample_config, se_process_event = (\<lambda>ev e. ([], e)), se_as_f64 = (\<lambda>i. 0),
     se_clock = (\<lambda>n. 0), se_now_iso8601 = ''now'', se_now = 0, se_console_output = True,
     se_version = ''0.1''\<rparr>"

definition sample_client :: pipe_client where
  "sample_client = \<lparr>GetNamedPipeClientProcessId = Inr 77, OpenProcess = (\<lambda>p. None),
     QueryFullProcessImageName = (\<lambda>p. Inr (map (\<lambda>c. word_of_nat (of_char c)) ''c:/ACME.exe''))\<rparr>"

definition sample_session :: "unit session" where
  "sample_session = \<lparr>ss_stats = \<lparr>ps_sessions_rejected = 0, ps_events_received = 0,
       ps_events_invalid = 0\<rparr>, ss_spool = None, ss_detection = None, ss_stdout = [], ss_sent = [],
     ss_count = 0\<rparr>"

lemma sample_frames:
  "client_frame_of_json sample_hello_json = Some (Hello sample_hello)"
  "\<exists>ev. client_frame_of_json sample_event_json = Some (Event ev)"
  by (simp add: client_frame_of_json_def sample_hello_json_def get_str_def hello_of_json_def
        get_word_def get_u64_def sample_hello_def)
     (simp add: client_frame_of_json_def sample_event_json_def get_str_def event_of_json_def
        get_word_def get_u64_def)

lemma sample_identified: "identify_client sample_client = Ok sample_identity"
  by (simp add: identify_client_def sample_client_def sample_identity_def from_utf16_lossy_ascii)
     code_simp

theorem session_delivers_witness:
  "\<exists>s'. handle_session (sample_env None) sample_store sample_client 0 0
      [Data [1, 0], Interrupted, Data [0, 0, 1, 1, 0, 0, 0], Data [2]] sample_session = (Ok (), s') \<and>
    ps_events_received (ss_stats s') = 1"
proof -
  obtain ev where ev: "client_frame_of_json sample_event_json = Some (Event ev)"
    using sample_frames(2) by blast
  have bytes: "stream_bytes [Data [1, 0], Interrupted, Data [0, 0, 1, 1, 0, 0, 0], Data [2]] =
      concat (map frame_bytes ([1] # [[2]]))" by code_simp
  have ack: "write_frame (se_to_vec (sample_env None)) f = Inr (frame_bytes [7])" for f
    by (simp add: write_frame_def sample_env_def MAX_FRAME_BYTES_def)
  have accepted: "validate_handshake (se_host (sample_env None)) sample_hello sample_identity
      sample_store = Inr sample_enrolled" using sample_accepted by (simp add: sample_env_def)
  have parsed: "map (\<lambda>b. Option.bind (se_from_slice (sample_env None) b) client_frame_of_json)
      ([1] # [[2]]) = map Some (Hello sample_hello # [Event ev])"
    by (simp add: sample_env_def sample_frames(1) ev)
  show ?thesis
    using session_delivers [OF sample_identified _ bytes _ parsed _ accepted ack]
    by (fastforce simp: MAX_FRAME_BYTES_def steady_def sample_env_def sample_session_def)
qed

theorem rejected_session_has_no_effect_witness:
  "ss_sent (snd (handle_session (sample_env None) empty_store sample_client 0 0
      [Data (frame_bytes [1])] sample_session)) = [frame_bytes [7]]"
proof -
  have bytes: "stream_bytes [Data (frame_bytes [1])] = frame_bytes [1] @ []" by simp
  obtain src' where "read_frame (se_from_slice (sample_env None)) [Data (frame_bytes [1])] =
      (Inr (Some (Hello sample_hello)), src')"
    using read_frame_smooth [OF _ bytes, of "se_from_slice (sample_env None)"]
    by (auto simp: frame_bytes_def MAX_FRAME_BYTES_def sample_env_def sample_frames(1))
  moreover have "validate_handshake (se_host (sample_env None)) sample_hello sample_identity empty_store
      = Inl UnknownPluginId"
    by (simp add: validate_handshake_def sample_hello_def SCHEMA_VERSION_def store_get_def empty_store_def)
  moreover have "write_frame (se_to_vec (sample_env None)) f = Inr (frame_bytes [7])" for f
    by (simp add: write_frame_def sample_env_def MAX_FRAME_BYTES_def)
  ultimately have "let s' = snd (handle_session (sample_env None) empty_store sample_client 0 0
      [Data (frame_bytes [1])] sample_session) in
    ss_spool s' = ss_spool sample_session \<and> ss_detection s' = ss_detection sample_session \<and>
    ss_stdout s' = ss_stdout sample_session \<and> ss_sent s' = ss_sent sample_session @
      (if se_write (sample_env None) (frame_bytes [7]) then [frame_bytes [7]] else []) \<and>
    ps_sessions_rejected (ss_stats s') = ps_sessions_rejected (ss_stats sample_session) + 1"
    by (intro rejected_session_has_no_effect [OF sample_identified _ refl]) auto
  then show ?thesis by (simp add: Let_def sample_env_def sample_session_def)
qed

theorem plugin_filter_gates_detection_witness:
  "ss_detection (emit_all (sample_env (Some (from_section \<lparr>sec_modules = [''kernel_callback''], sec_event_types = []\<rparr>)))
     sample_enrolled sample_identity ''s-1''
     [\<lparr>ev_seq = 1, ev_ts_unix_ns = 2, ev_kind = ''k'', ev_payload = JNull\<rparr>]
     (sample_session\<lparr>ss_detection := Some \<lparr>dt_engine = (), dt_alerts = None, dt_log = []\<rparr>\<rparr>)) =
   Some \<lparr>dt_engine = (), dt_alerts = None, dt_log = []\<rparr>"
  by (subst plugin_filter_gates_detection) (simp_all add: sample_env_def sample_session_def allows_def
      filter_allows_def from_section_def)

end
