(* ===== verification/Plugin_Server.thy ===== *)
theory Plugin_Server
  imports Prelude
begin

text \<open>
  The accept loop of the plugin server and its session counter (\<open>accept_loop\<close> of
  \<open>src/src/plugin/server.rs\<close>), as a step relation: the acceptor's two atomic operations on the shared
  counter are separate steps, between which any worker may end its session; and the periodic summary
  of the counters (\<open>stats_loop\<close>).
\<close>

definition MAX_CONCURRENT_SESSIONS :: nat where "MAX_CONCURRENT_SESSIONS = 64"

text \<open>\<open>Counted n\<close>: the acceptor has added itself to the counter and was told it stood at \<open>n\<close>.\<close>

datatype acceptor = Waiting | Counted nat

record server =
  sv_active :: u64
  sv_workers :: nat
  sv_acceptor :: acceptor
  sv_accepted :: u64
  sv_rejected :: u64

definition server_start :: server where
  "server_start = \<lparr>sv_active = 0, sv_workers = 0, sv_acceptor = Waiting, sv_accepted = 0, sv_rejected = 0\<rparr>"

datatype server_event = Connect | Refuse | Spawn | Spawn_fails | Session_ends

text \<open>\<open>fetch_add\<close> and \<open>fetch_sub\<close> wrap around, as on a 64-bit target.\<close>

inductive server_step :: "server_event \<Rightarrow> server \<Rightarrow> server \<Rightarrow> bool" where
  connect: "sv_acceptor s = Waiting \<Longrightarrow>
     server_step Connect s (s\<lparr>sv_accepted := sv_accepted s + 1, sv_active := sv_active s + 1,
       sv_acceptor := Counted (unat (sv_active s))\<rparr>)"
| refuse: "sv_acceptor s = Counted n \<Longrightarrow> MAX_CONCURRENT_SESSIONS \<le> n \<Longrightarrow>
     server_step Refuse s (s\<lparr>sv_active := sv_active s - 1, sv_rejected := sv_rejected s + 1,
       sv_acceptor := Waiting\<rparr>)"
| spawn: "sv_acceptor s = Counted n \<Longrightarrow> n < MAX_CONCURRENT_SESSIONS \<Longrightarrow>
     server_step Spawn s (s\<lparr>sv_workers := Suc (sv_workers s), sv_acceptor := Waiting\<rparr>)"
| spawn_fails: "sv_acceptor s = Counted n \<Longrightarrow> n < MAX_CONCURRENT_SESSIONS \<Longrightarrow>
     server_step Spawn_fails s (s\<lparr>sv_active := sv_active s - 1, sv_acceptor := Waiting\<rparr>)"
| session_ends: "0 < sv_workers s \<Longrightarrow>
     server_step Session_ends s (s\<lparr>sv_workers := sv_workers s - 1, sv_active := sv_active s - 1\<rparr>)"

inductive_cases connectE: "server_step Connect s s'"
inductive_cases refuseE: "server_step Refuse s s'"
inductive_simps spawn_iff: "server_step Spawn s s'"

inductive server_run :: "server_event list \<Rightarrow> server \<Rightarrow> server \<Rightarrow> bool" where
  stop: "server_run [] s s"
| more: "server_step e s s' \<Longrightarrow> server_run es s' s'' \<Longrightarrow> server_run (e # es) s s''"

inductive_cases server_run_ConsE: "server_run (e # es) s s'"
inductive_simps server_run_Nil [simp]: "server_run [] s s'"

text \<open>The counter is the number of workers, plus one while the acceptor holds a place for a client; and
a claim that was counted below the limit is still below it when the worker starts.\<close>

definition server_inv :: "server \<Rightarrow> bool" where
  "server_inv s \<longleftrightarrow>
     sv_workers s \<le> MAX_CONCURRENT_SESSIONS \<and>
     (case sv_acceptor s of
        Waiting \<Rightarrow> unat (sv_active s) = sv_workers s
      | Counted n \<Rightarrow> unat (sv_active s) = Suc (sv_workers s) \<and> sv_workers s \<le> n \<and>
          n \<le> MAX_CONCURRENT_SESSIONS)"

lemma unat_plus_one: "unat w < 100 \<Longrightarrow> unat (w + 1) = Suc (unat w)" for w :: u64
  by (simp add: unat_word_ariths)

lemma unat_minus_one_pos: "unat w = Suc k \<Longrightarrow> unat (w - 1) = k" for w :: u64
proof -
  assume w: "unat w = Suc k"
  then have "1 \<le> w" by (metis One_nat_def unat_eq_zero unsigned_1 word_le_nat_alt le_add1 plus_1_eq_Suc)
  with w show ?thesis by (simp add: unat_sub)
qed

lemma server_step_inv: "server_step e s s' \<Longrightarrow> server_inv s \<Longrightarrow> server_inv s'"
proof (induction rule: server_step.induct)
  case (connect s)
  then show ?case by (auto simp: server_inv_def MAX_CONCURRENT_SESSIONS_def unat_plus_one)
next
  case (refuse s n)
  then show ?case by (auto simp: server_inv_def unat_minus_one_pos)
next
  case (spawn s n)
  then show ?case by (auto simp: server_inv_def)
next
  case (spawn_fails s n)
  then show ?case by (auto simp: server_inv_def unat_minus_one_pos)
next
  case (session_ends s)
  then obtain k where "sv_workers s = Suc k" by (cases "sv_workers s") auto
  with session_ends show ?case
    by (auto simp: server_inv_def unat_minus_one_pos split: acceptor.splits)
qed

lemma server_run_inv: "server_run es s s' \<Longrightarrow> server_inv s \<Longrightarrow> server_inv s'"
  by (induction rule: server_run.induct) (auto intro: server_step_inv)

lemma server_start_inv: "server_inv server_start"
  by (simp add: server_inv_def server_start_def)

lemma server_run_append:
  "server_run es s s' \<Longrightarrow> server_run es' s' s'' \<Longrightarrow> server_run (es @ es') s s''"
  by (induction rule: server_run.induct) (auto intro: server_run.more)

text \<open>C22. At most 64 plugin sessions run at any time, whatever the interleaving of clients connecting,
threads failing to start and sessions ending; the shared counter never underflows, returning to the
exact number of sessions whenever the acceptor is idle; and a client is refused only when 64 sessions
were running at the moment it was counted.\<close>

theorem sessions_bounded:
  assumes "server_run es server_start s"
  shows "sv_workers s \<le> 64 \<and> unat (sv_active s) \<le> 65 \<and>
    (sv_acceptor s = Waiting \<longrightarrow> unat (sv_active s) = sv_workers s) \<and>
    (\<forall>s1 s2. server_step Connect s s1 \<and> server_step Refuse s1 s2 \<longrightarrow> sv_workers s = 64)"
proof -
  have inv: "server_inv s" using server_run_inv [OF assms server_start_inv] .
  have "sv_workers s = 64" if "server_step Connect s s1" "server_step Refuse s1 s2" for s1 s2
    using that inv
    by (auto elim!: connectE refuseE simp: server_inv_def MAX_CONCURRENT_SESSIONS_def)
  moreover have "sv_workers s \<le> 64 \<and> unat (sv_active s) \<le> 65 \<and>
      (sv_acceptor s = Waiting \<longrightarrow> unat (sv_active s) = sv_workers s)"
    using inv by (auto simp: server_inv_def MAX_CONCURRENT_SESSIONS_def split: acceptor.splits)
  ultimately show ?thesis by blast
qed

theorem sessions_bounded_witness:
  "\<exists>s. server_run [Connect, Spawn, Connect, Session_ends, Spawn] server_start s \<and>
     sv_workers s = 1 \<and> unat (sv_active s) = sv_workers s"
proof -
  define s1 where "s1 = \<lparr>sv_active = 1, sv_workers = 0, sv_acceptor = Counted 0, sv_accepted = 1, sv_rejected = 0\<rparr>"
  define s2 where "s2 = \<lparr>sv_active = 1, sv_workers = 1, sv_acceptor = Waiting, sv_accepted = 1, sv_rejected = 0\<rparr>"
  define s3 where "s3 = \<lparr>sv_active = 2, sv_workers = 1, sv_acceptor = Counted 1, sv_accepted = 2, sv_rejected = 0\<rparr>"
  define s4 where "s4 = \<lparr>sv_active = 1, sv_workers = 0, sv_acceptor = Counted 1, sv_accepted = 2, sv_rejected = 0\<rparr>"
  define s5 where "s5 = \<lparr>sv_active = 1, sv_workers = 1, sv_acceptor = Waiting, sv_accepted = 2, sv_rejected = 0\<rparr>"
  note states = s1_def s2_def s3_def s4_def s5_def server_start_def MAX_CONCURRENT_SESSIONS_def
  have "server_step Connect server_start s1" "server_step Connect s2 s3"
    using server_step.connect [of server_start] server_step.connect [of s2] by (simp_all add: states)
  moreover have "server_step Spawn s1 s2" "server_step Spawn s4 s5"
    by (simp_all add: spawn_iff states)
  moreover have "server_step Session_ends s3 s4"
    using server_step.session_ends [of s3] by (simp add: states)
  ultimately have run: "server_run [Connect, Spawn, Connect, Session_ends, Spawn] server_start s5"
    by (blast intro: server_run.intros)
  have "sv_workers s5 = 1" "sv_acceptor s5 = Waiting" by (simp_all add: states)
  with sessions_bounded [OF run] run show ?thesis by (intro exI [of _ s5]) simp
qed

section \<open>The periodic summary\<close>

record tally =
  ty_accepted :: u64
  ty_received :: u64

text \<open>One tick: the line that is printed (the two deltas), if any, and the values remembered.\<close>

definition saturating_sub :: "u64 \<Rightarrow> u64 \<Rightarrow> u64" where
  "saturating_sub a b = (if b \<le> a then a - b else 0)"

definition stats_tick :: "tally \<Rightarrow> nat \<Rightarrow> tally \<Rightarrow> (u64 \<times> u64) option \<times> tally" where
  "stats_tick cur active prev =
     (let accepted_delta = saturating_sub (ty_accepted cur) (ty_accepted prev);
          received_delta = saturating_sub (ty_received cur) (ty_received prev)
      in if accepted_delta = 0 \<and> received_delta = 0 \<and> active = 0 then (None, prev)
         else (Some (accepted_delta, received_delta), cur))"

text \<open>While the counters have not wrapped, the printed deltas add up to them: a suppressed line never
hides an event.\<close>

fun stats_run :: "(tally \<times> nat) list \<Rightarrow> tally \<Rightarrow> (u64 \<times> u64) list \<times> tally" where
  "stats_run [] prev = ([], prev)"
| "stats_run ((cur, active) # ts) prev =
     (let (out, prev) = stats_tick cur active prev; (outs, last) = stats_run ts prev
      in (case out of None \<Rightarrow> outs | Some d \<Rightarrow> d # outs, last))"

lemma stats_tick_cases:
  assumes "ty_received prev \<le> ty_received cur" and "ty_accepted prev \<le> ty_accepted cur"
  shows "(case stats_tick cur active prev of
      (None, p) \<Rightarrow> p = prev \<and> ty_received cur = ty_received prev \<and> ty_accepted cur = ty_accepted prev
    | (Some (a, r), p) \<Rightarrow> p = cur \<and> r = ty_received cur - ty_received prev \<and>
        a = ty_accepted cur - ty_accepted prev)"
  using assms by (auto simp: stats_tick_def saturating_sub_def Let_def)

fun rising :: "tally \<Rightarrow> (tally \<times> nat) list \<Rightarrow> bool" where
  "rising p [] = True"
| "rising p ((c, a) # ts) = (ty_received p \<le> ty_received c \<and> ty_accepted p \<le> ty_accepted c \<and> rising c ts)"

lemma stats_complete:
  "rising prev ts \<Longrightarrow>
     sum_list (map snd (fst (stats_run ts prev))) =
       ty_received (last (prev # map fst ts)) - ty_received prev"
proof (induction ts arbitrary: prev)
  case (Cons t ts)
  obtain cur active where t: "t = (cur, active)" by force
  have mono: "ty_received prev \<le> ty_received cur" "ty_accepted prev \<le> ty_accepted cur" "rising cur ts"
    using Cons.prems by (simp_all add: t)
  have rising_eq: "ty_received p = ty_received cur \<Longrightarrow> ty_accepted p = ty_accepted cur \<Longrightarrow> rising p ts" for p
    using mono(3) by (cases ts) auto
  show ?case
  proof (cases "fst (stats_tick cur active prev)")
    case None
    with stats_tick_cases [OF mono(1,2), of active]
    have tick: "stats_tick cur active prev = (None, prev)" "ty_received cur = ty_received prev"
      "ty_accepted cur = ty_accepted prev"
      by (auto split: prod.splits option.splits)
    with Cons.IH [of prev] rising_eq [of prev] show ?thesis
      by (cases ts) (auto simp: t Let_def split: prod.splits)
  next
    case (Some d)
    with stats_tick_cases [OF mono(1,2), of active]
    have tick: "\<exists>a. stats_tick cur active prev = (Some (a, ty_received cur - ty_received prev), cur)"
      by (auto split: prod.splits option.splits)
    with Cons.IH [OF mono(3)] show ?thesis
      by (auto simp: t Let_def split: prod.splits)
  qed
qed simp

end
