(* ===== verification/Backoff.thy ===== *)
theory Backoff
  imports Prelude
begin

text \<open>
  The contract two retry loops rely on, the shipper's (\<open>shipper/run.rs\<close>, with jitter) and the plugin
  supervisor's (\<open>plugin/supervisor.rs\<close>, without): a delay never exceeds the cap, and from any delay
  of at least two milliseconds the next one is half as long again, until three quarters of the cap
  are reached. Both providers interpret the locale; what follows from the contract is proved here.
\<close>

locale backoff_policy =
  fixes valid :: "'c \<Rightarrow> bool"
    and cap :: "'c \<Rightarrow> millis"
    and delay_after :: "'c \<Rightarrow> 'seed \<Rightarrow> millis \<Rightarrow> millis"
  assumes cap_min: "valid c \<Longrightarrow> 2 \<le> cap c"
    and capped: "valid c \<Longrightarrow> delay_after c r b \<le> cap c"
    and grows: "valid c \<Longrightarrow> 2 \<le> b \<Longrightarrow>
      min (b + b div 2) (cap c - cap c div 4) \<le> delay_after c r b"
begin

text \<open>The delay after a series of failures, each with its own seed.\<close>

definition delay_after_all :: "'c \<Rightarrow> 'seed list \<Rightarrow> millis \<Rightarrow> millis" where
  "delay_after_all c rs b = foldl (\<lambda>b r. delay_after c r b) b rs"

lemma plateau_min: "valid c \<Longrightarrow> 2 \<le> cap c - cap c div 4"
  using cap_min [of c] by linarith

lemma all_capped: "valid c \<Longrightarrow> b \<le> cap c \<Longrightarrow> delay_after_all c rs b \<le> cap c"
  by (induction rs arbitrary: b) (auto simp: delay_after_all_def capped)

lemma all_grow:
  assumes "valid c" and "2 \<le> b"
  shows "min (b + length rs) (cap c - cap c div 4) \<le> delay_after_all c rs b"
  using assms(2)
proof (induction rs arbitrary: b)
  case (Cons r rs)
  let ?b = "delay_after c r b"
  have step: "min (b + b div 2) (cap c - cap c div 4) \<le> ?b" by (rule grows [OF assms(1) Cons.prems])
  have "1 \<le> b div 2" using Cons.prems by simp
  with step plateau_min [OF assms(1)] Cons.prems
  have "2 \<le> ?b" and "min (Suc b) (cap c - cap c div 4) \<le> ?b" by linarith+
  with Cons.IH [of ?b] have "min (b + length (r # rs)) (cap c - cap c div 4) \<le> delay_after_all c rs ?b"
    unfolding list.size by linarith
  then show ?case by (simp add: delay_after_all_def)
qed (simp add: delay_after_all_def)

text \<open>After as many failures as the cap has milliseconds, the delays stay between three quarters of
the cap and the cap.\<close>

lemma settles:
  assumes "valid c" and "2 \<le> b" and "b \<le> cap c" and "cap c \<le> length rs"
  shows "cap c - cap c div 4 \<le> delay_after_all c rs b \<and> delay_after_all c rs b \<le> cap c"
  using all_grow [OF assms(1,2), of rs] all_capped [OF assms(1,3), of rs] assms(4) by linarith

end

end
