(* ===== verification/Supervisor.thy ===== *)
theory Supervisor
  imports Manifest Backoff
begin

text \<open>
  The plugin supervisor (\<open>src/src/plugin/supervisor.rs\<close>): one thread per auto-launched plugin spawns
  it, watches it and its manifest, and respawns it with exponential backoff; a watcher starts threads
  for manifests that appear later. Times are milliseconds; what a thread finds at each of its polls is
  a list of looks.
\<close>

definition MAX_BACKOFF :: millis where "MAX_BACKOFF = 60000"
definition INITIAL_BACKOFF :: millis where "INITIAL_BACKOFF = 1000"
definition STABLE_THRESHOLD :: millis where "STABLE_THRESHOLD = 300000"
definition SHUTDOWN_GRACE :: millis where "SHUTDOWN_GRACE = 5000"
definition MANIFEST_POLL :: millis where "MANIFEST_POLL = 5000"

definition next_backoff :: "millis \<Rightarrow> millis" where
  "next_backoff prev = (let next = 2 * prev in if MAX_BACKOFF < next then MAX_BACKOFF else next)"

section \<open>Reading the manifest again\<close>

datatype file_read = Not_found | Read_failure | Content bytes

datatype manifest_state =
  Unchanged | Changed plugin_manifest | Manifest_revoked | Manifest_missing | Manifest_error

definition read_manifest ::
    "(bytes \<Rightarrow> json option) \<Rightarrow> file_read \<Rightarrow> plugin_manifest \<Rightarrow> manifest_state" where
  "read_manifest from_slice f current =
     (case f of
        Not_found \<Rightarrow> Manifest_missing
      | Read_failure \<Rightarrow> Manifest_error
      | Content bs \<Rightarrow>
          (case Option.bind (from_slice bs) manifest_of_json of
             None \<Rightarrow> Manifest_error
           | Some m \<Rightarrow>
               if pm_revoked m then Manifest_revoked
               else if pm_expected_sha256 m \<noteq> pm_expected_sha256 current \<or>
                 pm_expected_path m \<noteq> pm_expected_path current then Changed m
               else Unchanged))"

section \<open>Waiting for the child\<close>

datatype try_wait = Still_running | Exited u32 | Wait_failed

text \<open>One turn of the wait loop: the time since the spawn, and what the turn would find.\<close>

record look =
  lk_time :: millis
  lk_wait :: try_wait
  lk_shutdown :: bool
  lk_manifest :: file_read

datatype wait_outcome =
  Child_exited "u32 option" | Revoked_outcome | Updated plugin_manifest | Shutdown_outcome

text \<open>The outcome and the look that decided it; \<open>None\<close> while no look has.\<close>

fun wait_for_exit_or_change ::
    "(bytes \<Rightarrow> json option) \<Rightarrow> plugin_manifest \<Rightarrow> millis \<Rightarrow> look list \<Rightarrow>
     (wait_outcome \<times> millis) option" where
  "wait_for_exit_or_change from_slice current checked [] = None"
| "wait_for_exit_or_change from_slice current checked (k # ks) =
     (case lk_wait k of
        Exited status \<Rightarrow> Some (Child_exited (Some status), lk_time k)
      | Wait_failed \<Rightarrow> Some (Child_exited None, lk_time k)
      | Still_running \<Rightarrow>
          if lk_shutdown k then Some (Shutdown_outcome, lk_time k)
          else if MANIFEST_POLL \<le> lk_time k - checked then
            (case read_manifest from_slice (lk_manifest k) current of
               Manifest_missing \<Rightarrow> Some (Revoked_outcome, lk_time k)
             | Manifest_revoked \<Rightarrow> Some (Revoked_outcome, lk_time k)
             | Changed m \<Rightarrow> Some (Updated m, lk_time k)
             | _ \<Rightarrow> wait_for_exit_or_change from_slice current (lk_time k) ks)
          else wait_for_exit_or_change from_slice current checked ks)"

text \<open>After a shutdown request at \<open>start\<close>: whether the child had to be killed.\<close>

fun shutdown_grace :: "millis \<Rightarrow> look list \<Rightarrow> bool option" where
  "shutdown_grace start [] = None"
| "shutdown_grace start (k # ks) =
     (if start + SHUTDOWN_GRACE \<le> lk_time k then Some True
      else case lk_wait k of Exited _ \<Rightarrow> Some False | _ \<Rightarrow> shutdown_grace start ks)"

section \<open>The supervision loop\<close>

text \<open>What one pass meets: the spawn fails, or the child lives through some looks. \<open>go_on\<close> says that the
shutdown flag was not set at the checks after it (on exit, and during the backoff sleep).\<close>

datatype pass = Spawn_failed bool | Spawned "look list" bool

record supervision =
  su_current :: plugin_manifest
  su_backoff :: millis
  su_launched :: "(str \<times> (str \<times> str) list) list"
  su_delays :: "millis list"
  su_finished :: bool

text \<open>The environment of the child: the manifest's, then the plugin id, which replaces an entry whose
name is the same to the system (\<open>same\<close>).\<close>

definition child_env ::
    "(str \<Rightarrow> str \<Rightarrow> bool) \<Rightarrow> plugin_manifest \<Rightarrow> (str \<times> str) list" where
  "child_env same m =
     (let set_var = (\<lambda>(k, v) e. filter (\<lambda>(k', v'). \<not> same k k') e @ [(k, v)])
      in set_var (''WEDR_PLUGIN_ID'', pm_plugin_id m) (fold set_var (pm_env m) []))"

definition back_off :: "bool \<Rightarrow> supervision \<Rightarrow> supervision" where
  "back_off go_on s =
     (let s = s\<lparr>su_delays := su_delays s @ [su_backoff s]\<rparr> in
      if go_on then s\<lparr>su_backoff := next_backoff (su_backoff s)\<rparr> else s\<lparr>su_finished := True\<rparr>)"

definition supervise_pass ::
    "(bytes \<Rightarrow> json option) \<Rightarrow> (str \<Rightarrow> str \<Rightarrow> bool) \<Rightarrow> pass \<Rightarrow> supervision \<Rightarrow> supervision" where
  "supervise_pass from_slice same p s =
     (if su_finished s then s
      else case p of
        Spawn_failed go_on \<Rightarrow> back_off go_on s
      | Spawned looks go_on \<Rightarrow>
          let s = s\<lparr>su_launched := su_launched s @
                     [(pm_expected_path (su_current s), child_env same (su_current s))]\<rparr> in
          (case wait_for_exit_or_change from_slice (su_current s) 0 looks of
             None \<Rightarrow> s\<lparr>su_finished := True\<rparr>
           | Some (Child_exited _, alive) \<Rightarrow>
               back_off go_on (if STABLE_THRESHOLD \<le> alive then s\<lparr>su_backoff := INITIAL_BACKOFF\<rparr> else s)
           | Some (Updated m, _) \<Rightarrow> s\<lparr>su_current := m, su_backoff := INITIAL_BACKOFF\<rparr>
           | Some (Revoked_outcome, _) \<Rightarrow> s\<lparr>su_finished := True\<rparr>
           | Some (Shutdown_outcome, _) \<Rightarrow> s\<lparr>su_finished := True\<rparr>))"

definition supervise_one ::
    "(bytes \<Rightarrow> json option) \<Rightarrow> (str \<Rightarrow> str \<Rightarrow> bool) \<Rightarrow> pass list \<Rightarrow> plugin_manifest \<Rightarrow> supervision" where
  "supervise_one from_slice same ps initial =
     fold (supervise_pass from_slice same) ps
       \<lparr>su_current = initial, su_backoff = INITIAL_BACKOFF, su_launched = [], su_delays = [],
        su_finished = False\<rparr>"

section \<open>Backoff\<close>

interpretation supervisor_backoff: backoff_policy "\<lambda>c :: unit. True" "\<lambda>c. MAX_BACKOFF"
    "\<lambda>c (r :: unit) b. next_backoff b"
  by unfold_locales (auto simp: next_backoff_def MAX_BACKOFF_def Let_def)

lemma next_backoff_power:
  "(next_backoff ^^ k) INITIAL_BACKOFF = min (1000 * 2 ^ k) MAX_BACKOFF"
proof (induction k)
  case (Suc k)
  have "(next_backoff ^^ Suc k) INITIAL_BACKOFF = next_backoff (min (1000 * 2 ^ k) MAX_BACKOFF)"
    using Suc by simp
  also have "\<dots> = min (1000 * 2 ^ Suc k) MAX_BACKOFF"
    by (auto simp: next_backoff_def Let_def min_def MAX_BACKOFF_def)
  finally show ?case .
qed (simp add: INITIAL_BACKOFF_def MAX_BACKOFF_def)

text \<open>A child that fails: it cannot be spawned, or exits before it counts as stable, without its manifest
having been read (which happens 5 s after the spawn at the earliest).\<close>

fun short_lived :: "look list \<Rightarrow> bool" where
  "short_lived [] = False"
| "short_lived (k # ks) =
     (lk_time k < MANIFEST_POLL \<and>
      (if lk_wait k = Still_running then \<not> lk_shutdown k \<and> short_lived ks else True))"

fun crashes :: "pass \<Rightarrow> bool" where
  "crashes (Spawn_failed go_on) = go_on"
| "crashes (Spawned looks go_on) = (go_on \<and> short_lived looks)"

lemma wait_short_lived:
  "short_lived looks \<Longrightarrow>
     \<exists>st t. wait_for_exit_or_change fs cur 0 looks = Some (Child_exited st, t) \<and> t < MANIFEST_POLL"
  by (induction looks) (auto split: try_wait.splits if_splits)

text \<open>The launches of a series of crashing passes.\<close>

fun launches :: "pass list \<Rightarrow> nat" where
  "launches [] = 0"
| "launches (Spawn_failed g # ps) = launches ps"
| "launches (Spawned l g # ps) = Suc (launches ps)"

lemma crashing_pass:
  assumes "crashes p" and "\<not> su_finished s"
  shows "supervise_pass fs same p s = s\<lparr>su_launched := su_launched s @ replicate (launches [p])
      (pm_expected_path (su_current s), child_env same (su_current s)),
    su_delays := su_delays s @ [su_backoff s], su_backoff := next_backoff (su_backoff s)\<rparr>"
proof (cases p)
  case (Spawned looks go_on)
  then obtain st t where "wait_for_exit_or_change fs (su_current s) 0 looks = Some (Child_exited st, t)"
    "t < MANIFEST_POLL" using wait_short_lived assms(1) by fastforce
  then show ?thesis using assms Spawned
    by (simp add: supervise_pass_def back_off_def Let_def MANIFEST_POLL_def STABLE_THRESHOLD_def)
qed (use assms in \<open>simp add: supervise_pass_def back_off_def\<close>)

lemma crashing_passes:
  "\<forall>p\<in>set ps. crashes p \<Longrightarrow> \<not> su_finished s \<Longrightarrow>
     fold (supervise_pass fs same) ps s = s\<lparr>su_launched := su_launched s @ replicate (launches ps)
        (pm_expected_path (su_current s), child_env same (su_current s)),
      su_delays := su_delays s @ map (\<lambda>k. (next_backoff ^^ k) (su_backoff s)) [0..<length ps],
      su_backoff := (next_backoff ^^ length ps) (su_backoff s)\<rparr>"
proof (induction ps arbitrary: s)
  case (Cons p ps)
  have launches: "replicate (launches [p]) x @ replicate (launches ps) x = replicate (launches (p # ps)) x"
    for x :: "str \<times> (str \<times> str) list" by (cases p) simp_all
  have delays: "su_backoff s # map (\<lambda>k. (next_backoff ^^ k) (next_backoff (su_backoff s))) [0..<length ps]
      = map (\<lambda>k. (next_backoff ^^ k) (su_backoff s)) [0..<length (p # ps)]"
    by (simp add: upt_conv_Cons map_Suc_upt [symmetric] funpow_swap1 comp_def del: upt_Suc)
  show ?case
    using Cons.IH [of "supervise_pass fs same p s"] Cons.prems delays launches
    by (simp add: crashing_pass funpow_swap1)
qed simp

text \<open>Crash loops are slowed down as documented: while a plugin cannot be started or dies young, the
k-th restart waits 2^k seconds, at most one minute, without limit on the number of restarts.\<close>

theorem crash_backoff:
  assumes "\<forall>p\<in>set ps. crashes p"
  shows "su_delays (supervise_one fs same ps m) = map (\<lambda>k. min (1000 * 2 ^ k) 60000) [0..<length ps]"
  using crashing_passes [OF assms] next_backoff_power
  by (simp add: supervise_one_def MAX_BACKOFF_def)

text \<open>C39. A crash loop never looks at the manifest: as long as every child dies within five seconds of
its launch, or cannot be launched at all, the supervisor goes on starting the binary it was first given,
under its first environment, whatever the manifest on disk says by then: revoked, removed, or repaired.\<close>

theorem crash_loop_ignores_manifest:
  assumes "\<forall>p\<in>set ps. crashes p"
  shows "su_launched (supervise_one fs same ps m) =
      replicate (launches ps) (pm_expected_path m, child_env same m) \<and>
    su_current (supervise_one fs same ps m) = m \<and> \<not> su_finished (supervise_one fs same ps m)"
  using crashing_passes [OF assms] by (simp add: supervise_one_def)

section \<open>Reacting to the manifest\<close>

fun paced :: "millis \<Rightarrow> millis \<Rightarrow> look list \<Rightarrow> bool" where
  "paced gap prev [] = True"
| "paced gap prev (k # ks) =
     (prev \<le> lk_time k \<and> lk_time k \<le> prev + gap \<and> paced gap (lk_time k) ks)"

definition quiet :: "look \<Rightarrow> bool" where
  "quiet k \<longleftrightarrow> lk_wait k = Still_running \<and> \<not> lk_shutdown k"

lemma wait_quiet:
  assumes "quiet k"
  shows "wait_for_exit_or_change fs cur checked (k # ks) =
    (if checked + MANIFEST_POLL \<le> lk_time k then
       (case read_manifest fs (lk_manifest k) cur of
          Manifest_missing \<Rightarrow> Some (Revoked_outcome, lk_time k)
        | Manifest_revoked \<Rightarrow> Some (Revoked_outcome, lk_time k)
        | Changed m \<Rightarrow> Some (Updated m, lk_time k)
        | _ \<Rightarrow> wait_for_exit_or_change fs cur (lk_time k) ks)
     else wait_for_exit_or_change fs cur checked ks)"
proof -
  have "MANIFEST_POLL \<le> lk_time k - checked \<longleftrightarrow> checked + MANIFEST_POLL \<le> lk_time k"
    by (auto simp: MANIFEST_POLL_def)
  then show ?thesis using assms by (simp add: quiet_def)
qed

declare wait_for_exit_or_change.simps(2) [simp del]

lemma wait_reacts:
  assumes "\<forall>k\<in>set ks. quiet k" and "paced gap prev ks" and "checked \<le> T"
    and "prev < checked + MANIFEST_POLL"
    and "\<forall>k\<in>set ks. lk_time k < T \<longrightarrow> read_manifest fs (lk_manifest k) cur \<in> {Unchanged, Manifest_error}"
    and "\<forall>k\<in>set ks. T \<le> lk_time k \<longrightarrow>
      read_manifest fs (lk_manifest k) cur \<in> {Manifest_missing, Manifest_revoked}"
    and "\<exists>k\<in>set ks. T + MANIFEST_POLL \<le> lk_time k"
  shows "\<exists>t. wait_for_exit_or_change fs cur checked ks = Some (Revoked_outcome, t) \<and>
    T \<le> t \<and> t < T + MANIFEST_POLL + gap"
  using assms
proof (induction ks arbitrary: checked prev)
  case (Cons k ks)
  have k: "quiet k" "prev \<le> lk_time k" "lk_time k \<le> prev + gap" "paced gap (lk_time k) ks"
    using Cons.prems by simp_all
  show ?case
  proof (cases "checked + MANIFEST_POLL \<le> lk_time k")
    case True
    show ?thesis
    proof (cases "T \<le> lk_time k")
      case True
      moreover have "lk_time k < T + MANIFEST_POLL + gap" using k(3) Cons.prems(3,4) by simp
      ultimately show ?thesis
        using Cons.prems(6) \<open>checked + MANIFEST_POLL \<le> lk_time k\<close> by (auto simp: wait_quiet [OF k(1)])
    next
      case False
      have skip: "wait_for_exit_or_change fs cur checked (k # ks) =
          wait_for_exit_or_change fs cur (lk_time k) ks"
        using Cons.prems(5) True False by (auto simp: wait_quiet [OF k(1)])
      have "\<exists>t. wait_for_exit_or_change fs cur (lk_time k) ks = Some (Revoked_outcome, t) \<and>
          T \<le> t \<and> t < T + MANIFEST_POLL + gap"
        using Cons.prems False k(4) by (intro Cons.IH [of "lk_time k"]) (auto simp: MANIFEST_POLL_def)
      then show ?thesis by (simp only: skip)
    qed
  next
    case False
    have skip: "wait_for_exit_or_change fs cur checked (k # ks) =
        wait_for_exit_or_change fs cur checked ks"
      using False by (simp add: wait_quiet [OF k(1)])
    have "\<exists>t. wait_for_exit_or_change fs cur checked ks = Some (Revoked_outcome, t) \<and>
        T \<le> t \<and> t < T + MANIFEST_POLL + gap"
      using Cons.prems False k(4) by (intro Cons.IH [of "lk_time k"]) auto
    then show ?thesis by (simp only: skip)
  qed
qed simp

text \<open>A revocation reaches a running plugin: once its manifest is revoked or gone at time T, a child
that is up is killed and its supervision ended no later than five seconds after T plus the distance
between two polls, and never before T.\<close>

theorem revocation_latency:
  assumes "\<forall>k\<in>set ks. quiet k" and "paced gap 0 ks"
    and "\<forall>k\<in>set ks. lk_time k < T \<longrightarrow> read_manifest fs (lk_manifest k) cur \<in> {Unchanged, Manifest_error}"
    and "\<forall>k\<in>set ks. T \<le> lk_time k \<longrightarrow>
      read_manifest fs (lk_manifest k) cur \<in> {Manifest_missing, Manifest_revoked}"
    and "\<exists>k\<in>set ks. T + 5000 \<le> lk_time k"
  shows "\<exists>t. wait_for_exit_or_change fs cur 0 ks = Some (Revoked_outcome, t) \<and> T \<le> t \<and> t < T + 5000 + gap"
  using wait_reacts [OF assms(1,2), of 0 T fs cur] assms(3-5) by (simp add: MANIFEST_POLL_def)

section \<open>The watcher\<close>

record watcher =
  wa_supervised :: "str set"
  wa_threads :: "str list"
  wa_ending :: "str list"

definition to_launch :: "manifest_store \<Rightarrow> str set \<Rightarrow> plugin_manifest list" where
  "to_launch store supervised =
     filter (\<lambda>m. pm_auto_launch m \<and> \<not> pm_revoked m \<and> pm_plugin_id m \<notin> supervised)
       (map snd (ms_by_id store))"

definition scan_and_spawn :: "manifest_store \<Rightarrow> watcher \<Rightarrow> nat \<times> watcher" where
  "scan_and_spawn store w =
     (let ids = map pm_plugin_id (to_launch store (wa_supervised w))
      in (length ids, w\<lparr>wa_supervised := wa_supervised w \<union> set ids, wa_threads := wa_threads w @ ids\<rparr>))"

text \<open>A supervision thread ends in two steps, between which scans may happen: \<open>supervise_one\<close> returns,
then the entry is taken out of the shared set.\<close>

inductive watcher_step :: "(bytes \<Rightarrow> json option) \<Rightarrow> watcher \<Rightarrow> watcher \<Rightarrow> bool" for fs where
  scan: "load_dir fs seen dir = Inr store \<Longrightarrow> watcher_step fs w (snd (scan_and_spawn store w))"
| returns: "i \<in> set (wa_threads w) \<Longrightarrow>
     watcher_step fs w (w\<lparr>wa_threads := remove1 i (wa_threads w), wa_ending := i # wa_ending w\<rparr>)"
| cleanup: "i \<in> set (wa_ending w) \<Longrightarrow>
     watcher_step fs w (w\<lparr>wa_ending := remove1 i (wa_ending w),
       wa_supervised := wa_supervised w - {i}\<rparr>)"

definition watcher_inv :: "watcher \<Rightarrow> bool" where
  "watcher_inv w \<longleftrightarrow> distinct (wa_threads w @ wa_ending w) \<and>
     wa_supervised w = set (wa_threads w @ wa_ending w)"

lemma to_launch_ids:
  assumes "load_dir fs seen dir = Inr store"
  shows "distinct (map pm_plugin_id (to_launch store supervised)) \<and>
    set (map pm_plugin_id (to_launch store supervised)) \<inter> supervised = {}"
proof -
  have "map pm_plugin_id (map snd (ms_by_id store)) = map fst (ms_by_id store)"
    using loaded_sources [OF assms] by (auto intro!: map_cong)
  then have "distinct (map pm_plugin_id (map snd (ms_by_id store)))"
    using loaded_distinct [OF assms] by (simp only:)
  then have "distinct (map pm_plugin_id (to_launch store supervised))"
    unfolding to_launch_def by (rule distinct_map_filter)
  then show ?thesis by (auto simp: to_launch_def)
qed

lemma watcher_step_inv: "watcher_step fs w w' \<Longrightarrow> watcher_inv w \<Longrightarrow> watcher_inv w'"
proof (induction rule: watcher_step.induct)
  case (scan seen dir store w)
  from to_launch_ids [OF scan(1), of "wa_supervised w"] scan(2) show ?case
    by (auto simp: watcher_inv_def scan_and_spawn_def Let_def)
next
  case (returns i w)
  then show ?case by (auto simp: watcher_inv_def)
next
  case (cleanup i w)
  then show ?case by (auto simp: watcher_inv_def)
qed

inductive watcher_reach :: "(bytes \<Rightarrow> json option) \<Rightarrow> watcher \<Rightarrow> bool" for fs where
  boot: "watcher_reach fs \<lparr>wa_supervised = {}, wa_threads = [], wa_ending = []\<rparr>"
| later: "watcher_reach fs w \<Longrightarrow> watcher_step fs w w' \<Longrightarrow> watcher_reach fs w'"

lemma watcher_reach_inv: "watcher_reach fs w \<Longrightarrow> watcher_inv w"
proof (induction rule: watcher_reach.induct)
  case (later w w')
  from watcher_step_inv [OF later(2,3)] show ?case .
qed (simp add: watcher_inv_def)

text \<open>Never two supervisors for one plugin: however scans, ending threads and their late cleanup
interleave, no plugin id has two supervision threads, the shared set is exactly the plugins with a
thread, and a scan starts a thread for every enrolled, auto-launched, unrevoked plugin that has none
and for no other.\<close>

theorem one_supervisor_per_plugin:
  assumes "watcher_reach fs w" and "load_dir fs seen dir = Inr store"
  shows "distinct (wa_threads w) \<and> wa_supervised w = set (wa_threads w) \<union> set (wa_ending w) \<and>
    distinct (wa_threads (snd (scan_and_spawn store w))) \<and>
    set (wa_threads (snd (scan_and_spawn store w))) = set (wa_threads w) \<union>
      {i. i \<notin> wa_supervised w \<and> (\<exists>m. store_get store i = Some m \<and> pm_auto_launch m \<and> \<not> pm_revoked m)}"
proof -
  have inv: "watcher_inv w" using watcher_reach_inv [OF assms(1)] .
  have "watcher_inv (snd (scan_and_spawn store w))"
    using watcher_step_inv [OF watcher_step.scan [OF assms(2)] inv] .
  then have "distinct (wa_threads (snd (scan_and_spawn store w)))" by (simp add: watcher_inv_def)
  moreover have "set (map pm_plugin_id (to_launch store sv)) =
      {i. i \<notin> sv \<and> (\<exists>m. store_get store i = Some m \<and> pm_auto_launch m \<and> \<not> pm_revoked m)}" for sv
  proof -
    have got: "store_get store i = Some m \<longleftrightarrow> (i, m) \<in> set (ms_by_id store)" for i m
      by (simp add: store_get_def map_of_eq_Some_iff [OF loaded_distinct [OF assms(2)]])
    have own: "(i, m) \<in> set (ms_by_id store) \<Longrightarrow> i = pm_plugin_id m" for i m
      using loaded_sources [OF assms(2)] by auto
    have "set (map pm_plugin_id (to_launch store sv)) = {pm_plugin_id m | j m. (j, m) \<in> set (ms_by_id store) \<and>
        pm_auto_launch m \<and> \<not> pm_revoked m \<and> pm_plugin_id m \<notin> sv}"
      by (force simp: to_launch_def)
    also have "\<dots> = {i. i \<notin> sv \<and> (\<exists>m. (i, m) \<in> set (ms_by_id store) \<and> pm_auto_launch m \<and> \<not> pm_revoked m)}"
      using own by blast
    finally show ?thesis by (simp only: got)
  qed
  ultimately show ?thesis using inv by (simp add: watcher_inv_def scan_and_spawn_def Let_def)
qed

section \<open>Examples\<close>

theorem crash_backoff_witness:
  "su_delays (supervise_one sample_parser (=) [Spawn_failed True, Spawn_failed True,
     Spawned [\<lparr>lk_time = 10, lk_wait = Exited 1, lk_shutdown = False, lk_manifest = Not_found\<rparr>] True]
     sample_enrolled) = [1000, 2000, 4000]"
  by (subst crash_backoff) (simp_all add: MANIFEST_POLL_def upt_rec)

theorem crash_loop_ignores_manifest_witness:
  "let crash = Spawned [\<lparr>lk_time = 10, lk_wait = Exited 1, lk_shutdown = False, lk_manifest = Not_found\<rparr>] True
   in su_launched (supervise_one sample_parser (=) [crash, crash] sample_enrolled) =
     [(''C:/acme.exe'', [(''WEDR_PLUGIN_ID'', ''p1'')]), (''C:/acme.exe'', [(''WEDR_PLUGIN_ID'', ''p1'')])]"
proof -
  let ?crash = "Spawned [\<lparr>lk_time = 10, lk_wait = Exited 1, lk_shutdown = False, lk_manifest = Not_found\<rparr>] True"
  have "pm_expected_path sample_enrolled = ''C:/acme.exe''"
    "child_env (=) sample_enrolled = [(''WEDR_PLUGIN_ID'', ''p1'')]" by code_simp+
  then show ?thesis
    using crash_loop_ignores_manifest [of "[?crash, ?crash]" sample_parser "(=)" sample_enrolled]
    by (simp add: MANIFEST_POLL_def)
qed

theorem revocation_latency_witness:
  "\<exists>t. wait_for_exit_or_change sample_parser sample_enrolled 0
     (map (\<lambda>t. \<lparr>lk_time = t, lk_wait = Still_running, lk_shutdown = False,
        lk_manifest = (if t < 3000 then Content [1] else Not_found)\<rparr>) [2000, 4000, 6000, 8000])
     = Some (Revoked_outcome, t) \<and> 3000 \<le> t \<and> t < 3000 + 5000 + 2000"
proof -
  have "\<not> pm_revoked sample_enrolled" by code_simp
  then have "read_manifest sample_parser (Content [1]) sample_enrolled = Unchanged"
    by (simp add: read_manifest_def sample_parser_def sample_manifest_parses)
  moreover have "read_manifest sample_parser Not_found sample_enrolled = Manifest_missing"
    by (simp add: read_manifest_def)
  ultimately show ?thesis by (intro revocation_latency) (auto simp: quiet_def)
qed

theorem one_supervisor_per_plugin_witness:
  "distinct (wa_threads \<lparr>wa_supervised = {}, wa_threads = [], wa_ending = []\<rparr>)"
  using one_supervisor_per_plugin [OF watcher_reach.boot sample_dir_loads] by simp

end
