(* ===== verification/Snapshot_Diff.thy ===== *)
theory Snapshot_Diff
  imports Prelude
begin

text \<open>
  The contract the two polling modules share (\<open>polling/services.rs\<close> and \<open>polling/tasks.rs\<close>): each
  cycle compares the previous snapshot with the new one and emits an event per difference. What makes
  such a diff right is that whoever replays the events on a copy of the old snapshot obtains the new
  one. Snapshots are association lists with distinct keys (hash maps in the order of iteration).
\<close>

definition diff_of ::
    "('k \<Rightarrow> 's \<Rightarrow> 'e list) \<Rightarrow> ('k \<Rightarrow> 's \<Rightarrow> 's \<Rightarrow> 'e list) \<Rightarrow> ('k \<Rightarrow> 's \<Rightarrow> 'e list) \<Rightarrow>
     ('k \<times> 's) list \<Rightarrow> ('k \<times> 's) list \<Rightarrow> 'e list" where
  "diff_of created changed deleted prev next =
     concat (map (\<lambda>(k, s). case map_of prev k of
        None \<Rightarrow> created k s
      | Some old \<Rightarrow> if old \<noteq> s then changed k old s else []) next) @
     concat (map (\<lambda>(k, old). if map_of next k = None then deleted k old else []) prev)"

text \<open>The polling loop over what its cycles find (\<open>None\<close>: the scan failed): the events emitted and the
snapshot kept.\<close>

fun cycles_of ::
    "(('k \<times> 's) list \<Rightarrow> ('k \<times> 's) list \<Rightarrow> 'e list) \<Rightarrow> ('k \<times> 's) list option list \<Rightarrow> ('k \<times> 's) list \<Rightarrow>
     'e list \<times> ('k \<times> 's) list" where
  "cycles_of d [] prev = ([], prev)"
| "cycles_of d (None # ss) prev = cycles_of d ss prev"
| "cycles_of d (Some next # ss) prev = (let (es, last) = cycles_of d ss next in (d prev next @ es, last))"

locale snapshot_diff =
  fixes created :: "'k \<Rightarrow> 's \<Rightarrow> 'e list"
    and changed :: "'k \<Rightarrow> 's \<Rightarrow> 's \<Rightarrow> 'e list"
    and deleted :: "'k \<Rightarrow> 's \<Rightarrow> 'e list"
    and replay :: "'e \<Rightarrow> ('k \<rightharpoonup> 's) \<Rightarrow> ('k \<rightharpoonup> 's)"
  assumes replay_created: "fold replay (created k s) m = m(k \<mapsto> s)"
    and replay_changed: "old \<noteq> s \<Longrightarrow> fold replay (changed k old s) m = m(k \<mapsto> s)"
    and replay_deleted: "fold replay (deleted k old) m = m(k := None)"
begin

definition diff :: "('k \<times> 's) list \<Rightarrow> ('k \<times> 's) list \<Rightarrow> 'e list" where
  "diff prev next = diff_of created changed deleted prev next"

lemma replay_next:
  "distinct (map fst next) \<Longrightarrow>
     (\<And>k. k \<in> fst ` set next \<Longrightarrow> m k = map_of prev k) \<Longrightarrow>
     fold replay (concat (map (\<lambda>(k, s). case map_of prev k of
        None \<Rightarrow> created k s | Some old \<Rightarrow> if old \<noteq> s then changed k old s else []) next)) m
     = m ++ map_of next"
proof (induction "next" arbitrary: m)
  case (Cons e rest)
  obtain k s where e: "e = (k, s)" by force
  let ?es = "case map_of prev k of
    None \<Rightarrow> created k s | Some old \<Rightarrow> if old \<noteq> s then changed k old s else []"
  have "m k = map_of prev k" using Cons.prems(2) by (simp add: e)
  then have one: "fold replay ?es m = m(k \<mapsto> s)"
    by (auto simp: replay_created replay_changed fun_eq_iff split: option.splits)
  have k: "k \<notin> fst ` set rest" using Cons.prems(1) by (simp add: e)
  then have "map_of rest k = None" by (simp add: map_of_eq_None_iff)
  then have sum: "m(k \<mapsto> s) ++ map_of rest = m ++ map_of (e # rest)"
    by (auto simp: e fun_eq_iff map_add_def split: option.splits)
  have "fold replay (concat (map (\<lambda>(k, s). case map_of prev k of
      None \<Rightarrow> created k s | Some old \<Rightarrow> if old \<noteq> s then changed k old s else []) rest)) (m(k \<mapsto> s))
      = m(k \<mapsto> s) ++ map_of rest"
    using Cons.prems k by (intro Cons.IH) (auto simp: e)
  also have "\<dots> = m ++ map_of (e # rest)" by (rule sum)
  finally have "fold replay (concat (map (\<lambda>(k, s). case map_of prev k of
      None \<Rightarrow> created k s | Some old \<Rightarrow> if old \<noteq> s then changed k old s else []) rest))
      (fold replay ?es m) = m ++ map_of (e # rest)" unfolding one .
  then show ?case by (simp only: e list.map concat.simps fold_append prod.case comp_apply)
qed simp

lemma replay_prev:
  "fold replay (concat (map (\<lambda>(k, old). if map_of next k = None then deleted k old else []) prev)) m
     = (\<lambda>k. if map_of prev k \<noteq> None \<and> map_of next k = None then None else m k)"
  by (induction prev arbitrary: m) (auto simp: replay_deleted fun_eq_iff)

lemma replay_diff:
  assumes "distinct (map fst next)"
  shows "fold replay (diff prev next) (map_of prev) = map_of next"
proof -
  have "fold replay (diff prev next) (map_of prev) =
      (\<lambda>k. if map_of prev k \<noteq> None \<and> map_of next k = None then None else (map_of prev ++ map_of next) k)"
    using assms by (simp add: diff_def diff_of_def replay_next replay_prev)
  also have "\<dots> = map_of next"
    by (auto simp: fun_eq_iff map_add_def split: option.splits)
  finally show ?thesis .
qed

lemma cycles_replay:
  assumes "\<forall>s. Some s \<in> set ss \<longrightarrow> distinct (map fst s)"
  shows "fold replay (fst (cycles_of diff ss prev)) (map_of prev) = map_of (snd (cycles_of diff ss prev))"
  using assms
proof (induction diff ss prev rule: cycles_of.induct)
  case (3 "next" ss prev)
  obtain es last where rest: "cycles_of diff ss next = (es, last)" by force
  from 3 rest have "fold replay es (map_of next) = map_of last" by auto
  with 3(2) rest show ?case by (simp add: replay_diff)
qed auto

end

end
