(* ===== verification/Polling.thy ===== *)
theory Polling
  imports Snapshot_Diff Event_Sink Manifest Decimal
begin

text \<open>
  The persistence polling modules (\<open>src/src/polling/\<close>): services of the Service Control Manager and
  scheduled tasks on disk, each compared with its previous snapshot. The SCM and the file system are
  parameters: what an enumeration, a configuration query or a directory read finds.
\<close>

section \<open>Events (\<open>envelope.rs\<close>)\<close>

record persistence_event =
  pe_event_type :: str
  pe_kind :: str
  pe_event_version :: u16
  pe_payload :: json

definition persistence_json :: "str \<Rightarrow> persistence_event \<Rightarrow> json" where
  "persistence_json ts e =
     JObj [(''ts'', JStr ts), (''module'', JStr ''persistence''), (''event_type'', JStr (pe_event_type e)),
           (''raw'', pe_payload e), (''source'', JStr ''polling''), (''kind'', JStr (pe_kind e)),
           (''event_version'', JInt (uint (pe_event_version e)))]"

definition into_ndjson_line ::
    "(json \<Rightarrow> bytes option) \<Rightarrow> str \<Rightarrow> persistence_event \<Rightarrow> bytes option" where
  "into_ndjson_line to_writer ts e = map_option (\<lambda>b. b @ [10]) (to_writer (persistence_json ts e))"

text \<open>\<open>emit\<close> of both modules: count the event, submit it, count a refusal.\<close>

record poll_state =
  po_counter :: u64
  po_dropped :: u64
  po_spool :: spool

definition emit_line :: "spool_config \<Rightarrow> bytes option \<Rightarrow> poll_state \<Rightarrow> poll_state" where
  "emit_line cfg line s =
     (case line of
        None \<Rightarrow> s
      | Some b \<Rightarrow>
          let (ok, sp) = try_submit cfg b (po_spool s) in
          s\<lparr>po_counter := po_counter s + 1, po_spool := sp,
            po_dropped := (if ok then po_dropped s else po_dropped s + 1)\<rparr>)"

definition emit_persistence ::
    "(json \<Rightarrow> bytes option) \<Rightarrow> spool_config \<Rightarrow> str \<Rightarrow> persistence_event \<Rightarrow> poll_state \<Rightarrow> poll_state" where
  "emit_persistence to_writer cfg ts e s = emit_line cfg (into_ndjson_line to_writer ts e) s"

section \<open>Services (\<open>services.rs\<close>)\<close>

record service_snapshot =
  sv_display_name :: str
  sv_binary_path :: str
  sv_start_type :: u32
  sv_service_type :: u32
  sv_account :: str
  sv_running :: bool

datatype service_change = Service_create | Service_delete | Service_modify | Service_start | Service_stop

fun service_event_type :: "service_change \<Rightarrow> str" where
  "service_event_type Service_create = ''service_create''"
| "service_event_type Service_delete = ''service_delete''"
| "service_event_type Service_modify = ''service_modify''"
| "service_event_type Service_start = ''service_start''"
| "service_event_type Service_stop = ''service_stop''"

fun service_kind :: "service_change \<Rightarrow> str" where
  "service_kind Service_create = ''ServiceCreate''"
| "service_kind Service_delete = ''ServiceDelete''"
| "service_kind Service_modify = ''ServiceModify''"
| "service_kind Service_start = ''ServiceStart''"
| "service_kind Service_stop = ''ServiceStop''"

type_synonym diff_entry = "service_change \<times> str"

definition service_changes :: "str \<Rightarrow> service_snapshot \<Rightarrow> service_snapshot \<Rightarrow> diff_entry list" where
  "service_changes name old snap =
     (if sv_running old \<noteq> sv_running snap
      then [(if sv_running snap then Service_start else Service_stop, name)] else []) @
     (if sv_binary_path old \<noteq> sv_binary_path snap \<or> sv_start_type old \<noteq> sv_start_type snap \<or>
        sv_service_type old \<noteq> sv_service_type snap \<or> sv_account old \<noteq> sv_account snap \<or>
        sv_display_name old \<noteq> sv_display_name snap
      then [(Service_modify, name)] else [])"

definition compute_diff ::
    "(str \<times> service_snapshot) list \<Rightarrow> (str \<times> service_snapshot) list \<Rightarrow> diff_entry list" where
  "compute_diff prev next =
     diff_of (\<lambda>k s. [(Service_create, k)]) service_changes (\<lambda>k old. [(Service_delete, k)]) prev next"

fun start_type_label :: "nat \<Rightarrow> str" where
  "start_type_label t =
     (if t = 0 then ''boot'' else if t = 1 then ''system'' else if t = 2 then ''auto''
      else if t = 3 then ''manual'' else if t = 4 then ''disabled'' else ''unknown'')"

definition service_payload ::
    "str \<Rightarrow> service_snapshot \<Rightarrow> service_snapshot option \<Rightarrow> json" where
  "service_payload name snap prev =
     JObj ([(''name'', JStr name), (''display_name'', JStr (sv_display_name snap)),
            (''binary_path'', JStr (sv_binary_path snap)),
            (''start_type'', JInt (uint (sv_start_type snap))),
            (''start_type_label'', JStr (start_type_label (unat (sv_start_type snap)))),
            (''service_type'', JInt (uint (sv_service_type snap))),
            (''account'', JStr (sv_account snap)), (''running'', JBool (sv_running snap))] @
           (case prev of
              None \<Rightarrow> []
            | Some p \<Rightarrow> [(''previous'', JObj [(''binary_path'', JStr (sv_binary_path p)),
                (''start_type'', JInt (uint (sv_start_type p))),
                (''service_type'', JInt (uint (sv_service_type p))),
                (''account'', JStr (sv_account p)), (''running'', JBool (sv_running p))])]))"

text \<open>The payload of an entry: the new snapshot, or the old one when the service is gone.\<close>

definition entry_event ::
    "(str \<times> service_snapshot) list \<Rightarrow> (str \<times> service_snapshot) list \<Rightarrow> diff_entry \<Rightarrow>
     persistence_event option" where
  "entry_event prev next e =
     (case e of (change, name) \<Rightarrow>
        let prev_snap = (if change = Service_delete then None else map_of prev name) in
        (case (case map_of next name of Some s \<Rightarrow> Some s | None \<Rightarrow> map_of prev name) of
           None \<Rightarrow> None
         | Some snap \<Rightarrow>
             Some \<lparr>pe_event_type = service_event_type change, pe_kind = service_kind change,
                   pe_event_version = 1, pe_payload = service_payload name snap prev_snap\<rparr>))"

definition services_diff ::
    "(str \<times> service_snapshot) list \<Rightarrow> (str \<times> service_snapshot) list \<Rightarrow> persistence_event list" where
  "services_diff prev next = List.map_filter (entry_event prev next) (compute_diff prev next)"

definition services_diff_and_emit ::
    "(json \<Rightarrow> bytes option) \<Rightarrow> spool_config \<Rightarrow> str \<Rightarrow> (str \<times> service_snapshot) list \<Rightarrow>
     (str \<times> service_snapshot) list \<Rightarrow> poll_state \<Rightarrow> poll_state" where
  "services_diff_and_emit to_writer cfg ts prev next s =
     fold (emit_persistence to_writer cfg ts) (services_diff prev next) s"

text \<open>The enumeration: a probe for the buffer size, then up to three attempts.\<close>

datatype 'r attempt = Filled 'r | More_data u32 | Enum_error

fun enum_attempts :: "nat \<Rightarrow> nat \<Rightarrow> (nat \<Rightarrow> 'r attempt) list \<Rightarrow> 'r option" where
  "enum_attempts 0 buf_size as = None"
| "enum_attempts (Suc n) buf_size [] = None"
| "enum_attempts (Suc n) buf_size (a # as) =
     (case a buf_size of
        Filled r \<Rightarrow> Some r
      | More_data needed \<Rightarrow> enum_attempts n (max (unat needed) (buf_size + buf_size div 4)) as
      | Enum_error \<Rightarrow> None)"

record scm_entry =
  en_name :: str
  en_display :: str
  en_state :: u32

definition SERVICE_RUNNING :: u32 where "SERVICE_RUNNING = 4"

type_synonym service_config = "str \<times> u32 \<times> u32 \<times> str"

definition entry_snapshot ::
    "(str \<Rightarrow> service_config option) \<Rightarrow> bool \<Rightarrow> (str \<times> service_snapshot) list \<Rightarrow> scm_entry \<Rightarrow>
     service_snapshot" where
  "entry_snapshot query full_rescan prev e =
     (let running = (en_state e = SERVICE_RUNNING);
          (path, start, type, account) =
            (case map_of prev (en_name e) of
               Some p \<Rightarrow>
                 if \<not> full_rescan \<and> sv_running p = running \<and> sv_binary_path p \<noteq> []
                 then (sv_binary_path p, sv_start_type p, sv_service_type p, sv_account p)
                 else (case query (en_name e) of Some c \<Rightarrow> c | None \<Rightarrow> ([], 0, 0, []))
             | None \<Rightarrow> (case query (en_name e) of Some c \<Rightarrow> c | None \<Rightarrow> ([], 0, 0, [])))
      in \<lparr>sv_display_name = en_display e, sv_binary_path = path, sv_start_type = start,
          sv_service_type = type, sv_account = account, sv_running = running\<rparr>)"

record scm =
  sc_open :: bool
  sc_probe :: u32
  sc_attempts :: "(nat \<Rightarrow> scm_entry list attempt) list"
  sc_query :: "str \<Rightarrow> service_config option"

definition enumerate_services ::
    "scm \<Rightarrow> (str \<times> service_snapshot) list \<Rightarrow> bool \<Rightarrow> (str \<times> service_snapshot) list option" where
  "enumerate_services c prev full_rescan =
     (if \<not> sc_open c then None
      else if sc_probe c = 0 then Some []
      else map_option
        (\<lambda>es. fold (\<lambda>e m. if en_name e = [] then m
            else put (en_name e) (entry_snapshot (sc_query c) full_rescan prev e) m) es [])
        (enum_attempts 3 (unat (sc_probe c)) (sc_attempts c)))"

definition FULL_RESCAN_EVERY :: nat where "FULL_RESCAN_EVERY = 10"

record service_loop =
  sl_prev :: "(str \<times> service_snapshot) list"
  sl_first :: bool
  sl_cycles :: nat
  sl_events :: "persistence_event list"

definition service_cycle :: "bool \<Rightarrow> scm \<Rightarrow> service_loop \<Rightarrow> service_loop" where
  "service_cycle silent_first c s =
     (let full = (FULL_RESCAN_EVERY \<le> sl_cycles s) in
      case enumerate_services c (sl_prev s) full of
        None \<Rightarrow> s
      | Some snapshot \<Rightarrow>
          let s = s\<lparr>sl_cycles := (if full then 0 else Suc (sl_cycles s))\<rparr> in
          if sl_first s \<and> silent_first then s\<lparr>sl_prev := snapshot, sl_first := False\<rparr>
          else s\<lparr>sl_events := sl_events s @ services_diff (sl_prev s) snapshot,
                 sl_prev := snapshot, sl_first := False\<rparr>)"

definition services_run :: "bool \<Rightarrow> scm list \<Rightarrow> service_loop" where
  "services_run silent_first cs =
     fold (service_cycle silent_first) cs
       \<lparr>sl_prev = [], sl_first = True, sl_cycles = 0, sl_events = []\<rparr>"

section \<open>Replaying service events\<close>

text \<open>What a reader of the events can recover: the name and the snapshot the payload carries.\<close>

definition payload_snapshot :: "json \<Rightarrow> service_snapshot option" where
  "payload_snapshot j =
     (case (get_str ''display_name'' j, get_str ''binary_path'' j, get_u64 ''start_type'' j) of
        (Some d, Some b, Some st) \<Rightarrow>
          (case (get_u64 ''service_type'' j, get_str ''account'' j, get_bool ''running'' j) of
             (Some ty, Some a, Some r) \<Rightarrow>
               Some \<lparr>sv_display_name = d, sv_binary_path = b, sv_start_type = word_of_nat st,
                 sv_service_type = word_of_nat ty, sv_account = a, sv_running = r\<rparr>
           | _ \<Rightarrow> None)
      | _ \<Rightarrow> None)"

definition service_replay ::
    "persistence_event \<Rightarrow> (str \<rightharpoonup> service_snapshot) \<Rightarrow> (str \<rightharpoonup> service_snapshot)" where
  "service_replay e m =
     (case get_str ''name'' (pe_payload e) of
        None \<Rightarrow> m
      | Some name \<Rightarrow>
          if pe_event_type e = ''service_delete'' then m(name := None)
          else m(name := payload_snapshot (pe_payload e)))"

definition service_event ::
    "service_change \<Rightarrow> str \<Rightarrow> service_snapshot \<Rightarrow> service_snapshot option \<Rightarrow> persistence_event" where
  "service_event change name snap prev =
     \<lparr>pe_event_type = service_event_type change, pe_kind = service_kind change, pe_event_version = 1,
      pe_payload = service_payload name snap prev\<rparr>"

lemma as_u64_u32 [simp]: "as_u64 (JInt (uint w)) = Some (unat w)" for w :: u32
  using uint_lt2p [of w] by simp

lemma payload_back [simp]: "payload_snapshot (service_payload name snap prev) = Some snap"
  by (simp add: payload_snapshot_def service_payload_def get_str_def get_u64_def get_bool_def
      del: as_u64.simps)

lemma payload_name [simp]: "get_str ''name'' (service_payload name snap prev) = Some name"
  by (simp add: service_payload_def get_str_def)

lemma service_replay_event:
  "service_replay (service_event change name snap prev) m =
     (if change = Service_delete then m(name := None) else m(name \<mapsto> snap))"
  by (cases change) (simp_all add: service_replay_def service_event_def)

interpretation services: snapshot_diff
    "\<lambda>k s. [service_event Service_create k s None]"
    "\<lambda>k old s. map (\<lambda>(c, n). service_event c n s (Some old)) (service_changes k old s)"
    "\<lambda>k old. [service_event Service_delete k old None]"
    service_replay
  by unfold_locales (auto simp: service_replay_event service_changes_def service_snapshot.equality)

lemma map_filter_append [simp]:
  "List.map_filter f (xs @ ys) = List.map_filter f xs @ List.map_filter f ys"
  by (simp add: map_filter_def)

lemma map_filter_concat:
  "List.map_filter f (concat xss) = concat (map (List.map_filter f) xss)"
  by (induction xss) (simp_all add: map_filter_simps(2))

lemma services_diff_is_diff:
  assumes "distinct (map fst next)" and "distinct (map fst prev)"
  shows "services_diff prev next = services.diff prev next"
proof -
  let ?f = "entry_event prev next"
  have new: "List.map_filter ?f (case map_of prev k of
        None \<Rightarrow> [(Service_create, k)] | Some old \<Rightarrow> if old \<noteq> s then service_changes k old s else []) =
      (case map_of prev k of None \<Rightarrow> [service_event Service_create k s None]
       | Some old \<Rightarrow> if old \<noteq> s
           then map (\<lambda>(c, n). service_event c n s (Some old)) (service_changes k old s) else [])"
    if "(k, s) \<in> set next" for k s
  proof -
    have "map_of next k = Some s" using that assms(1) by simp
    then show ?thesis
      by (auto simp: map_filter_simps entry_event_def service_event_def service_changes_def Let_def
          split: option.splits)
  qed
  have gone: "List.map_filter ?f (if map_of next k = None then [(Service_delete, k)] else []) =
      (if map_of next k = None then [service_event Service_delete k old None] else [])"
    if "(k, old) \<in> set prev" for k old
  proof -
    have "map_of prev k = Some old" using that assms(2) by simp
    then show ?thesis by (simp add: map_filter_simps entry_event_def service_event_def Let_def)
  qed
  have "map (List.map_filter ?f) (map (\<lambda>(k, s). case map_of prev k of
        None \<Rightarrow> [(Service_create, k)] | Some old \<Rightarrow> if old \<noteq> s then service_changes k old s else []) next)
      = map (\<lambda>(k, s). case map_of prev k of None \<Rightarrow> [service_event Service_create k s None]
       | Some old \<Rightarrow> if old \<noteq> s
           then map (\<lambda>(c, n). service_event c n s (Some old)) (service_changes k old s) else []) next"
    using new by (auto simp del: option.case_distrib)
  moreover have "map (List.map_filter ?f) (map (\<lambda>(k, old). if map_of next k = None
        then [(Service_delete, k)] else []) prev)
      = map (\<lambda>(k, old). if map_of next k = None then [service_event Service_delete k old None] else []) prev"
    using gone by auto
  ultimately show ?thesis
    by (simp only: services_diff_def compute_diff_def diff_of_def services.diff_def map_filter_append
        map_filter_concat)
qed

lemma enumerate_distinct:
  assumes "enumerate_services c prev full = Some snapshot"
  shows "distinct (map fst snapshot)"
proof -
  have "distinct (map fst m) \<Longrightarrow> distinct (map fst (fold (\<lambda>e m. if en_name e = [] then m
      else put (en_name e) (entry_snapshot q full prev e) m) es m))" for es m q
    by (induction es arbitrary: m) auto
  then show ?thesis using assms
    by (auto simp: enumerate_services_def split: if_splits)
qed

text \<open>C34. The service events are a faithful journal: a reader that starts from any snapshot the poller
held after its first cycle and applies the events emitted since, using only what their payloads carry,
holds exactly the poller's current snapshot, however many scans failed in between and whatever was
created, started, stopped, reconfigured or deleted.\<close>

theorem services_journal:
  assumes "\<not> sl_first s" and "distinct (map fst (sl_prev s))"
  shows "\<exists>es. sl_events (fold (service_cycle silent) cs s) = sl_events s @ es \<and>
    fold service_replay es (map_of (sl_prev s)) = map_of (sl_prev (fold (service_cycle silent) cs s))"
  using assms
proof (induction cs arbitrary: s)
  case (Cons c cs)
  define t where "t = service_cycle silent c s"
  have t: "\<not> sl_first t \<and> distinct (map fst (sl_prev t)) \<and>
      (\<exists>es. sl_events t = sl_events s @ es \<and> fold service_replay es (map_of (sl_prev s)) = map_of (sl_prev t))"
  proof (cases "enumerate_services c (sl_prev s) (FULL_RESCAN_EVERY \<le> sl_cycles s)")
    case None
    then show ?thesis using Cons.prems by (simp add: t_def service_cycle_def)
  next
    case (Some snapshot)
    have "distinct (map fst snapshot)" using enumerate_distinct [OF Some] .
    with Some Cons.prems services.replay_diff [of snapshot "sl_prev s"]
    show ?thesis by (simp add: t_def service_cycle_def services_diff_is_diff Let_def)
  qed
  then obtain es where es: "sl_events t = sl_events s @ es"
    "fold service_replay es (map_of (sl_prev s)) = map_of (sl_prev t)" by blast
  from Cons.IH [of t] t obtain es' where "sl_events (fold (service_cycle silent) cs t) = sl_events t @ es'"
    "fold service_replay es' (map_of (sl_prev t)) = map_of (sl_prev (fold (service_cycle silent) cs t))"
    by blast
  with es show ?case by (intro exI [of _ "es @ es'"]) (simp flip: t_def)
qed simp

text \<open>A silent reconfiguration is noticed with a delay of eleven cycles: counting successful cycles
from the start of the thread, the configuration of every service is read again on the cycles 11, 22, 33
and so on, and on no other cycle as long as the running state does not change.\<close>

theorem full_rescan_every_eleven:
  assumes "\<forall>c\<in>set cs. \<forall>prev full. enumerate_services c prev full \<noteq> None"
  shows "sl_cycles (services_run silent cs) = length cs mod 11 \<and>
    (FULL_RESCAN_EVERY \<le> sl_cycles (services_run silent cs) \<longleftrightarrow> Suc (length cs) mod 11 = 0)"
proof -
  have step: "sl_cycles (service_cycle silent c s) = (if sl_cycles s = 10 then 0 else Suc (sl_cycles s))"
    if low: "sl_cycles s \<le> 10" and ok: "\<forall>prev full. enumerate_services c prev full \<noteq> None" for c s
  proof -
    obtain snapshot where "enumerate_services c (sl_prev s) (FULL_RESCAN_EVERY \<le> sl_cycles s) = Some snapshot"
      using ok by blast
    then show ?thesis using low by (auto simp: service_cycle_def FULL_RESCAN_EVERY_def Let_def)
  qed
  have "sl_cycles (fold (service_cycle silent) cs s) = (sl_cycles s + length cs) mod 11"
    if "sl_cycles s \<le> 10" for s
    using that assms
  proof (induction cs arbitrary: s)
    case (Cons c cs)
    have now: "sl_cycles (service_cycle silent c s) = (if sl_cycles s = 10 then 0 else Suc (sl_cycles s))"
      using Cons.prems by (intro step) auto
    then have "sl_cycles (service_cycle silent c s) \<le> 10" using Cons.prems(1) by simp
    from Cons.IH [OF this] Cons.prems(2) now show ?case by (simp split: if_splits)
  qed simp
  from this [of "\<lparr>sl_prev = [], sl_first = True, sl_cycles = 0, sl_events = []\<rparr>"]
  have n: "sl_cycles (services_run silent cs) = length cs mod 11" by (simp add: services_run_def)
  moreover have "10 \<le> length cs mod 11 \<longleftrightarrow> Suc (length cs) mod 11 = 0"
    using mod_less_divisor [of 11 "length cs"] by (auto simp: mod_Suc)
  ultimately show ?thesis by (simp add: FULL_RESCAN_EVERY_def)
qed

section \<open>Examples\<close>

definition sample_scm :: scm where
  "sample_scm = \<lparr>sc_open = True, sc_probe = 64,
     sc_attempts = [\<lambda>n. More_data 90,
       \<lambda>n. Filled [\<lparr>en_name = ''Spooler'', en_display = ''Print Spooler'', en_state = 4\<rparr>]],
     sc_query = (\<lambda>n. Some (''C:/spoolsv.exe'', 2, 16, ''LocalSystem''))\<rparr>"

theorem services_journal_witness:
  "\<exists>es. sl_events (fold (service_cycle True) [sample_scm]
      \<lparr>sl_prev = [], sl_first = False, sl_cycles = 3, sl_events = []\<rparr>) = [] @ es \<and>
    fold service_replay es (map_of []) = map_of (sl_prev (fold (service_cycle True) [sample_scm]
      \<lparr>sl_prev = [], sl_first = False, sl_cycles = 3, sl_events = []\<rparr>))"
  using services_journal [of "\<lparr>sl_prev = [], sl_first = False, sl_cycles = 3, sl_events = []\<rparr>" True
    "[sample_scm]"] by (simp del: fold.simps)

theorem full_rescan_every_eleven_witness:
  "sl_cycles (services_run True (replicate 10 (sample_scm\<lparr>sc_probe := 0\<rparr>))) = 10"
  by (subst full_rescan_every_eleven [THEN conjunct1])
     (simp_all add: enumerate_services_def sample_scm_def)

end
