(* ===== verification/Paths.thy ===== *)
theory Paths
  imports Text_Util
begin

text \<open>
  The Windows paths and the text functions of the standard library that the control plane uses:
  joining, the last component, \<open>str::lines\<close>, \<open>split_once\<close> and \<open>String::from_utf8_lossy\<close>.
\<close>

text \<open>\<open>Path::join\<close> with a relative path.\<close>

definition join_path :: "str \<Rightarrow> str \<Rightarrow> str" where
  "join_path dir n = (if dir = [] \<or> is_separator (last dir) then dir @ n else dir @ [CHR 0x5C] @ n)"

text \<open>The parts of a path between separators, without the empty ones.\<close>

fun path_parts :: "str \<Rightarrow> str \<Rightarrow> str list" where
  "path_parts [] part = (if part = [] then [] else [part])"
| "path_parts (c # cs) part =
     (if is_separator c then (if part = [] then [] else [part]) @ path_parts cs []
      else path_parts cs (part @ [c]))"

definition drive_letter :: "str \<Rightarrow> bool" where
  "drive_letter p \<longleftrightarrow>
     (case p of l # c # _ \<Rightarrow> c = CHR '':'' \<and> is_ascii_alphanumeric l \<and> \<not> (CHR ''0'' \<le> l \<and> l \<le> CHR ''9'')
      | _ \<Rightarrow> False)"

text \<open>\<open>Path::file_name\<close>: the last component, if it is a name (\<open>.\<close> is dropped, \<open>..\<close> is none). The
prefixes of network shares are not told apart from directories.\<close>

definition file_name :: "str \<Rightarrow> str option" where
  "file_name p =
     (let parts = filter (\<lambda>q. q \<noteq> ''.'') (path_parts (if drive_letter p then drop 2 p else p) []) in
      if parts = [] \<or> last parts = ''..'' then None else Some (last parts))"

lemma path_parts_flat:
  "q \<in> set (path_parts s part) \<Longrightarrow> \<forall>c\<in>set part. \<not> is_separator c \<Longrightarrow> \<forall>c\<in>set q. \<not> is_separator c"
  by (induction s part rule: path_parts.induct) (auto split: if_splits)

lemma path_parts_no_sep:
  "\<forall>c\<in>set s. \<not> is_separator c \<Longrightarrow> path_parts s part = (if part @ s = [] then [] else [part @ s])"
  by (induction s part rule: path_parts.induct) auto

lemma path_parts_sep:
  "is_separator c \<Longrightarrow> path_parts (s @ c # t) part = path_parts s part @ path_parts t []"
  by (induction s part rule: path_parts.induct) auto

text \<open>The last component of a directory joined with a name is the name.\<close>

lemma file_name_join:
  assumes "\<forall>c\<in>set n. \<not> is_separator c" and "n \<noteq> []" "n \<noteq> ''.''" "n \<noteq> ''..''" and "\<not> drive_letter n"
  shows "file_name (join_path d n) = Some n"
proof (cases "d = []")
  case True
  with assms show ?thesis by (simp add: join_path_def file_name_def path_parts_no_sep)
next
  case False
  obtain d' c where c: "join_path d n = d' @ c # n" "is_separator c"
  proof (cases "is_separator (last d)")
    case True
    with False that [of "butlast d" "last d"] show ?thesis by (simp add: join_path_def)
  next
    case f: False
    with False that [of d "CHR 0x5C"] show ?thesis by (simp add: join_path_def is_separator_def)
  qed
  define p where "p = (if drive_letter (d' @ c # n) then drop 2 (d' @ c # n) else d' @ c # n)"
  have "\<exists>e. p = e @ c # n"
  proof (cases "drive_letter (d' @ c # n)")
    case True
    then have "length d' \<ge> 2"
      using c(2) by (cases d'; cases "tl d'") (auto simp: drive_letter_def is_separator_def is_ascii_alphanumeric_def
          split: list.splits)
    then show ?thesis by (simp add: p_def True)
  qed (simp add: p_def)
  then obtain e where "path_parts p [] = path_parts e [] @ [n]"
    using c(2) assms(1,2) by (auto simp: path_parts_sep path_parts_no_sep)
  then show ?thesis using assms(3,4) c(1) by (simp add: file_name_def p_def [symmetric] Let_def)
qed

text \<open>A name equal to its own last component has no separator and is neither \<open>.\<close> nor \<open>..\<close>.\<close>

lemma file_name_self:
  assumes "file_name s = Some s"
  shows "s \<noteq> []" and "\<forall>c\<in>set s. \<not> is_separator c" and "s \<noteq> ''.''" and "s \<noteq> ''..''"
proof -
  let ?parts = "filter (\<lambda>q. q \<noteq> ''.'') (path_parts (if drive_letter s then drop 2 s else s) [])"
  have last: "?parts \<noteq> []" "last ?parts = s" "s \<noteq> ''..''"
    using assms by (auto simp: file_name_def Let_def split: if_splits)
  then have "s \<in> set ?parts" by (metis last_in_set)
  then show "\<forall>c\<in>set s. \<not> is_separator c" and "s \<noteq> ''.''" and "s \<noteq> ''..''"
    using path_parts_flat [of s "if drive_letter s then drop 2 s else s" "[]"] last(3) by auto
  show "s \<noteq> []"
    using assms by (auto simp: file_name_def drive_letter_def)
qed

text \<open>Everything before the last separator.\<close>

definition parent_dir :: "str \<Rightarrow> str" where
  "parent_dir p = rev (tl (dropWhile (\<lambda>c. \<not> is_separator c) (rev p)))"

lemma parent_join:
  assumes "\<forall>c\<in>set n. \<not> is_separator c" and "dir \<noteq> []" and "\<not> is_separator (last dir)"
  shows "parent_dir (join_path dir n) = dir"
proof -
  have "is_separator (CHR 0x5C)" by (simp add: is_separator_def)
  then show ?thesis using assms by (simp add: parent_dir_def join_path_def dropWhile_append)
qed

text \<open>\<open>Path::with_extension\<close>: what follows the last component goes, and the extension of the last
component (from its last dot, unless that is its first character) is replaced.\<close>

fun strip_tail :: "str \<Rightarrow> str" where
  "strip_tail [] = []"
| "strip_tail (c # cs) =
     (if is_separator c \<or> c = CHR ''.'' \<and> (cs = [] \<or> is_separator (hd cs)) then strip_tail cs else c # cs)"

definition file_stem :: "str \<Rightarrow> str" where
  "file_stem n =
     (let before = rev (tl (dropWhile (\<lambda>c. c \<noteq> CHR ''.'') (rev n)))
      in if before = [] then n else before)"

definition with_extension :: "str \<Rightarrow> str \<Rightarrow> str" where
  "with_extension p ext =
     (case file_name p of
        None \<Rightarrow> p
      | Some n \<Rightarrow>
          (let body = rev (strip_tail (rev p))
           in take (length body - length n) body @ file_stem n @ ''.'' @ ext))"

section \<open>Text\<close>

fun split_lines :: "str \<Rightarrow> str \<Rightarrow> str list" where
  "split_lines [] line = (if line = [] then [] else [line])"
| "split_lines (c # cs) line =
     (if c = CHR 0x0A then
        (if line \<noteq> [] \<and> last line = CHR 0x0D then butlast line else line) # split_lines cs []
      else split_lines cs (line @ [c]))"

definition str_lines :: "str \<Rightarrow> str list" where "str_lines s = split_lines s []"

definition split_once :: "char \<Rightarrow> str \<Rightarrow> (str \<times> str) option" where
  "split_once c s =
     (if c \<in> set s then Some (takeWhile (\<lambda>d. d \<noteq> c) s, tl (dropWhile (\<lambda>d. d \<noteq> c) s)) else None)"

definition strip_start :: "str \<Rightarrow> str \<Rightarrow> str option" where
  "strip_start p s = (if starts_with s p then Some (drop (length p) s) else None)"

text \<open>The first character of a byte sequence, or the longest beginning of one: its length, and whether
it is complete.\<close>

fun utf8_head :: "nat list \<Rightarrow> nat \<times> bool" where
  "utf8_head [] = (0, True)"
| "utf8_head (b # bs) =
     (if b < 0x80 then (1, True)
      else if 0xC2 \<le> b \<and> b < 0xE0 then
        (case bs of c # _ \<Rightarrow> if cont c then (2, True) else (1, False) | [] \<Rightarrow> (1, False))
      else if 0xE0 \<le> b \<and> b < 0xF0 then
        (case bs of
           c # cs \<Rightarrow>
             if cont c \<and> (b = 0xE0 \<longrightarrow> 0xA0 \<le> c) \<and> (b = 0xED \<longrightarrow> c < 0xA0) then
               (case cs of d # _ \<Rightarrow> if cont d then (3, True) else (2, False) | [] \<Rightarrow> (2, False))
             else (1, False)
         | [] \<Rightarrow> (1, False))
      else if 0xF0 \<le> b \<and> b < 0xF5 then
        (case bs of
           c # cs \<Rightarrow>
             if cont c \<and> (b = 0xF0 \<longrightarrow> 0x90 \<le> c) \<and> (b = 0xF4 \<longrightarrow> c < 0x90) then
               (case cs of
                  d # ds \<Rightarrow>
                    if cont d then
                      (case ds of e # _ \<Rightarrow> if cont e then (4, True) else (3, False) | [] \<Rightarrow> (3, False))
                    else (2, False)
                | [] \<Rightarrow> (2, False))
             else (1, False)
         | [] \<Rightarrow> (1, False))
      else (1, False))"

lemma utf8_head_pos: "bs \<noteq> [] \<Longrightarrow> 0 < fst (utf8_head bs)"
  by (cases bs) (auto split: list.splits)

function from_utf8_lossy :: "bytes \<Rightarrow> str" where
  "from_utf8_lossy bs =
     (if bs = [] then []
      else let (n, whole) = utf8_head (map unat bs)
           in (if whole then str_of_bytes (take n bs) else [CHR 0xEF, CHR 0xBF, CHR 0xBD]) @
              from_utf8_lossy (drop n bs))"
  by pat_completeness auto
termination
proof (relation "measure length")
  fix bs :: bytes and x n whole
  assume bs: "bs \<noteq> []" and x: "x = utf8_head (map unat bs)" "(n, whole) = x"
  then have "n = fst (utf8_head (map unat bs))" by (metis fst_conv)
  with bs have "0 < n" using utf8_head_pos [of "map unat bs"] by simp
  with bs show "(drop n bs, bs) \<in> measure length" by simp
qed simp

declare from_utf8_lossy.simps [simp del]

text \<open>Valid text is unchanged.\<close>

lemma utf8_head_valid:
  "utf8_valid bs \<Longrightarrow> bs \<noteq> [] \<Longrightarrow> snd (utf8_head bs) \<and> utf8_valid (drop (fst (utf8_head bs)) bs)"
  by (cases bs) (auto split: if_splits list.splits)

lemma from_utf8_lossy_valid: "from_utf8 bs = Some s \<Longrightarrow> from_utf8_lossy bs = s"
proof (induction bs arbitrary: s rule: from_utf8_lossy.induct)
  case (1 bs)
  show ?case
  proof (cases "bs = []")
    case True
    with 1(2) show ?thesis
      by (auto simp: from_utf8_lossy.simps from_utf8_def str_of_bytes_def split: if_splits)
  next
    case False
    obtain n whole where h: "utf8_head (map unat bs) = (n, whole)" by fastforce
    have valid: "utf8_valid (map unat bs)" "s = str_of_bytes bs"
      using 1(2) by (auto simp: from_utf8_def split: if_splits)
    with h False utf8_head_valid [of "map unat bs"] have whole: "whole"
        and rest: "from_utf8 (drop n bs) = Some (str_of_bytes (drop n bs))"
      by (simp_all add: from_utf8_def drop_map)
    from 1(1) [OF False h [symmetric] refl rest] whole h False valid(2) show ?thesis
      by (subst from_utf8_lossy.simps) (simp add: str_of_bytes_def flip: map_append)
  qed
qed

section \<open>Reads\<close>

text \<open>A content as successive reads into a buffer of \<open>n\<close> bytes deliver it.\<close>

fun pieces :: "nat \<Rightarrow> bytes \<Rightarrow> bytes list" where
  "pieces n bs = (if bs = [] \<or> n = 0 then [] else take n bs # pieces n (drop n bs))"

declare pieces.simps [simp del]

lemma concat_pieces: "0 < n \<Longrightarrow> concat (pieces n bs) = bs"
proof (induction n bs rule: pieces.induct)
  case (1 n bs)
  then show ?case by (subst pieces.simps) auto
qed

lemma pieces_not_Nil: "c \<in> set (pieces n bs) \<Longrightarrow> c \<noteq> []"
proof (induction n bs rule: pieces.induct)
  case (1 n bs)
  from 1(2) show ?case by (subst (asm) pieces.simps) (use 1 in \<open>auto split: if_splits\<close>)
qed

lemma takeWhile_pieces: "takeWhile (\<lambda>c. c \<noteq> []) (pieces n bs) = pieces n bs"
  by (simp add: takeWhile_eq_all_conv pieces_not_Nil)

end
