(* ===== verification/Task_Polling.thy ===== *)
theory Task_Polling
  imports Polling Paths
begin

text \<open>
  Scheduled-task polling (\<open>src/src/polling/tasks.rs\<close>): a walk over the task directory, a digest per
  file, and a diff per cycle. The directory is a tree of entries as the walk finds them; \<open>None\<close> marks a
  directory or a file that could not be read.
\<close>

record task_snapshot =
  tk_mtime :: u64
  tk_digest :: u64
  tk_size :: u64

datatype task_entry =
  Bad_entry | Subdir str "task_entry list option" | Plain str "u64 option" "bytes option" | Special

definition fnv1a_64 :: "bytes \<Rightarrow> u64" where
  "fnv1a_64 bs = fold fnv_step bs fnv_basis"

definition file_snapshot :: "u64 option \<Rightarrow> bytes \<Rightarrow> task_snapshot" where
  "file_snapshot modified body =
     \<lparr>tk_mtime = (case modified of Some t \<Rightarrow> t | None \<Rightarrow> 0), tk_digest = fnv1a_64 body,
      tk_size = word_of_nat (length body)\<rparr>"

type_synonym pending = "(str \<times> task_entry list option) list"

text \<open>\<open>drain\<close>: directories go on the stack (its head is the top), files into the map.\<close>

fun drain ::
    "str \<Rightarrow> task_entry list \<Rightarrow> pending \<Rightarrow> (str \<times> task_snapshot) list \<Rightarrow>
     pending \<times> (str \<times> task_snapshot) list" where
  "drain dir [] stack out = (stack, out)"
| "drain dir (Subdir n c # es) stack out = drain dir es ((join_path dir n, c) # stack) out"
| "drain dir (Plain n m (Some body) # es) stack out =
     drain dir es stack (put (join_path dir n) (file_snapshot m body) out)"
| "drain dir (_ # es) stack out = drain dir es stack out"

definition pending_size :: "pending \<Rightarrow> nat" where
  "pending_size stack =
     sum_list (map (\<lambda>(p, c). Suc (case c of None \<Rightarrow> 0 | Some es \<Rightarrow> size_list size es)) stack)"

lemma drain_size:
  "pending_size (fst (drain dir es stack out)) \<le> pending_size stack + size_list size es"
proof (induction dir es stack out rule: drain.induct)
  case (2 dir n c es stack out)
  then show ?case by (cases c) (auto simp: pending_size_def)
qed (auto simp: pending_size_def)

function scan_stack :: "pending \<Rightarrow> (str \<times> task_snapshot) list \<Rightarrow> (str \<times> task_snapshot) list" where
  "scan_stack [] out = out"
| "scan_stack ((dir, None) # stack) out = scan_stack stack out"
| "scan_stack ((dir, Some es) # stack) out =
     scan_stack (fst (drain dir es stack out)) (snd (drain dir es stack out))"
  by pat_completeness auto
termination
proof (relation "measure (\<lambda>(stack, out). pending_size stack)")
  fix dir :: str and es stack and out :: "(str \<times> task_snapshot) list"
  show "((fst (drain dir es stack out), snd (drain dir es stack out)), (dir, Some es) # stack, out)
      \<in> measure (\<lambda>(stack, out). pending_size stack)"
    using drain_size [of dir es stack out] by (simp add: pending_size_def case_prod_unfold)
qed (auto simp: pending_size_def)

definition scan_tasks :: "str \<Rightarrow> task_entry list option \<Rightarrow> (str \<times> task_snapshot) list option" where
  "scan_tasks root listing =
     map_option (\<lambda>es. scan_stack (fst (drain root es [] [])) (snd (drain root es [] []))) listing"

section \<open>Events\<close>

definition digest_text :: "u64 \<Rightarrow> str" where "digest_text d = pad0 16 (hex (unat d))"

text \<open>The name is the part after the last separator.\<close>

definition task_name :: "str \<Rightarrow> str" where
  "task_name path = rev (takeWhile (\<lambda>c. c \<noteq> CHR 0x5C \<and> c \<noteq> CHR ''/'') (rev path))"

definition task_payload :: "str \<Rightarrow> task_snapshot \<Rightarrow> task_snapshot option \<Rightarrow> json" where
  "task_payload path snap prev =
     JObj ([(''task_path'', JStr path), (''task_name'', JStr (task_name path)),
            (''mtime'', JInt (uint (tk_mtime snap))), (''digest'', JStr (digest_text (tk_digest snap))),
            (''size'', JInt (uint (tk_size snap)))] @
           (case prev of
              None \<Rightarrow> []
            | Some p \<Rightarrow> [(''previous'', JObj [(''mtime'', JInt (uint (tk_mtime p))),
                (''digest'', JStr (digest_text (tk_digest p))), (''size'', JInt (uint (tk_size p)))])]))"

definition task_event :: "str \<Rightarrow> str \<Rightarrow> json \<Rightarrow> persistence_event" where
  "task_event ty kind p = \<lparr>pe_event_type = ty, pe_kind = kind, pe_event_version = 1, pe_payload = p\<rparr>"

definition task_created :: "str \<Rightarrow> task_snapshot \<Rightarrow> persistence_event list" where
  "task_created path snap =
     [task_event ''scheduled_task_create'' ''ScheduledTaskCreate'' (task_payload path snap None)]"

definition task_modified :: "str \<Rightarrow> task_snapshot \<Rightarrow> task_snapshot \<Rightarrow> persistence_event list" where
  "task_modified path old snap =
     [task_event ''scheduled_task_modify'' ''ScheduledTaskModify'' (task_payload path snap (Some old))]"

definition task_deleted :: "str \<Rightarrow> task_snapshot \<Rightarrow> persistence_event list" where
  "task_deleted path old =
     [task_event ''scheduled_task_delete'' ''ScheduledTaskDelete'' (task_payload path old None)]"

definition tasks_diff ::
    "(str \<times> task_snapshot) list \<Rightarrow> (str \<times> task_snapshot) list \<Rightarrow> persistence_event list" where
  "tasks_diff prev next = diff_of task_created task_modified task_deleted prev next"

definition tasks_diff_and_emit ::
    "(json \<Rightarrow> bytes option) \<Rightarrow> spool_config \<Rightarrow> str \<Rightarrow> (str \<times> task_snapshot) list \<Rightarrow>
     (str \<times> task_snapshot) list \<Rightarrow> poll_state \<Rightarrow> poll_state" where
  "tasks_diff_and_emit to_writer cfg ts prev next s =
     fold (emit_persistence to_writer cfg ts) (tasks_diff prev next) s"

text \<open>The loop: the events emitted and the snapshot kept, from what the scans of the cycles find.\<close>

definition tasks_run ::
    "bool \<Rightarrow> (str \<times> task_snapshot) list option list \<Rightarrow>
     persistence_event list \<times> (str \<times> task_snapshot) list" where
  "tasks_run silent_first scans =
     (if silent_first then
        (case dropWhile (\<lambda>s. s = None) scans of
           Some first # rest \<Rightarrow> cycles_of tasks_diff rest first
         | _ \<Rightarrow> ([], []))
      else cycles_of tasks_diff scans [])"

section \<open>The journal of tasks\<close>

definition task_replay ::
    "persistence_event \<Rightarrow> (str \<rightharpoonup> task_snapshot) \<Rightarrow> (str \<rightharpoonup> task_snapshot)" where
  "task_replay e m =
     (case (get_str ''task_path'' (pe_payload e), get_u64 ''mtime'' (pe_payload e),
            get_str ''digest'' (pe_payload e), get_u64 ''size'' (pe_payload e)) of
        (Some path, Some mt, Some d, Some sz) \<Rightarrow>
          if pe_event_type e = ''scheduled_task_delete'' then m(path := None)
          else m(path \<mapsto> \<lparr>tk_mtime = word_of_nat mt, tk_digest = word_of_nat (hex_value d),
                          tk_size = word_of_nat sz\<rparr>)
      | _ \<Rightarrow> m)"

lemma as_u64_u64: "as_u64 (JInt (uint w)) = Some (unat w)" for w :: u64
  using uint_lt2p [of w] by simp

lemma task_replay_event:
  "task_replay (task_event ty kind (task_payload path snap prev)) m =
     (if ty = ''scheduled_task_delete'' then m(path := None) else m(path \<mapsto> snap))"
  by (cases snap)
     (simp add: task_replay_def task_event_def task_payload_def get_str_def get_u64_def as_u64_u64
      digest_text_def hex_value_pad0 hex_value_hex del: as_u64.simps)

interpretation tasks: snapshot_diff task_created task_modified task_deleted task_replay
  by unfold_locales
     (simp_all add: task_created_def task_modified_def task_deleted_def task_replay_event)

lemma put_new: "map_of m k = None \<Longrightarrow> put k v m = m @ [(k, v)]"
  by (induction m) (auto split: if_splits)

text \<open>The readable files of a tree, by recursion over it.\<close>

fun files_of :: "str \<Rightarrow> task_entry \<Rightarrow> (str \<times> task_snapshot) list" where
  "files_of dir (Plain n m (Some body)) = [(join_path dir n, file_snapshot m body)]"
| "files_of dir (Subdir n (Some es)) = concat (map (files_of (join_path dir n)) es)"
| "files_of dir _ = []"

definition pending_files :: "pending \<Rightarrow> (str \<times> task_snapshot) list" where
  "pending_files stack =
     concat (map (\<lambda>(dir, c). case c of None \<Rightarrow> [] | Some es \<Rightarrow> concat (map (files_of dir) es)) stack)"

lemma drain_files:
  "distinct (map fst (out @ pending_files stack @ concat (map (files_of dir) es))) \<Longrightarrow>
     mset (snd (drain dir es stack out) @ pending_files (fst (drain dir es stack out))) =
       mset (out @ pending_files stack @ concat (map (files_of dir) es))"
proof (induction dir es stack out rule: drain.induct)
  case (2 dir n c es stack out)
  have same: "mset (out @ pending_files ((join_path dir n, c) # stack) @ concat (map (files_of dir) es)) =
      mset (out @ pending_files stack @ concat (map (files_of dir) (Subdir n c # es)))"
    by (cases c) (simp_all add: pending_files_def)
  have "distinct (map fst (out @ pending_files ((join_path dir n, c) # stack) @
      concat (map (files_of dir) es)))"
    using "2.prems" same by (metis mset_eq_imp_distinct_iff mset_map)
  from "2.IH" [OF this] show ?case by (cases c) (simp_all add: pending_files_def)
next
  case (3 dir n m body es stack out)
  let ?e = "(join_path dir n, file_snapshot m body)"
  have new: "map_of out (join_path dir n) = None"
    using "3.prems" by (auto simp: map_of_eq_None_iff)
  have "distinct (map fst (put (join_path dir n) (file_snapshot m body) out @ pending_files stack @
      concat (map (files_of dir) es)))"
    using "3.prems" by (auto simp: put_new [OF new])
  from "3.IH" [OF this] show ?case by (simp add: put_new [OF new])
qed simp_all

lemma scan_stack_files:
  "distinct (map fst (out @ pending_files stack)) \<Longrightarrow>
     mset (scan_stack stack out) = mset (out @ pending_files stack)"
proof (induction stack out rule: scan_stack.induct)
  case (3 dir es stack out)
  let ?d = "drain dir es stack out"
  have all: "mset (out @ pending_files ((dir, Some es) # stack)) =
      mset (out @ pending_files stack @ concat (map (files_of dir) es))"
    by (simp add: pending_files_def)
  then have dist: "distinct (map fst (out @ pending_files stack @ concat (map (files_of dir) es)))"
    using "3.prems" by (metis mset_eq_imp_distinct_iff mset_map)
  note drained = drain_files [OF dist]
  then have "distinct (map fst (snd ?d @ pending_files (fst ?d)))"
    using dist by (metis mset_eq_imp_distinct_iff mset_map)
  from "3.IH" [OF this] drained all show ?case by simp
qed (simp_all add: pending_files_def)

lemma scan_tasks_files:
  assumes "distinct (map fst (concat (map (files_of root) es)))" and "scan_tasks root (Some es) = Some snap"
  shows "mset snap = mset (concat (map (files_of root) es))"
proof -
  let ?d = "drain root es [] []"
  have dist: "distinct (map fst ([] @ pending_files [] @ concat (map (files_of root) es)))"
    using assms(1) by (simp add: pending_files_def)
  note drained = drain_files [OF dist]
  then have "distinct (map fst (snd ?d @ pending_files (fst ?d)))"
    using dist by (metis mset_eq_imp_distinct_iff mset_map)
  from scan_stack_files [OF this] drained assms(2) show ?thesis
    by (auto simp: scan_tasks_def pending_files_def)
qed

text \<open>C35. The task poller sees and tells everything: a scan of a readable root finds exactly the readable
files of the tree, at any depth, each with the digest of its body; and a reader that replays the events
of any series of cycles over the first silent snapshot holds exactly the last snapshot, digests
included.\<close>

theorem tasks_journal:
  assumes "\<forall>s. Some s \<in> set scans \<longrightarrow> distinct (map fst s)"
    and "distinct (map fst (concat (map (files_of root) es)))"
  shows "fold task_replay (fst (tasks_run True (None # Some first # scans))) (map_of first) =
      map_of (snd (tasks_run True (None # Some first # scans))) \<and>
    fold task_replay (fst (tasks_run False scans)) Map.empty = map_of (snd (tasks_run False scans)) \<and>
    (\<exists>snap. scan_tasks root (Some es) = Some snap \<and> mset snap = mset (concat (map (files_of root) es)))"
proof (intro conjI)
  have diff: "tasks_diff = tasks.diff" by (intro ext) (simp add: tasks_diff_def tasks.diff_def)
  show "fold task_replay (fst (tasks_run True (None # Some first # scans))) (map_of first) =
      map_of (snd (tasks_run True (None # Some first # scans)))"
    using tasks.cycles_replay [OF assms(1), of first] by (simp add: tasks_run_def diff)
  show "fold task_replay (fst (tasks_run False scans)) Map.empty = map_of (snd (tasks_run False scans))"
    using tasks.cycles_replay [OF assms(1), of "[]"] by (simp add: tasks_run_def diff)
  obtain snap where "scan_tasks root (Some es) = Some snap" by (simp add: scan_tasks_def)
  with scan_tasks_files [OF assms(2) this]
  show "\<exists>snap. scan_tasks root (Some es) = Some snap \<and> mset snap = mset (concat (map (files_of root) es))"
    by blast
qed

theorem tasks_journal_witness:
  "let first = [(''C:/a'', file_snapshot (Some 5) [1])]; scans = [Some [(''C:/b'', file_snapshot None [2])]]
   in fold task_replay (fst (tasks_run True (None # Some first # scans))) (map_of first) =
     map_of [(''C:/b'', file_snapshot None [2])]"
  using tasks_journal [of "[Some [(''C:/b'', file_snapshot None [2])]]" "[]" "[]"
      "[(''C:/a'', file_snapshot (Some 5) [1])]"]
  by (simp add: tasks_run_def Let_def)

end
