(* ===== verification/Effects.thy ===== *)
theory Effects
  imports Prelude "HOL-Library.Sublist"
begin

text \<open>
  What the control plane does to the outside: HTTP requests, files, programs. An action of the source
  (a function that returns \<open>Result\<close> and acts on the host) is a function of the state of the world to a
  result and a new state. The world is the content of the files and the history of the effects, each
  with whether it succeeded. What an effect meets (the server's reply, a full disk, the exit status of
  a program) is decided by the environment from the whole history, so that a theorem about every
  environment is a theorem about every course of events.
\<close>

section \<open>Actions\<close>

type_synonym ('w, 'a) act = "'w \<Rightarrow> (str + 'a) \<times> 'w"

definition give :: "'a \<Rightarrow> ('w, 'a) act" where "give x w = (Inr x, w)"
definition throw :: "str \<Rightarrow> ('w, 'a) act" where "throw e w = (Inl e, w)"

text \<open>The \<open>?\<close> operator: go on with the value, or return the error.\<close>

definition seq :: "('w, 'a) act \<Rightarrow> ('a \<Rightarrow> ('w, 'b) act) \<Rightarrow> ('w, 'b) act" where
  "seq m f w = (case m w of (Inl e, w') \<Rightarrow> (Inl e, w') | (Inr x, w') \<Rightarrow> f x w')"

text \<open>\<open>map_err(|e| format!("msg{e}"))\<close>, and a result that is only looked at (\<open>.ok()\<close>, \<open>let _ =\<close>).\<close>

definition blame :: "str \<Rightarrow> ('w, 'a) act \<Rightarrow> ('w, 'a) act" where
  "blame msg m w = (case m w of (Inl e, w') \<Rightarrow> (Inl (msg @ e), w') | (Inr x, w') \<Rightarrow> (Inr x, w'))"

definition attempt :: "('w, 'a) act \<Rightarrow> ('w, str + 'a) act" where
  "attempt m w = (case m w of (r, w') \<Rightarrow> (Inr r, w'))"

definition lift_result :: "str + 'a \<Rightarrow> ('w, 'a) act" where "lift_result r w = (r, w)"

text \<open>A loop over a list whose body may fail.\<close>

fun each :: "('a \<Rightarrow> ('w, 'b) act) \<Rightarrow> 'a list \<Rightarrow> ('w, unit) act" where
  "each f [] = give ()"
| "each f (x # xs) = seq (f x) (\<lambda>_. each f xs)"

lemma seq_Inr:
  "seq m f w = (Inr y, w'') \<longleftrightarrow> (\<exists>x w'. m w = (Inr x, w') \<and> f x w' = (Inr y, w''))"
  by (auto simp: seq_def split: prod.splits sum.splits)

lemma blame_Inr: "blame msg m w = (Inr x, w') \<longleftrightarrow> m w = (Inr x, w')"
  by (auto simp: blame_def split: prod.splits sum.splits)

lemma give_Inr: "give x w = (Inr y, w') \<longleftrightarrow> y = x \<and> w' = w"
  by (auto simp: give_def)

lemma throw_Inr: "throw e w = (Inr y, w') \<longleftrightarrow> False"
  by (simp add: throw_def)

lemma lift_Inr: "lift_result r w = (Inr x, w') \<longleftrightarrow> r = Inr x \<and> w' = w"
  by (auto simp: lift_result_def)

lemmas success_simps = seq_Inr blame_Inr give_Inr throw_Inr lift_Inr

section \<open>Partial correctness of actions\<close>

text \<open>From a state with \<open>P\<close> the action ends with \<open>Q\<close> of its value and the state, or fails with \<open>E\<close> of
the state.\<close>

definition triple :: "('w \<Rightarrow> bool) \<Rightarrow> ('w, 'a) act \<Rightarrow> ('a \<Rightarrow> 'w \<Rightarrow> bool) \<Rightarrow> ('w \<Rightarrow> bool) \<Rightarrow> bool" where
  "triple P m Q E \<longleftrightarrow>
     (\<forall>w. P w \<longrightarrow> (case m w of (Inl e, w') \<Rightarrow> E w' | (Inr x, w') \<Rightarrow> Q x w'))"

named_theorems triples \<open>rules for the actions of the model\<close>

lemma triple_seq [triples]:
  "triple P m R E \<Longrightarrow> (\<And>x. triple (R x) (f x) Q E) \<Longrightarrow> triple P (seq m f) Q E"
  unfolding triple_def seq_def by (fastforce split: prod.splits sum.splits)

lemma triple_give [triples]: "(\<And>w. P w \<Longrightarrow> Q x w) \<Longrightarrow> triple P (give x) Q E"
  by (simp add: triple_def give_def)

lemma triple_throw [triples]: "(\<And>w. P w \<Longrightarrow> E w) \<Longrightarrow> triple P (throw e) Q E"
  by (simp add: triple_def throw_def)

lemma triple_blame [triples]: "triple P m Q E \<Longrightarrow> triple P (blame msg m) Q E"
  unfolding triple_def blame_def by (fastforce split: prod.splits sum.splits)

lemma triple_attempt [triples]:
  "triple P m (\<lambda>x. Q (Inr x)) (\<lambda>w. \<forall>e. Q (Inl e) w) \<Longrightarrow> triple P (attempt m) Q E"
  unfolding triple_def attempt_def by (fastforce split: prod.splits sum.splits)

lemma triple_lift [triples]:
  "(\<And>w x. P w \<Longrightarrow> r = Inr x \<Longrightarrow> Q x w) \<Longrightarrow> (\<And>w. P w \<Longrightarrow> E w) \<Longrightarrow> triple P (lift_result r) Q E"
  by (auto simp: triple_def lift_result_def split: sum.splits)

lemma triple_each [triples]:
  assumes "\<And>x. x \<in> set xs \<Longrightarrow> triple I (f x) (\<lambda>_. I) E"
  shows "triple I (each f xs) (\<lambda>_. I) E"
  using assms by (induction xs) (auto intro!: triple_give intro: triple_seq)

lemma triple_if [triples]:
  "(b \<Longrightarrow> triple P m Q E) \<Longrightarrow> (\<not> b \<Longrightarrow> triple P n Q E) \<Longrightarrow> triple P (if b then m else n) Q E"
  by simp

lemma triple_weaken:
  "triple P m Q E \<Longrightarrow> (\<And>w. P' w \<Longrightarrow> P w) \<Longrightarrow> (\<And>x w. Q x w \<Longrightarrow> Q' x w) \<Longrightarrow> (\<And>w. E w \<Longrightarrow> E' w) \<Longrightarrow>
     triple P' m Q' E'"
  unfolding triple_def by (fastforce split: prod.splits sum.splits)

text \<open>An action that keeps a predicate of the state whatever happens.\<close>

definition keeps :: "('w \<Rightarrow> bool) \<Rightarrow> ('w, 'a) act \<Rightarrow> bool" where
  "keeps I m \<longleftrightarrow> triple I m (\<lambda>_. I) I"

named_theorems keeping \<open>rules of keeps\<close>

lemma keeps_iff: "keeps I m \<longleftrightarrow> (\<forall>w. I w \<longrightarrow> I (snd (m w)))"
  by (auto simp: keeps_def triple_def case_prod_unfold split: sum.splits)

lemma keeps_seq [keeping]: "keeps I m \<Longrightarrow> (\<And>x. keeps I (f x)) \<Longrightarrow> keeps I (seq m f)"
  unfolding keeps_def by (rule triple_seq)

lemma keeps_seq_value:
  "keeps I m \<Longrightarrow> (\<And>x w w'. m w = (Inr x, w') \<Longrightarrow> keeps I (f x)) \<Longrightarrow> keeps I (seq m f)"
  unfolding keeps_iff seq_def by (fastforce split: prod.splits sum.splits)

lemma keeps_give [keeping]: "keeps I (give x)"
  by (simp add: keeps_iff give_def)

lemma keeps_throw [keeping]: "keeps I (throw e)"
  by (simp add: keeps_iff throw_def)

lemma keeps_lift [keeping]: "keeps I (lift_result r)"
  by (simp add: keeps_iff lift_result_def)

lemma keeps_blame [keeping]: "keeps I m \<Longrightarrow> keeps I (blame msg m)"
  by (auto simp: keeps_iff blame_def case_prod_unfold split: sum.splits)

lemma keeps_attempt [keeping]: "keeps I m \<Longrightarrow> keeps I (attempt m)"
  by (auto simp: keeps_iff attempt_def case_prod_unfold)

lemma keeps_each [keeping]: "(\<And>x. x \<in> set xs \<Longrightarrow> keeps I (f x)) \<Longrightarrow> keeps I (each f xs)"
  unfolding keeps_def by (rule triple_each)

lemma keeps_if [keeping]: "keeps I m \<Longrightarrow> keeps I n \<Longrightarrow> keeps I (if b then m else n)"
  by simp

section \<open>The world\<close>

record http_call =
  hc_method :: str
  hc_url :: str
  hc_headers :: "(str \<times> str) list"
  hc_body :: bytes

record reply =
  re_status :: nat
  re_header :: "str \<Rightarrow> str option"
  re_text :: "str + str"
  re_data :: bytes
  re_broken :: "str option"

datatype effect =
    Request http_call
  | Make_dir str
  | Write_file str bytes
  | Delete_file str
  | Move_file str str
  | Copy_file str str
  | Delete_tree str
  | Run_program str "str list"
  | Terminate_process u32
  | Reload_rules
  | Request_restart

type_synonym history = "(effect \<times> bool) list"

record world =
  w_files :: "str \<Rightarrow> bytes option"
  w_history :: history

record program_end =
  pe_code :: "int option"
  pe_success :: bool
  pe_millis :: "millis option"
  pe_stdout :: bytes
  pe_stderr :: bytes

record env =
  en_reply :: "history \<Rightarrow> http_call \<Rightarrow> str + reply"
  en_failure :: "history \<Rightarrow> effect \<Rightarrow> (str \<times> (str \<Rightarrow> bytes option)) option"
  en_unreadable :: "history \<Rightarrow> str \<Rightarrow> str option"
  en_program :: "history \<Rightarrow> str \<Rightarrow> str list \<Rightarrow> str + program_end"
  en_pipe :: nat

text \<open>\<open>tree_of dir\<close>: the files below a directory.\<close>

definition tree_of :: "str \<Rightarrow> str \<Rightarrow> bool" where
  "tree_of dir p \<longleftrightarrow> starts_with p (dir @ [CHR 0x5C])"

text \<open>What an effect does to the files when it succeeds, and which files it may leave in any state when
it fails half way (a rename and a removal happen or do not).\<close>

fun applied :: "effect \<Rightarrow> (str \<Rightarrow> bytes option) \<Rightarrow> str \<Rightarrow> bytes option" where
  "applied (Write_file p b) fs = fs(p := Some b)"
| "applied (Delete_file p) fs = fs(p := None)"
| "applied (Move_file p q) fs = (fs(q := fs p))(p := None)"
| "applied (Copy_file p q) fs = fs(q := fs p)"
| "applied (Delete_tree d) fs = (\<lambda>p. if tree_of d p then None else fs p)"
| "applied _ fs = fs"

fun torn :: "effect \<Rightarrow> str \<Rightarrow> bool" where
  "torn (Write_file p b) q = (q = p)"
| "torn (Copy_file p q') q = (q = q')"
| "torn (Delete_tree d) q = tree_of d q"
| "torn _ q = False"

definition record_effect :: "effect \<Rightarrow> bool \<Rightarrow> world \<Rightarrow> world" where
  "record_effect e ok w = w\<lparr>w_history := w_history w @ [(e, ok)]\<rparr>"

definition perform :: "env \<Rightarrow> effect \<Rightarrow> (world, unit) act" where
  "perform env e w =
     (case en_failure env (w_history w) e of
        None \<Rightarrow> (Inr (), record_effect e True (w\<lparr>w_files := applied e (w_files w)\<rparr>))
      | Some (msg, left) \<Rightarrow>
          (Inl msg, record_effect e False
             (w\<lparr>w_files := \<lambda>p. if torn e p then left p else w_files w p\<rparr>)))"

definition read_file :: "env \<Rightarrow> str \<Rightarrow> (world, bytes) act" where
  "read_file env p w =
     (case en_unreadable env (w_history w) p of
        Some msg \<Rightarrow> (Inl msg, w)
      | None \<Rightarrow> (case w_files w p of None \<Rightarrow> (Inl ''not found'', w) | Some b \<Rightarrow> (Inr b, w)))"

definition file_exists :: "str \<Rightarrow> (world, bool) act" where
  "file_exists p w = (Inr (w_files w p \<noteq> None), w)"

text \<open>A program is recorded with what the caller takes for its success.\<close>

definition run_program ::
    "env \<Rightarrow> (program_end \<Rightarrow> bool) \<Rightarrow> str \<Rightarrow> str list \<Rightarrow> (world, program_end) act" where
  "run_program env accept prog args w =
     (case en_program env (w_history w) prog args of
        Inl msg \<Rightarrow> (Inl msg, record_effect (Run_program prog args) False w)
      | Inr r \<Rightarrow> (Inr r, record_effect (Run_program prog args) (accept r) w))"

text \<open>Two commands poll a child whose output they read only after it has exited. A child that writes
more than a pipe holds (\<open>en_pipe\<close>) blocks and does not exit by itself.\<close>

definition exits_at :: "env \<Rightarrow> program_end \<Rightarrow> millis option" where
  "exits_at env r =
     (if en_pipe env < length (pe_stdout r) \<or> en_pipe env < length (pe_stderr r) then None
      else pe_millis r)"

text \<open>The polling loop: look, give up at the limit, sleep \<open>gap + 1\<close> milliseconds, look again. The result
says whether the child was seen to exit, and when the loop was left.\<close>

function poll_exit :: "millis \<Rightarrow> millis \<Rightarrow> millis option \<Rightarrow> millis \<Rightarrow> bool \<times> millis" where
  "poll_exit limit gap ends now =
     (if (case ends of Some t \<Rightarrow> t \<le> now | None \<Rightarrow> False) then (True, now)
      else if limit \<le> now then (False, now)
      else poll_exit limit gap ends (now + gap + 1))"
  by pat_completeness auto
termination by (relation "measure (\<lambda>(limit, gap, ends, now). limit - now)") auto

declare poll_exit.simps [simp del]

lemma poll_exit_never: "fst (poll_exit limit gap None now) = False"
  by (induction limit gap "None :: millis option" now rule: poll_exit.induct)
     (subst poll_exit.simps, simp)

lemma poll_exit_bound: "now \<le> limit + gap \<Longrightarrow> snd (poll_exit limit gap ends now) \<le> limit + gap"
  by (induction limit gap ends now rule: poll_exit.induct) (subst poll_exit.simps, simp)

lemma poll_exit_in_time: "now \<le> t \<Longrightarrow> t \<le> limit \<Longrightarrow> fst (poll_exit limit gap (Some t) now)"
proof (induction limit gap "Some t" now rule: poll_exit.induct)
  case (1 limit gap now)
  show ?case
  proof (cases "now + gap + 1 \<le> t")
    case True
    with 1 show ?thesis by (subst poll_exit.simps) auto
  next
    case False
    then have "fst (poll_exit limit gap (Some t) (now + gap + 1))" by (subst poll_exit.simps) simp
    with 1(3) show ?thesis by (subst poll_exit.simps) simp
  qed
qed

lemma read_file_keeps [keeping]: "keeps I (read_file env p)"
  by (auto simp: keeps_iff read_file_def split: option.splits)

lemma file_exists_keeps [keeping]: "keeps I (file_exists p)"
  by (simp add: keeps_iff file_exists_def)

lemma record_effect_simps [simp]:
  "w_files (record_effect e ok w) = w_files w"
  "w_history (record_effect e ok w) = w_history w @ [(e, ok)]"
  by (simp_all add: record_effect_def)

text \<open>A predicate of the effects that the history may contain.\<close>

definition only_effects :: "(effect \<Rightarrow> bool) \<Rightarrow> world \<Rightarrow> bool" where
  "only_effects A w \<longleftrightarrow> (\<forall>(e, ok)\<in>set (w_history w). A e)"

lemma perform_only [keeping]: "A e \<Longrightarrow> keeps (only_effects A) (perform env e)"
  by (auto simp: keeps_iff only_effects_def perform_def split: option.splits)

lemma run_program_only [keeping]:
  "A (Run_program prog args) \<Longrightarrow> keeps (only_effects A) (run_program env accept prog args)"
  by (auto simp: keeps_iff only_effects_def run_program_def split: sum.splits)

text \<open>The history only grows.\<close>

definition extends :: "history \<Rightarrow> world \<Rightarrow> bool" where
  "extends h w \<longleftrightarrow> prefix h (w_history w)"

lemma perform_extends [keeping]: "keeps (extends h) (perform env e)"
  by (auto simp: keeps_iff extends_def perform_def split: option.splits)

lemma run_program_extends [keeping]: "keeps (extends h) (run_program env accept prog args)"
  by (auto simp: keeps_iff extends_def run_program_def split: sum.splits)

text \<open>The effects since a point of the history all satisfy a predicate.\<close>

definition since :: "history \<Rightarrow> (effect \<times> bool \<Rightarrow> bool) \<Rightarrow> world \<Rightarrow> bool" where
  "since h A w \<longleftrightarrow> (\<exists>t. w_history w = h @ t \<and> (\<forall>x\<in>set t. A x))"

lemma since_start: "since (w_history w) A w"
  by (simp add: since_def)

lemma since_record: "since h A w \<Longrightarrow> A (e, ok) \<Longrightarrow> since h A (record_effect e ok w)"
  by (auto simp: since_def)

lemma since_new: "since h A w \<Longrightarrow> x \<in> set (drop (length h) (w_history w)) \<Longrightarrow> A x"
  by (auto simp: since_def)

lemma since_files [simp]: "since h A (w\<lparr>w_files := fs\<rparr>) = since h A w"
  by (simp add: since_def)

lemma perform_since [keeping]: "A (e, True) \<Longrightarrow> A (e, False) \<Longrightarrow> keeps (since h A) (perform env e)"
  by (auto simp: keeps_iff perform_def intro!: since_record split: option.splits)

lemma run_program_since [keeping]:
  "(\<And>ok. A (Run_program prog args, ok)) \<Longrightarrow> keeps (since h A) (run_program env accept prog args)"
  by (auto simp: keeps_iff run_program_def intro!: since_record split: sum.splits)

text \<open>The files outside a set.\<close>

definition frame :: "(str \<Rightarrow> bool) \<Rightarrow> (str \<Rightarrow> bytes option) \<Rightarrow> world \<Rightarrow> bool" where
  "frame S fs w \<longleftrightarrow> (\<forall>p. \<not> S p \<longrightarrow> w_files w p = fs p)"

fun changes :: "effect \<Rightarrow> str \<Rightarrow> bool" where
  "changes (Write_file p b) q = (q = p)"
| "changes (Delete_file p) q = (q = p)"
| "changes (Move_file p p') q = (q = p \<or> q = p')"
| "changes (Copy_file p p') q = (q = p')"
| "changes (Delete_tree d) q = tree_of d q"
| "changes _ q = False"

lemma applied_other: "\<not> changes e p \<Longrightarrow> applied e fs p = fs p"
  by (cases e) auto

lemma torn_changes: "torn e p \<Longrightarrow> changes e p"
  by (cases e) auto

lemma perform_frame [keeping]:
  "(\<And>p. changes e p \<Longrightarrow> S p) \<Longrightarrow> keeps (frame S fs) (perform env e)"
  by (auto simp: keeps_iff frame_def perform_def applied_other dest: torn_changes split: option.splits)
     (metis applied_other)

lemma run_program_frame [keeping]: "keeps (frame S fs) (run_program env accept prog args)"
  by (auto simp: keeps_iff frame_def run_program_def split: sum.splits)

end
