(* ===== verification/Client.thy ===== *)
theory Client
  imports Effects Paths Manifest Decimal
begin

text \<open>
  The HTTP client of the control plane (\<open>src/src/control/client.rs\<close>): the requests it sends, and what
  it makes of the replies. \<open>ureq\<close> is the environment of the theory Effects: a reply with a status of 400 or
  more is an error of the library. \<open>serde_json\<close> is the record \<open>codec\<close>; the derived shapes of requests
  and responses are written out.
\<close>

record server_creds =
  cr_server_url :: str
  cr_agent_id :: str
  cr_token :: str

record codec =
  cd_write :: "json \<Rightarrow> str + bytes"
  cd_pretty :: "json \<Rightarrow> str + bytes"
  cd_read :: "str \<Rightarrow> str + json"
  cd_shape_error :: "json \<Rightarrow> str"

definition parse_as :: "codec \<Rightarrow> (json \<Rightarrow> 'a option) \<Rightarrow> str \<Rightarrow> str + 'a" where
  "parse_as c decode t =
     (case cd_read c t of
        Inl e \<Rightarrow> Inl e
      | Inr j \<Rightarrow> (case decode j of None \<Rightarrow> Inl (cd_shape_error c j) | Some x \<Rightarrow> Inr x))"

text \<open>A library that can write every value.\<close>

definition serialises :: "codec \<Rightarrow> (json \<Rightarrow> bytes) \<Rightarrow> bool" where
  "serialises c ser \<longleftrightarrow> (\<forall>j. cd_write c j = Inr (ser j))"

section \<open>Shapes\<close>

record module_ref =
  mo_id :: str
  mo_version :: str

record rule_error =
  rx_rule_name :: str
  rx_message :: str

record heartbeat_request =
  hb_status :: str
  hb_agent_version :: str
  hb_last_rule_version :: int
  hb_profile_version :: int
  hb_modules_loaded :: "module_ref list"
  hb_rule_errors :: "rule_error list"
  hb_metrics :: "json option"

definition module_ref_json :: "module_ref \<Rightarrow> json" where
  "module_ref_json m = JObj [(''id'', JStr (mo_id m)), (''version'', JStr (mo_version m))]"

definition rule_error_json :: "rule_error \<Rightarrow> json" where
  "rule_error_json e = JObj [(''rule_name'', JStr (rx_rule_name e)), (''message'', JStr (rx_message e))]"

definition heartbeat_json :: "heartbeat_request \<Rightarrow> json" where
  "heartbeat_json r =
     JObj ([(''status'', JStr (hb_status r)), (''agent_version'', JStr (hb_agent_version r)),
            (''last_rule_version'', JInt (hb_last_rule_version r)),
            (''profile_version'', JInt (hb_profile_version r)),
            (''modules_loaded'', JArr (map module_ref_json (hb_modules_loaded r))),
            (''rule_errors'', JArr (map rule_error_json (hb_rule_errors r)))] @
           (case hb_metrics r of None \<Rightarrow> [] | Some m \<Rightarrow> [(''metrics'', m)]))"

record command =
  co_id :: str
  co_type :: str
  co_payload :: json

record plugin_action =
  pa_package_id :: str
  pa_version :: str
  pa_action :: str
  pa_id_local :: "str option"

record heartbeat_response =
  hr_server_time :: str
  hr_current_profile_version :: int
  hr_pending_commands :: "command list"
  hr_pending_plugins :: "plugin_action list"
  hr_next_checkin_seconds :: int

text \<open>Decoders of fields: a field with a default may be absent, but not of another type.\<close>

definition default_to :: "'a \<Rightarrow> (json \<Rightarrow> 'a option) \<Rightarrow> str \<Rightarrow> json \<Rightarrow> 'a option" where
  "default_to d decode k j = (case json_get k j of None \<Rightarrow> Some d | Some v \<Rightarrow> decode v)"

fun decode_all :: "(json \<Rightarrow> 'a option) \<Rightarrow> json list \<Rightarrow> 'a list option" where
  "decode_all decode [] = Some []"
| "decode_all decode (j # js) =
     (case decode j of None \<Rightarrow> None | Some x \<Rightarrow> map_option (Cons x) (decode_all decode js))"

definition decode_list :: "(json \<Rightarrow> 'a option) \<Rightarrow> json \<Rightarrow> 'a list option" where
  "decode_list decode j = Option.bind (as_array j) (decode_all decode)"

definition command_of_json :: "json \<Rightarrow> command option" where
  "command_of_json j =
     (case (get_str ''id'' j, get_str ''type'' j) of
        (Some i, Some t) \<Rightarrow>
          Some \<lparr>co_id = i, co_type = t,
                co_payload = (case json_get ''payload'' j of None \<Rightarrow> JNull | Some p \<Rightarrow> p)\<rparr>
      | _ \<Rightarrow> None)"

definition plugin_action_of_json :: "json \<Rightarrow> plugin_action option" where
  "plugin_action_of_json j =
     (case (get_str ''plugin_package_id'' j, get_str ''version'' j, get_str ''action'' j,
            default_str ''plugin_id_local'' j) of
        (Some i, Some v, Some a, Some l) \<Rightarrow>
          Some \<lparr>pa_package_id = i, pa_version = v, pa_action = a, pa_id_local = l\<rparr>
      | _ \<Rightarrow> None)"

definition heartbeat_response_of_json :: "json \<Rightarrow> heartbeat_response option" where
  "heartbeat_response_of_json j =
     (if as_object j = None then None
      else case (default_to [] as_str ''server_time'' j, default_to 0 as_i64 ''current_profile_version'' j,
            default_to [] (decode_list command_of_json) ''pending_commands'' j) of
        (Some t, Some v, Some cs) \<Rightarrow>
          (case (default_to [] (decode_list plugin_action_of_json) ''pending_plugins'' j,
                 default_to 0 as_i64 ''next_checkin_seconds'' j) of
             (Some ps, Some n) \<Rightarrow>
               Some \<lparr>hr_server_time = t, hr_current_profile_version = v, hr_pending_commands = cs,
                     hr_pending_plugins = ps, hr_next_checkin_seconds = n\<rparr>
           | _ \<Rightarrow> None)
      | _ \<Rightarrow> None)"

record plugin_info =
  pi_name :: str
  pi_vendor :: str
  pi_version :: str
  pi_artifact :: str
  pi_auto_launch :: bool
  pi_extras :: "str list"
  pi_env :: "(str \<times> str) list"

definition extra_of_json :: "json \<Rightarrow> str option" where
  "extra_of_json j =
     (case (get_str ''filename'' j, get_str ''kind'' j) of (Some f, Some k) \<Rightarrow> Some f | _ \<Rightarrow> None)"

definition plugin_info_of_json :: "json \<Rightarrow> plugin_info option" where
  "plugin_info_of_json j =
     (case (get_str ''plugin_package_id'' j, get_str ''name'' j, get_str ''vendor'' j,
            get_str ''version'' j) of
        (Some i, Some n, Some v, Some ver) \<Rightarrow>
          (case (get_str ''artifact_filename'' j, get_bool ''auto_launch'' j,
                 default_to [] (decode_list extra_of_json) ''extras'' j, default_env ''env'' j) of
             (Some f, Some a, Some xs, Some e) \<Rightarrow>
               Some \<lparr>pi_name = n, pi_vendor = v, pi_version = ver, pi_artifact = f,
                     pi_auto_launch = a, pi_extras = xs, pi_env = e\<rparr>
           | _ \<Rightarrow> None)
      | _ \<Rightarrow> None)"

record status_report =
  sr_phase :: str
  sr_version :: str
  sr_id_local :: "str option"
  sr_error :: "str option"

definition opt_field :: "str \<Rightarrow> str option \<Rightarrow> (str \<times> json) list" where
  "opt_field k v = (case v of None \<Rightarrow> [] | Some s \<Rightarrow> [(k, JStr s)])"

text \<open>The counters and timestamps of a report are constants in every report the agent sends.\<close>

definition status_report_json :: "status_report \<Rightarrow> json" where
  "status_report_json r =
     JObj ([(''phase'', JStr (sr_phase r)), (''version'', JStr (sr_version r))] @
           opt_field ''plugin_id_local'' (sr_id_local r) @
           [(''events_emitted'', JInt 0), (''crash_count_1h'', JInt 0)] @ opt_field ''error'' (sr_error r))"

record profile_metadata =
  pf_profile_id :: str
  pf_version :: int
  pf_hash :: str
  pf_modules_required :: "module_ref list"

definition module_ref_of_json :: "json \<Rightarrow> module_ref option" where
  "module_ref_of_json j =
     (case (get_str ''id'' j, get_str ''version'' j) of
        (Some i, Some v) \<Rightarrow> Some \<lparr>mo_id = i, mo_version = v\<rparr>
      | _ \<Rightarrow> None)"

definition profile_metadata_of_json :: "json \<Rightarrow> profile_metadata option" where
  "profile_metadata_of_json j =
     (case (get_str ''profile_id'' j, Option.bind (json_get ''version'' j) as_i64,
            default_to [] as_str ''hash'' j,
            default_to [] (decode_list module_ref_of_json) ''modules_required'' j) of
        (Some i, Some v, Some h, Some ms) \<Rightarrow>
          Some \<lparr>pf_profile_id = i, pf_version = v, pf_hash = h, pf_modules_required = ms\<rparr>
      | _ \<Rightarrow> None)"

record alert_out =
  ao_ts :: str
  ao_rule_id :: str
  ao_rule_name :: str
  ao_severity :: str
  ao_module :: str
  ao_action_taken :: str
  ao_evidence :: json

definition alert_out_json :: "alert_out \<Rightarrow> json" where
  "alert_out_json a =
     JObj [(''ts'', JStr (ao_ts a)), (''rule_id'', JStr (ao_rule_id a)),
           (''rule_name'', JStr (ao_rule_name a)), (''severity'', JStr (ao_severity a)),
           (''module'', JStr (ao_module a)), (''action_taken'', JStr (ao_action_taken a)),
           (''evidence'', ao_evidence a)]"

section \<open>Requests\<close>

datatype http_error = Status nat reply | Transport_failure str

definition exchange :: "env \<Rightarrow> http_call \<Rightarrow> world \<Rightarrow> (http_error + reply) \<times> world" where
  "exchange env c w =
     (case en_reply env (w_history w) c of
        Inl e \<Rightarrow> (Inl (Transport_failure e), record_effect (Request c) False w)
      | Inr r \<Rightarrow>
          (if 400 \<le> re_status r then (Inl (Status (re_status r) r), record_effect (Request c) False w)
           else (Inr r, record_effect (Request c) True w)))"

definition em_dash :: str where "em_dash = [CHR 0xE2, CHR 0x80, CHR 0x94]"

definition arrow :: str where "arrow = [CHR 0xE2, CHR 0x86, CHR 0x92]"

fun stringify_err :: "http_error \<Rightarrow> str" where
  "stringify_err (Status code resp) =
     ''HTTP '' @ dec code @ '' '' @ em_dash @ '' '' @ (case re_text resp of Inl _ \<Rightarrow> [] | Inr t \<Rightarrow> t)"
| "stringify_err (Transport_failure t) = ''transport: '' @ t"

definition call :: "env \<Rightarrow> http_call \<Rightarrow> (world, reply) act" where
  "call env c w =
     (case exchange env c w of
        (Inl e, w') \<Rightarrow> (Inl (stringify_err e), w')
      | (Inr r, w') \<Rightarrow> (Inr r, w'))"

definition url :: "server_creds \<Rightarrow> str \<Rightarrow> str" where "url cr path = cr_server_url cr @ path"

definition bearer :: "server_creds \<Rightarrow> str" where "bearer cr = ''Bearer '' @ cr_token cr"

definition get_call :: "server_creds \<Rightarrow> str \<Rightarrow> http_call" where
  "get_call cr u =
     \<lparr>hc_method = ''GET'', hc_url = u, hc_headers = [(''Authorization'', bearer cr)], hc_body = []\<rparr>"

definition post_call :: "server_creds \<Rightarrow> str \<Rightarrow> bytes \<Rightarrow> http_call" where
  "post_call cr u body =
     \<lparr>hc_method = ''POST'', hc_url = u,
      hc_headers = [(''Content-Type'', ''application/json''), (''Authorization'', bearer cr)],
      hc_body = body\<rparr>"

definition agent_url :: "server_creds \<Rightarrow> str \<Rightarrow> str" where
  "agent_url cr tail = url cr (''/api/v1/agents/'' @ cr_agent_id cr @ tail)"

definition heartbeat ::
    "env \<Rightarrow> codec \<Rightarrow> server_creds \<Rightarrow> heartbeat_request \<Rightarrow> (world, heartbeat_response) act" where
  "heartbeat env c cr req =
     seq (blame ''serialize heartbeat: '' (lift_result (cd_write c (heartbeat_json req)))) (\<lambda>body.
     seq (call env (post_call cr (agent_url cr ''/heartbeat'') body)) (\<lambda>resp.
     seq (blame ''read heartbeat response: '' (lift_result (re_text resp))) (\<lambda>t.
     blame ''parse heartbeat response: '' (lift_result (parse_as c heartbeat_response_of_json t)))))"

text \<open>\<open>Ok(None)\<close> on 404; the two functions that share this match are \<open>get_profile_metadata\<close> and
\<open>get_plugin_info\<close>.\<close>

definition optional_get ::
    "env \<Rightarrow> codec \<Rightarrow> server_creds \<Rightarrow> str \<Rightarrow> str \<Rightarrow> str \<Rightarrow> (json \<Rightarrow> 'a option) \<Rightarrow>
     (world, 'a option) act" where
  "optional_get env c cr u reading parsing decode w =
     (case exchange env (get_call cr u) w of
        (Inr resp, w') \<Rightarrow>
          seq (blame reading (lift_result (re_text resp))) (\<lambda>t.
          seq (blame parsing (lift_result (parse_as c decode t))) (\<lambda>x. give (Some x))) w'
      | (Inl e, w') \<Rightarrow>
          (case e of
             Status code resp \<Rightarrow> if code = 404 then (Inr None, w') else (Inl (stringify_err e), w')
           | Transport_failure t \<Rightarrow> (Inl (stringify_err e), w')))"

definition get_profile_metadata ::
    "env \<Rightarrow> codec \<Rightarrow> server_creds \<Rightarrow> (world, profile_metadata option) act" where
  "get_profile_metadata env c cr =
     optional_get env c cr (agent_url cr ''/profile'') ''read profile response: ''
       ''parse profile metadata: '' profile_metadata_of_json"

definition get_plugin_info ::
    "env \<Rightarrow> codec \<Rightarrow> server_creds \<Rightarrow> str \<Rightarrow> (world, plugin_info option) act" where
  "get_plugin_info env c cr pkg =
     optional_get env c cr (url cr (''/api/v1/plugins/'' @ pkg @ ''/info'')) ''read plugin info: ''
       ''parse plugin info: '' plugin_info_of_json"

definition get_profile_template ::
    "env \<Rightarrow> codec \<Rightarrow> server_creds \<Rightarrow> str \<Rightarrow> (world, json) act" where
  "get_profile_template env c cr profile_id =
     seq (call env (get_call cr (url cr (''/api/v1/profiles/'' @ profile_id @ ''/template'')))) (\<lambda>resp.
     seq (blame ''read template response: '' (lift_result (re_text resp))) (\<lambda>t.
     blame ''parse template: '' (lift_result (cd_read c t))))"

definition post_alerts ::
    "env \<Rightarrow> codec \<Rightarrow> server_creds \<Rightarrow> alert_out list \<Rightarrow> (world, nat) act" where
  "post_alerts env c cr alerts =
     seq (blame ''serialize alerts: ''
            (lift_result (cd_write c (JObj [(''alerts'', JArr (map alert_out_json alerts))])))) (\<lambda>bs.
     seq (call env (post_call cr (agent_url cr ''/alerts'') bs)) (\<lambda>resp.
     give (case re_text resp of
             Inl _ \<Rightarrow> length alerts
           | Inr t \<Rightarrow> (case cd_read c t of
                         Inl _ \<Rightarrow> length alerts
                       | Inr v \<Rightarrow> (case get_u64 ''received'' v of
                                     Some n \<Rightarrow> n | None \<Rightarrow> length alerts)))))"

text \<open>\<open>download_to\<close>: the parent directory is made, the file is created and the body is copied into it;
what the copy leaves when it fails is what the environment says.\<close>

definition sha_header :: "reply \<Rightarrow> str" where
  "sha_header resp =
     (case re_header resp ''X-Plugin-SHA256'' of
        Some h \<Rightarrow> h
      | None \<Rightarrow> (case re_header resp ''X-Plugin-File-SHA256'' of Some h \<Rightarrow> h | None \<Rightarrow> []))"

definition download_to :: "env \<Rightarrow> server_creds \<Rightarrow> str \<Rightarrow> str \<Rightarrow> (world, str) act" where
  "download_to env cr u dest =
     seq (call env (get_call cr u)) (\<lambda>resp.
     seq (blame ''mkdir: '' (perform env (Make_dir (parent_dir dest)))) (\<lambda>_.
     seq (blame ''create: '' (perform env (Write_file dest []))) (\<lambda>_.
     seq (blame ''write: '' (perform env (Write_file dest (re_data resp)))) (\<lambda>_.
     case re_broken resp of
       Some e \<Rightarrow> throw (''write: '' @ e)
     | None \<Rightarrow> give (sha_header resp)))))"

definition download_plugin_binary ::
    "env \<Rightarrow> server_creds \<Rightarrow> str \<Rightarrow> str \<Rightarrow> (world, str) act" where
  "download_plugin_binary env cr pkg dest =
     download_to env cr (url cr (''/api/v1/plugins/'' @ pkg @ ''/binary'')) dest"

definition download_plugin_extra ::
    "env \<Rightarrow> server_creds \<Rightarrow> str \<Rightarrow> str \<Rightarrow> str \<Rightarrow> (world, str) act" where
  "download_plugin_extra env cr pkg filename dest =
     download_to env cr (url cr (''/api/v1/plugins/'' @ pkg @ ''/files/'' @ filename)) dest"

definition status_url :: "server_creds \<Rightarrow> str \<Rightarrow> str" where
  "status_url cr pkg = agent_url cr (''/plugins/'' @ pkg @ ''/status'')"

definition report_plugin_status ::
    "env \<Rightarrow> codec \<Rightarrow> server_creds \<Rightarrow> str \<Rightarrow> status_report \<Rightarrow> (world, unit) act" where
  "report_plugin_status env c cr pkg r =
     seq (blame ''serialize plugin status: '' (lift_result (cd_write c (status_report_json r)))) (\<lambda>bs.
     seq (call env (post_call cr (status_url cr pkg) bs)) (\<lambda>_. give ()))"

definition ack_command ::
    "env \<Rightarrow> codec \<Rightarrow> server_creds \<Rightarrow> str \<Rightarrow> str \<Rightarrow> json \<Rightarrow> (world, unit) act" where
  "ack_command env c cr cmd status result =
     seq (blame ''serialize ack: ''
            (lift_result (cd_write c (JObj [(''status'', JStr status), (''result'', result)])))) (\<lambda>bs.
     seq (call env (post_call cr (agent_url cr (''/commands/'' @ cmd @ ''/ack'')) bs)) (\<lambda>_. give ()))"

section \<open>What requests leave alone\<close>

lemma call_frame [keeping]: "keeps (frame S fs) (call env c)"
  by (auto simp: keeps_iff frame_def call_def exchange_def split: sum.splits prod.splits if_splits)

lemma call_extends [keeping]: "keeps (extends h) (call env c)"
  by (auto simp: keeps_iff extends_def call_def exchange_def split: sum.splits prod.splits if_splits)

lemma call_only [keeping]: "A (Request c) \<Longrightarrow> keeps (only_effects A) (call env c)"
  by (auto simp: keeps_iff only_effects_def call_def exchange_def split: sum.splits prod.splits if_splits)

lemma exchange_keeps:
  "(\<And>ok w. I w \<Longrightarrow> I (record_effect (Request c) ok w)) \<Longrightarrow> I w \<Longrightarrow> I (snd (exchange env c w))"
  by (auto simp: exchange_def split: sum.splits)

lemma optional_get_keeps:
  assumes "\<And>ok w. I w \<Longrightarrow> I (record_effect (Request (get_call cr u)) ok w)"
  shows "keeps I (optional_get env c cr u reading parsing decode)"
proof -
  have tail: "I (snd (seq (blame reading (lift_result (re_text resp)))
      (\<lambda>t. seq (blame parsing (lift_result (parse_as c decode t))) (\<lambda>x. give (Some x))) w))"
    if "I w" for resp w
  proof -
    have "keeps I (seq (blame reading (lift_result (re_text resp)))
        (\<lambda>t. seq (blame parsing (lift_result (parse_as c decode t))) (\<lambda>x. give (Some x))))"
      by (intro keeping)
    with that show ?thesis by (simp add: keeps_iff)
  qed
  show ?thesis unfolding keeps_iff
  proof (intro allI impI)
    fix w assume w: "I w"
    obtain r w' where x: "exchange env (get_call cr u) w = (r, w')" by fastforce
    then have "I w'" using exchange_keeps [of I "get_call cr u", OF assms w, of env] by simp
    with x tail show "I (snd (optional_get env c cr u reading parsing decode w))"
      by (cases r) (simp_all add: optional_get_def split: http_error.split)
  qed
qed

lemma call_reply:
  "call env c w = (Inr resp, w') \<Longrightarrow>
     en_reply env (w_history w) c = Inr resp \<and> re_status resp < 400 \<and>
     w' = record_effect (Request c) True w"
  by (auto simp: call_def exchange_def split: sum.splits if_splits)

lemma perform_done:
  "perform env e w = (Inr x, w') \<Longrightarrow>
     w' = record_effect e True (w\<lparr>w_files := applied e (w_files w)\<rparr>)"
  by (auto simp: perform_def split: option.splits)

lemma download_to_reply:
  assumes "download_to env cr u dest w = (Inr h, w')"
  shows "\<exists>resp. en_reply env (w_history w) (get_call cr u) = Inr resp \<and> re_status resp < 400 \<and>
    re_broken resp = None \<and> h = sha_header resp \<and> w_files w' dest = Some (re_data resp)"
  using assms
  by (auto simp: download_to_def success_simps dest!: call_reply perform_done split: option.splits)

lemma download_to_frame [keeping]: "S dest \<Longrightarrow> keeps (frame S fs) (download_to env cr u dest)"
  by (auto simp: download_to_def intro!: keeping split: option.split)

end
