(* ===== verification/Control.thy ===== *)
theory Control
  imports Client
begin

text \<open>
  What the threads of the control plane share (\<open>src/src/control/mod.rs\<close>): the counters, the profile
  that every heartbeat reports, and the sleep that a shutdown interrupts.
\<close>

record control_stats =
  cs_heartbeats_ok :: u64
  cs_heartbeats_failed :: u64
  cs_commands_acked :: u64
  cs_profile_syncs :: u64
  cs_alerts_sent :: u64
  cs_alerts_dropped :: u64

definition no_stats :: control_stats where
  "no_stats = \<lparr>cs_heartbeats_ok = 0, cs_heartbeats_failed = 0, cs_commands_acked = 0,
     cs_profile_syncs = 0, cs_alerts_sent = 0, cs_alerts_dropped = 0\<rparr>"

definition bump_heartbeat_ok :: "control_stats \<Rightarrow> control_stats" where
  "bump_heartbeat_ok s = s\<lparr>cs_heartbeats_ok := cs_heartbeats_ok s + 1\<rparr>"

definition bump_heartbeat_failed :: "control_stats \<Rightarrow> control_stats" where
  "bump_heartbeat_failed s = s\<lparr>cs_heartbeats_failed := cs_heartbeats_failed s + 1\<rparr>"

definition bump_command_acked :: "control_stats \<Rightarrow> control_stats" where
  "bump_command_acked s = s\<lparr>cs_commands_acked := cs_commands_acked s + 1\<rparr>"

definition bump_profile_sync :: "control_stats \<Rightarrow> control_stats" where
  "bump_profile_sync s = s\<lparr>cs_profile_syncs := cs_profile_syncs s + 1\<rparr>"

definition add_alerts_sent :: "u64 \<Rightarrow> control_stats \<Rightarrow> control_stats" where
  "add_alerts_sent n s = s\<lparr>cs_alerts_sent := cs_alerts_sent s + n\<rparr>"

definition add_alerts_dropped :: "u64 \<Rightarrow> control_stats \<Rightarrow> control_stats" where
  "add_alerts_dropped n s = s\<lparr>cs_alerts_dropped := cs_alerts_dropped s + n\<rparr>"

lemmas stats_defs = bump_heartbeat_ok_def bump_heartbeat_failed_def bump_command_acked_def
  bump_profile_sync_def add_alerts_sent_def add_alerts_dropped_def

record profile_state =
  ps_version :: int
  ps_modules_loaded :: "module_ref list"
  ps_rule_errors :: "rule_error list"

definition default_profile :: profile_state where
  "default_profile = \<lparr>ps_version = 0, ps_modules_loaded = [], ps_rule_errors = []\<rparr>"

text \<open>\<open>responsive_sleep\<close>: the time at which it returns, when it starts at \<open>now\<close>, is to end at
\<open>end_time\<close>, and the shutdown flag is set at \<open>stop\<close>, if ever.\<close>

function sleep_loop :: "millis \<Rightarrow> millis option \<Rightarrow> millis \<Rightarrow> millis" where
  "sleep_loop end_time stop now =
     (if end_time \<le> now then now
      else if (case stop of Some t \<Rightarrow> t \<le> now | None \<Rightarrow> False) then now
      else sleep_loop end_time stop (now + min (end_time - now) 250))"
  by pat_completeness auto
termination by (relation "measure (\<lambda>(end_time, stop, now). end_time - now)") auto

declare sleep_loop.simps [simp del]

definition responsive_sleep :: "millis \<Rightarrow> millis option \<Rightarrow> millis \<Rightarrow> millis" where
  "responsive_sleep dur stop now = sleep_loop (now + dur) stop now"

lemma sleep_loop_bounds:
  "now \<le> end_time \<Longrightarrow>
     now \<le> sleep_loop end_time stop now \<and> sleep_loop end_time stop now \<le> end_time \<and>
     (case stop of
        None \<Rightarrow> sleep_loop end_time stop now = end_time
      | Some t \<Rightarrow> sleep_loop end_time stop now \<le> max now (t + 249) \<and>
          (sleep_loop end_time stop now < t \<longrightarrow> sleep_loop end_time stop now = end_time))"
proof (induction end_time stop now rule: sleep_loop.induct)
  case (1 end_time stop now)
  show ?case
  proof (cases "end_time \<le> now \<or> (case stop of Some t \<Rightarrow> t \<le> now | None \<Rightarrow> False)")
    case True
    then have "sleep_loop end_time stop now = now" by (subst sleep_loop.simps) (auto split: option.splits)
    with True 1(2) show ?thesis by (auto split: option.splits)
  next
    case False
    with 1 have IH: "now + min (end_time - now) 250 \<le> sleep_loop end_time stop (now + min (end_time - now) 250) \<and>
        sleep_loop end_time stop (now + min (end_time - now) 250) \<le> end_time \<and>
        (case stop of
           None \<Rightarrow> sleep_loop end_time stop (now + min (end_time - now) 250) = end_time
         | Some t \<Rightarrow> sleep_loop end_time stop (now + min (end_time - now) 250)
               \<le> max (now + min (end_time - now) 250) (t + 249) \<and>
             (sleep_loop end_time stop (now + min (end_time - now) 250) < t \<longrightarrow>
              sleep_loop end_time stop (now + min (end_time - now) 250) = end_time))" by simp
    have step: "sleep_loop end_time stop now = sleep_loop end_time stop (now + min (end_time - now) 250)"
      using False by (subst sleep_loop.simps) (simp split: option.splits)
    from IH False show ?thesis unfolding step by (auto split: option.splits)
  qed
qed

text \<open>The pause between two heartbeats lasts exactly the interval unless the agent is shut down, and
then ends less than a quarter of a second after the flag is set.\<close>

theorem sleep_is_responsive:
  "case stop of
     None \<Rightarrow> responsive_sleep dur stop now = now + dur
   | Some t \<Rightarrow> now \<le> responsive_sleep dur stop now \<and> responsive_sleep dur stop now \<le> now + dur \<and>
       responsive_sleep dur stop now \<le> max now (t + 249) \<and>
       (responsive_sleep dur stop now < t \<longrightarrow> responsive_sleep dur stop now = now + dur)"
  using sleep_loop_bounds [of now "now + dur" stop] by (simp add: responsive_sleep_def split: option.splits)

end
