(* ===== verification/Alerts.thy ===== *)
theory Alerts
  imports Control Detection
begin

text \<open>
  The alerts thread (\<open>src/src/control/alerts.rs\<close>): it takes what is queued, in batches of at most
  \<open>MAX_BATCH\<close>, and posts each batch once. The other end of the channel is \<open>try_send\<close> of the theory
  Detection.
\<close>

definition MAX_BATCH :: nat where "MAX_BATCH = 64"

definition NATIVE_MODULES :: "str list" where
  "NATIVE_MODULES = [''kernel_callback'', ''minifilter'', ''network'', ''hooking'', ''web'']"

definition server_module :: "str \<Rightarrow> str" where
  "server_module m = (if m \<in> set NATIVE_MODULES \<or> m = ''plugin'' then m else ''plugin'')"

definition alert_payload :: "agent_alert \<Rightarrow> alert_out" where
  "alert_payload a =
     \<lparr>ao_ts = al_ts a, ao_rule_id = al_rule_name a, ao_rule_name = al_rule_name a,
      ao_severity = ''medium'', ao_module = server_module (al_module a),
      ao_action_taken = al_action_taken a, ao_evidence = al_evidence a\<rparr>"

type_synonym stats_world = "control_stats \<times> world"

definition post_batch ::
    "env \<Rightarrow> codec \<Rightarrow> server_creds \<Rightarrow> agent_alert list \<Rightarrow> stats_world \<Rightarrow> stats_world" where
  "post_batch env c cr batch s =
     (case post_alerts env c cr (map alert_payload batch) (snd s) of
        (Inr received, w) \<Rightarrow> (add_alerts_sent (word_of_nat received) (fst s), w)
      | (Inl e, w) \<Rightarrow> (add_alerts_dropped (word_of_nat (length batch)) (fst s), w))"

text \<open>The first alert blocks, the others are taken as long as there are any and the batch has room.\<close>

fun fill_batch :: "agent_alert list \<Rightarrow> agent_alert list \<Rightarrow> agent_alert list \<times> agent_alert list" where
  "fill_batch batch [] = (batch, [])"
| "fill_batch batch (a # as) =
     (if length batch < MAX_BATCH then fill_batch (batch @ [a]) as else (batch, a # as))"

record alerts_thread =
  at_channel :: alert_channel
  at_shared :: stats_world

text \<open>One turn of the loop; with an empty channel the wait times out and nothing happens.\<close>

definition alerts_turn :: "env \<Rightarrow> codec \<Rightarrow> server_creds \<Rightarrow> alerts_thread \<Rightarrow> alerts_thread" where
  "alerts_turn env c cr st =
     (case ac_queue (at_channel st) of
        [] \<Rightarrow> st
      | first # queue \<Rightarrow>
          (let (batch, queue) = fill_batch [first] queue in
           st\<lparr>at_channel := (at_channel st)\<lparr>ac_queue := queue\<rparr>,
              at_shared := post_batch env c cr batch (at_shared st)\<rparr>))"

text \<open>The last drain, after the shutdown.\<close>

fun drain_tail ::
    "env \<Rightarrow> codec \<Rightarrow> server_creds \<Rightarrow> agent_alert list \<Rightarrow> agent_alert list \<Rightarrow> stats_world \<Rightarrow> stats_world" where
  "drain_tail env c cr tail [] s = (if tail = [] then s else post_batch env c cr tail s)"
| "drain_tail env c cr tail (a # as) s =
     (if MAX_BATCH \<le> length (tail @ [a])
      then drain_tail env c cr [] as (post_batch env c cr (tail @ [a]) s)
      else drain_tail env c cr (tail @ [a]) as s)"

text \<open>The thread and the detection engine, in any order of their steps.\<close>

datatype alerts_event = Offer agent_alert | Turn

fun alerts_step :: "env \<Rightarrow> codec \<Rightarrow> server_creds \<Rightarrow> alerts_event \<Rightarrow> alerts_thread \<Rightarrow> alerts_thread" where
  "alerts_step env c cr (Offer a) st = st\<lparr>at_channel := try_send a (at_channel st)\<rparr>"
| "alerts_step env c cr Turn st = alerts_turn env c cr st"

definition alerts_run ::
    "env \<Rightarrow> codec \<Rightarrow> server_creds \<Rightarrow> alerts_event list \<Rightarrow> alerts_thread \<Rightarrow> alerts_thread" where
  "alerts_run env c cr evs st =
     (let st = fold (alerts_step env c cr) evs st in
      st\<lparr>at_channel := (at_channel st)\<lparr>ac_queue := []\<rparr>,
         at_shared := drain_tail env c cr [] (ac_queue (at_channel st)) (at_shared st)\<rparr>)"

section \<open>Delivery\<close>

lemma fill_batch_eq:
  "fill_batch batch as = (batch @ take (MAX_BATCH - length batch) as, drop (MAX_BATCH - length batch) as)"
proof (induction batch as rule: fill_batch.induct)
  case (2 batch a as)
  then show ?case by (cases "MAX_BATCH - length batch") (auto dest: arg_cong [of _ _ "\<lambda>n. n - 1"])
qed simp

text \<open>The alerts that the channel takes while the thread runs.\<close>

fun accepted ::
    "env \<Rightarrow> codec \<Rightarrow> server_creds \<Rightarrow> alerts_event list \<Rightarrow> alerts_thread \<Rightarrow> agent_alert list" where
  "accepted env c cr [] st = []"
| "accepted env c cr (Offer a # evs) st =
     (if ac_open (at_channel st) \<and> length (ac_queue (at_channel st)) < ac_capacity (at_channel st)
      then [a] else []) @ accepted env c cr evs (alerts_step env c cr (Offer a) st)"
| "accepted env c cr (Turn # evs) st = accepted env c cr evs (alerts_step env c cr Turn st)"

definition alerts_json :: "agent_alert list \<Rightarrow> json" where
  "alerts_json batch = JObj [(''alerts'', JArr (map alert_out_json (map alert_payload batch)))]"

definition alerts_request :: "server_creds \<Rightarrow> (json \<Rightarrow> bytes) \<Rightarrow> agent_alert list \<Rightarrow> effect" where
  "alerts_request cr ser batch =
     Request (post_call cr (agent_url cr ''/alerts'') (ser (alerts_json batch)))"

text \<open>\<open>delivers batches s s'\<close>: between the two states exactly these batches were posted, in this order,
and the counter of dropped alerts grew by the sizes of those whose request failed.\<close>

definition delivers ::
    "server_creds \<Rightarrow> (json \<Rightarrow> bytes) \<Rightarrow> agent_alert list list \<Rightarrow> stats_world \<Rightarrow> stats_world \<Rightarrow> bool" where
  "delivers cr ser batches s s' \<longleftrightarrow>
     (\<forall>b\<in>set batches. b \<noteq> [] \<and> length b \<le> MAX_BATCH) \<and>
     (\<exists>oks. length oks = length batches \<and>
        w_history (snd s') = w_history (snd s) @ zip (map (alerts_request cr ser) batches) oks \<and>
        cs_alerts_dropped (fst s') = cs_alerts_dropped (fst s) +
          (\<Sum>(b, ok)\<leftarrow>zip batches oks. if ok then 0 else word_of_nat (length b)))"

lemma delivers_none: "delivers cr ser [] s s"
  by (simp add: delivers_def)

lemma delivers_append:
  assumes "delivers cr ser bs s s'" and "delivers cr ser bs' s' s''"
  shows "delivers cr ser (bs @ bs') s s''"
proof -
  obtain oks oks' where
    "length oks = length bs" "length oks' = length bs'"
    "w_history (snd s') = w_history (snd s) @ zip (map (alerts_request cr ser) bs) oks"
    "w_history (snd s'') = w_history (snd s') @ zip (map (alerts_request cr ser) bs') oks'"
    "cs_alerts_dropped (fst s') = cs_alerts_dropped (fst s) +
       (\<Sum>(b, ok)\<leftarrow>zip bs oks. if ok then 0 else word_of_nat (length b))"
    "cs_alerts_dropped (fst s'') = cs_alerts_dropped (fst s') +
       (\<Sum>(b, ok)\<leftarrow>zip bs' oks'. if ok then 0 else word_of_nat (length b))"
    using assms unfolding delivers_def by blast
  then show ?thesis
    using assms unfolding delivers_def by (intro conjI exI [of _ "oks @ oks'"]) auto
qed

lemma post_batch_delivers:
  assumes "serialises c ser" and "b \<noteq> []" and "length b \<le> MAX_BATCH"
  shows "delivers cr ser [b] s (post_batch env c cr b s)"
proof -
  let ?req = "post_call cr (agent_url cr ''/alerts'') (ser (alerts_json b))"
  obtain r w' where x: "exchange env ?req (snd s) = (r, w')" by fastforce
  then have "w_history w' = w_history (snd s) @ [(Request ?req, \<not> isl r)]"
    by (auto simp: exchange_def split: sum.splits if_splits)
  moreover have "\<exists>n. post_alerts env c cr (map alert_payload b) (snd s) =
      (case r of Inl e \<Rightarrow> (Inl (stringify_err e), w') | Inr resp \<Rightarrow> (Inr n, w'))"
    using x assms(1) unfolding alerts_json_def
    by (cases r) (simp_all add: post_alerts_def seq_def blame_def lift_result_def serialises_def call_def give_def)
  ultimately show ?thesis
    unfolding delivers_def using assms
    by (intro conjI exI [of _ "[\<not> isl r]"]; cases r)
       (auto simp: post_batch_def alerts_request_def add_alerts_sent_def add_alerts_dropped_def)
qed

lemma drain_delivers:
  assumes "serialises c ser" and "length tail < MAX_BATCH"
  shows "\<exists>bs. concat bs = tail @ as \<and> delivers cr ser bs s (drain_tail env c cr tail as s)"
  using assms(2)
proof (induction as arbitrary: tail s)
  case Nil
  show ?case
  proof (cases "tail = []")
    case True
    then show ?thesis using delivers_none by (intro exI [of _ "[]"]) simp
  next
    case False
    with Nil post_batch_delivers [OF assms(1), of tail] show ?thesis by (intro exI [of _ "[tail]"]) simp
  qed
next
  case (Cons a as)
  show ?case
  proof (cases "MAX_BATCH \<le> length (tail @ [a])")
    case True
    obtain bs where "concat bs = [] @ as"
        "delivers cr ser bs (post_batch env c cr (tail @ [a]) s)
           (drain_tail env c cr [] as (post_batch env c cr (tail @ [a]) s))"
      using Cons.IH [of "[]" "post_batch env c cr (tail @ [a]) s"] by (auto simp: MAX_BATCH_def)
    with True Cons.prems delivers_append [OF post_batch_delivers [OF assms(1), of "tail @ [a]" cr s env]] show ?thesis
      by (intro exI [of _ "(tail @ [a]) # bs"]) simp
  next
    case False
    with Cons.IH [of "tail @ [a]" s] show ?thesis by simp
  qed
qed

lemma turn_delivers:
  "serialises c ser \<Longrightarrow> \<exists>bs. concat bs @ ac_queue (at_channel (alerts_turn env c cr st)) = ac_queue (at_channel st) \<and>
     delivers cr ser bs (at_shared st) (at_shared (alerts_turn env c cr st))"
proof (cases "ac_queue (at_channel st)")
  case Nil
  then show ?thesis using delivers_none by (intro exI [of _ "[]"]) (simp add: alerts_turn_def)
next
  case (Cons a as)
  assume "serialises c ser"
  then have "delivers cr ser [a # take 63 as] s (post_batch env c cr (a # take 63 as) s)" for s
    by (rule post_batch_delivers) (simp_all add: MAX_BATCH_def)
  with Cons show ?thesis
    by (intro exI [of _ "[a # take 63 as]"]) (simp add: alerts_turn_def fill_batch_eq MAX_BATCH_def)
qed

lemma steps_deliver:
  assumes "serialises c ser"
  shows "\<exists>bs. concat bs @ ac_queue (at_channel (fold (alerts_step env c cr) evs st)) =
       ac_queue (at_channel st) @ accepted env c cr evs st \<and>
     delivers cr ser bs (at_shared st) (at_shared (fold (alerts_step env c cr) evs st))"
proof (induction evs arbitrary: st)
  case Nil
  show ?case using delivers_none by (intro exI [of _ "[]"]) simp
next
  case (Cons ev evs)
  show ?case
  proof (cases ev)
    case (Offer a)
    with Cons [of "alerts_step env c cr ev st"] show ?thesis by (auto simp: try_send_def)
  next
    case Turn
    obtain bs where "concat bs @ ac_queue (at_channel (alerts_turn env c cr st)) = ac_queue (at_channel st)"
        "delivers cr ser bs (at_shared st) (at_shared (alerts_turn env c cr st))"
      using turn_delivers [OF assms] by blast
    moreover obtain bs' where
      "concat bs' @ ac_queue (at_channel (fold (alerts_step env c cr) evs (alerts_turn env c cr st))) =
         ac_queue (at_channel (alerts_turn env c cr st)) @ accepted env c cr evs (alerts_turn env c cr st)"
      "delivers cr ser bs' (at_shared (alerts_turn env c cr st))
         (at_shared (fold (alerts_step env c cr) evs (alerts_turn env c cr st)))"
      using Cons [of "alerts_turn env c cr st"] by blast
    ultimately show ?thesis
      using Turn delivers_append by (intro exI [of _ "bs @ bs'"]) auto
  qed
qed

lemma run_delivers:
  assumes "serialises c ser"
  shows "\<exists>bs. concat bs = ac_queue (at_channel st) @ accepted env c cr evs st \<and>
     delivers cr ser bs (at_shared st) (at_shared (alerts_run env c cr evs st))"
proof -
  let ?st = "fold (alerts_step env c cr) evs st"
  obtain bs where "concat bs @ ac_queue (at_channel ?st) = ac_queue (at_channel st) @ accepted env c cr evs st"
      "delivers cr ser bs (at_shared st) (at_shared ?st)" using steps_deliver [OF assms] by blast
  moreover obtain bs' where "concat bs' = [] @ ac_queue (at_channel ?st)"
      "delivers cr ser bs' (at_shared ?st) (drain_tail env c cr [] (ac_queue (at_channel ?st)) (at_shared ?st))"
    using drain_delivers [OF assms, of "[]" "ac_queue (at_channel ?st)" cr "at_shared ?st" env]
    by (auto simp: MAX_BATCH_def)
  ultimately show ?thesis
    using delivers_append by (intro exI [of _ "bs @ bs'"]) (simp add: alerts_run_def Let_def)
qed


definition sample_alert :: agent_alert where
  "sample_alert = \<lparr>al_rule_name = ''r'', al_action_taken = ''alert'', al_module = ''wmi'', al_ts = ''t'',
     al_evidence = JNull\<rparr>"

definition alerts_codec :: codec where
  "alerts_codec = \<lparr>cd_write = \<lambda>j. Inr [0x7B, 0x7D], cd_pretty = \<lambda>j. Inr [0x7B, 0x7D], cd_read = Inl,
     cd_shape_error = \<lambda>j. []\<rparr>"

definition busy_thread :: alerts_thread where
  "busy_thread = \<lparr>at_channel = \<lparr>ac_queue = [], ac_capacity = 2, ac_open = True\<rparr>,
     at_shared = (no_stats, \<lparr>w_files = Map.empty, w_history = []\<rparr>)\<rparr>"

definition busy_events :: "alerts_event list" where
  "busy_events = [Offer sample_alert, Offer sample_alert, Offer sample_alert, Turn, Offer sample_alert]"


end
