(* ===== verification/Shipper.thy ===== *)
theory Shipper
  imports Text_Util Spool Backoff
begin

text \<open>
  The shipper thread (\<open>src/src/shipper/run.rs\<close>): pick the oldest batch of the watched directories,
  decompress it, POST it, and delete it only on a 2xx answer. The HTTP client and the decompressor
  are answers given to each iteration.
\<close>

record shipper_config =
  sc_server_url :: str
  sc_agent_id :: str
  sc_tenant_id :: "str option"
  sc_tags :: "(str \<times> str) list"
  sc_token :: str
  sc_verify_tls :: bool
  sc_timeout :: millis
  sc_poll_interval :: millis
  sc_max_backoff :: millis

definition logs_endpoint :: "shipper_config \<Rightarrow> str" where
  "logs_endpoint cfg = sc_server_url cfg @ ''/api/v1/agents/'' @ sc_agent_id cfg @ ''/logs''"

section \<open>The oldest batch\<close>

text \<open>
  A batch is found under the index of its directory. The loop keeps the first name that no later
  one undercuts; an unreadable directory is skipped.
\<close>

definition consider_entry :: "nat \<Rightarrow> (str \<times> nat) option \<Rightarrow> str \<Rightarrow> (str \<times> nat) option" where
  "consider_entry i best name =
     (if \<not> is_batch_name name then best
      else case best of
        Some (b, j) \<Rightarrow> if b \<le> name then best else Some (name, i)
      | None \<Rightarrow> Some (name, i))"

fun scan_dirs :: "nat \<Rightarrow> directory option list \<Rightarrow> (str \<times> nat) option \<Rightarrow> (str \<times> nat) option" where
  "scan_dirs i [] best = best"
| "scan_dirs i (None # ds) best = scan_dirs (Suc i) ds best"
| "scan_dirs i (Some d # ds) best = scan_dirs (Suc i) ds (foldl (consider_entry i) best (map fst d))"

definition oldest_batch :: "directory option list \<Rightarrow> (str \<times> nat) option" where
  "oldest_batch dirs = scan_dirs 0 dirs None"

section \<open>One upload\<close>

datatype send_outcome = Sent | Rejected nat | Retry str

datatype http_answer = Http nat | Transport str

record http_request =
  rq_url :: str
  rq_headers :: "(str \<times> str) list"
  rq_body :: bytes

definition safe_header_key :: "str \<Rightarrow> bool" where
  "safe_header_key k \<longleftrightarrow>
     list_all (\<lambda>b. is_ascii_alphanumeric b \<or> b = CHR ''-'' \<or> b = CHR ''_'') k"

definition logs_request :: "shipper_config \<Rightarrow> str \<Rightarrow> bytes \<Rightarrow> http_request" where
  "logs_request cfg endpoint body =
     \<lparr>rq_url = endpoint,
      rq_headers =
        [(''Content-Type'', ''application/x-ndjson''),
         (''Authorization'', ''Bearer '' @ sc_token cfg)] @
        (case sc_tenant_id cfg of Some t \<Rightarrow> [(''X-Wazabi-Tenant'', t)] | None \<Rightarrow> []) @
        map (\<lambda>(k, v). (''X-Wazabi-Tag-'' @ k, v)) (filter (\<lambda>e. safe_header_key (fst e)) (sc_tags cfg)),
      rq_body = body\<rparr>"

text \<open>
  The two ways \<open>ureq\<close> reports a status (a response, or an \<open>Error::Status\<close> for 400 and above) lead
  to the same three outcomes.
\<close>

fun classify :: "http_answer \<Rightarrow> send_outcome" where
  "classify (Http status) =
     (if 200 \<le> status \<and> status < 300 then Sent
      else if 400 \<le> status \<and> status < 500 then Rejected status
      else Retry (''server '' @ dec status))"
| "classify (Transport t) = Retry (''transport: '' @ t)"

definition send_one ::
    "(bytes \<Rightarrow> bytes option) \<Rightarrow> (http_request \<Rightarrow> http_answer) \<Rightarrow> shipper_config \<Rightarrow> str \<Rightarrow>
     bytes option \<Rightarrow> send_outcome" where
  "send_one unzstd post cfg endpoint file =
     (case file of
        None \<Rightarrow> Retry ''read batch: ''
      | Some raw \<Rightarrow>
          (case unzstd raw of
             None \<Rightarrow> Rejected 0
           | Some body \<Rightarrow> classify (post (logs_request cfg endpoint body))))"

section \<open>Backoff\<close>

text \<open>
  \<open>next_backoff\<close>, in milliseconds; \<open>nanos\<close> is the clock that seeds the jitter (a 64-bit xorshift).
\<close>

definition xorshift :: "u64 \<Rightarrow> u64" where
  "xorshift nanos =
     (let seed = nanos OR 1;
          seed = seed XOR push_bit 13 seed;
          seed = seed XOR drop_bit 7 seed
      in seed XOR push_bit 17 seed)"

definition jittered :: "u64 \<Rightarrow> millis \<Rightarrow> millis \<Rightarrow> millis" where
  "jittered nanos ms maxb =
     (let seed = xorshift nanos;
          jitter = unat seed mod (ms div 2);
          signed = (if even (unat seed) then int ms + int (jitter div 2)
                    else int ms - int (jitter div 2))
      in min (nat (max signed 1)) maxb)"

definition next_backoff :: "u64 \<Rightarrow> millis \<Rightarrow> millis \<Rightarrow> millis" where
  "next_backoff nanos prev maxb =
     (let base = (if prev = 0 then 1000 else min (prev * 2) maxb)
      in if base < 4 then base else jittered nanos base maxb)"

section \<open>The loop\<close>

record shipper =
  sh_dirs :: "directory list"
  batches_sent :: nat
  batches_rejected :: nat
  send_retries :: nat
  sh_backoff :: millis

text \<open>What the system answers during one iteration.\<close>

record ship_io =
  io_readable :: "nat \<Rightarrow> bool"
  io_file_ok :: bool
  io_post :: "http_request \<Rightarrow> http_answer"
  io_remove :: bool
  io_nanos :: u64

definition visible :: "ship_io \<Rightarrow> directory list \<Rightarrow> directory option list" where
  "visible io dirs =
     map (\<lambda>i. if io_readable io i then Some (dirs ! i) else None) [0..<length dirs]"

definition delete_batch :: "str \<times> nat \<Rightarrow> directory list \<Rightarrow> directory list" where
  "delete_batch p dirs = dirs[snd p := remove_file (fst p) (dirs ! snd p)]"

text \<open>One turn of the loop: the milliseconds it sleeps, and the state after it.\<close>

definition ship_step ::
    "(bytes \<Rightarrow> bytes option) \<Rightarrow> shipper_config \<Rightarrow> ship_io \<Rightarrow> shipper \<Rightarrow> millis \<times> shipper" where
  "ship_step unzstd cfg io s =
     (case oldest_batch (visible io (sh_dirs s)) of
        None \<Rightarrow> (sc_poll_interval cfg, s)
      | Some p \<Rightarrow>
          let file = (if io_file_ok io then map_of (sh_dirs s ! snd p) (fst p) else None) in
          case send_one unzstd (io_post io) cfg (logs_endpoint cfg) file of
            Sent \<Rightarrow>
              (0, s\<lparr>sh_dirs := (if io_remove io then delete_batch p (sh_dirs s) else sh_dirs s),
                    batches_sent := Suc (batches_sent s), sh_backoff := 0\<rparr>)
          | Rejected status \<Rightarrow>
              (sc_poll_interval cfg, s\<lparr>batches_rejected := Suc (batches_rejected s)\<rparr>)
          | Retry why \<Rightarrow>
              let b = next_backoff (io_nanos io) (sh_backoff s) (sc_max_backoff cfg)
              in (b, s\<lparr>sh_backoff := b, send_retries := Suc (send_retries s)\<rparr>))"

fun ship_run ::
    "(bytes \<Rightarrow> bytes option) \<Rightarrow> shipper_config \<Rightarrow> ship_io list \<Rightarrow> shipper \<Rightarrow> shipper" where
  "ship_run u cfg [] s = s"
| "ship_run u cfg (io # ios) s = ship_run u cfg ios (snd (ship_step u cfg io s))"

section \<open>Properties\<close>

text \<open>The batch found is the first of the name order over all readable directories.\<close>

definition least_of :: "(str \<times> nat) set \<Rightarrow> (str \<times> nat) option \<Rightarrow> bool" where
  "least_of A r \<longleftrightarrow>
     (case r of None \<Rightarrow> A = {} | Some p \<Rightarrow> p \<in> A \<and> (\<forall>q\<in>A. fst p \<le> fst q))"

definition batches_in :: "nat \<Rightarrow> str list \<Rightarrow> (str \<times> nat) set" where
  "batches_in i names = {(n, i) | n. n \<in> set names \<and> is_batch_name n}"

fun batches_of :: "nat \<Rightarrow> directory option list \<Rightarrow> (str \<times> nat) set" where
  "batches_of i [] = {}"
| "batches_of i (None # ds) = batches_of (Suc i) ds"
| "batches_of i (Some d # ds) = batches_in i (map fst d) \<union> batches_of (Suc i) ds"

lemma consider_entry_least:
  assumes "least_of A best"
  shows "least_of (A \<union> batches_in i [n]) (consider_entry i best n)"
  using assms
  by (cases best; cases "is_batch_name n")
     (auto simp: least_of_def consider_entry_def batches_in_def split: option.splits if_splits
        dest: order_trans)

lemma scan_entries_least:
  "least_of A best \<Longrightarrow> least_of (A \<union> batches_in i names) (foldl (consider_entry i) best names)"
proof (induction names arbitrary: A best)
  case Nil
  then show ?case by (simp add: batches_in_def)
next
  case (Cons n names)
  have "batches_in i (n # names) = batches_in i [n] \<union> batches_in i names"
    by (auto simp: batches_in_def)
  with Cons.IH [OF consider_entry_least [OF Cons.prems, of i n]] show ?case
    by (simp add: Un_assoc)
qed

lemma scan_dirs_least: "least_of A best \<Longrightarrow> least_of (A \<union> batches_of i ds) (scan_dirs i ds best)"
proof (induction i ds best arbitrary: A rule: scan_dirs.induct)
  case (3 i d ds best)
  from 3(1) [OF scan_entries_least [OF 3(2)]] show ?case by (simp add: Un_assoc)
qed simp_all

lemma oldest_batch_least: "least_of (batches_of 0 dirs) (oldest_batch dirs)"
  using scan_dirs_least [of "{}" None 0 dirs] by (simp add: oldest_batch_def least_of_def)

lemma batches_of_nth:
  "(n, j) \<in> batches_of i ds \<longleftrightarrow>
     i \<le> j \<and> j - i < length ds \<and>
     (\<exists>d. ds ! (j - i) = Some d \<and> n \<in> fst ` set d \<and> is_batch_name n)"
proof (induction i ds rule: batches_of.induct)
  case (2 i ds)
  consider "j < i" | "j = i" | k where "j = Suc (i + k)" by (metis less_imp_Suc_add linorder_neqE_nat)
  then show ?case using 2 by cases simp_all
next
  case (3 i d ds)
  consider "j < i" | "j = i" | k where "j = Suc (i + k)" by (metis less_imp_Suc_add linorder_neqE_nat)
  then show ?case using 3 by cases (auto simp: batches_in_def)
qed simp

definition pending :: "directory list \<Rightarrow> (str \<times> nat) set" where
  "pending dirs = {(n, i). i < length dirs \<and> n \<in> fst ` set (dirs ! i) \<and> is_batch_name n}"

lemma batches_of_visible:
  "batches_of 0 (visible io dirs) = {p \<in> pending dirs. io_readable io (snd p)}"
  by (auto simp: batches_of_nth visible_def pending_def split: if_splits) (force+)?

text \<open>The batch the shipper picks is a pending batch of a readable directory whose name no other
one undercuts, and it picks none only when there is none.\<close>

theorem oldest_batch_is_least:
  "case oldest_batch (visible io dirs) of
     None \<Rightarrow> \<forall>p\<in>pending dirs. \<not> io_readable io (snd p)
   | Some p \<Rightarrow> p \<in> pending dirs \<and> io_readable io (snd p) \<and>
       (\<forall>q\<in>pending dirs. io_readable io (snd q) \<longrightarrow> fst p \<le> fst q)"
  using oldest_batch_least [of "visible io dirs"]
  by (fastforce simp: least_of_def batches_of_visible split: option.splits)

text \<open>C6. A batch leaves the disk only once the server has it: if a turn of the loop makes a pending
file disappear, that file was the batch picked, it was read and decompressed, the decompressed bytes
were the body of the POST to the logs endpoint with the bearer token, and the answer was 2xx. No
turn adds or changes a file.\<close>

theorem deleted_only_after_ack:
  assumes "snd (ship_step unzstd cfg io s) = s'" and "i < length (sh_dirs s)"
    and "map_of (sh_dirs s ! i) n = Some raw" and "map_of (sh_dirs s' ! i) n \<noteq> Some raw"
  shows "oldest_batch (visible io (sh_dirs s)) = Some (n, i) \<and> map_of (sh_dirs s' ! i) n = None \<and>
    (\<exists>body status rq. unzstd raw = Some body \<and> io_post io rq = Http status \<and>
       200 \<le> status \<and> status < 300 \<and> rq = logs_request cfg (logs_endpoint cfg) body \<and>
       rq_body rq = body \<and> (''Authorization'', ''Bearer '' @ sc_token cfg) \<in> set (rq_headers rq))"
proof -
  have removed: "map_of (remove_file m d) n = (if n = m then None else map_of d n)" for m d
    by (induction d) (auto simp: remove_file_def)
  obtain p where p: "oldest_batch (visible io (sh_dirs s)) = Some p"
    using assms(1,3,4) by (cases "oldest_batch (visible io (sh_dirs s))") (auto simp: ship_step_def)
  define content where "content = (if io_file_ok io then map_of (sh_dirs s ! snd p) (fst p) else None)"
  define out where "out = send_one unzstd (io_post io) cfg (logs_endpoint cfg) content"
  have step: "snd (ship_step unzstd cfg io s) = s'" "sh_dirs s' \<noteq> sh_dirs s"
    using assms by auto
  then have out: "out = Sent" "io_remove io"
    using p by (auto simp: ship_step_def Let_def content_def [symmetric] out_def [symmetric]
        split: send_outcome.splits if_splits)
  then have dirs: "sh_dirs s' = delete_batch p (sh_dirs s)"
    using step(1) p by (auto simp: ship_step_def Let_def content_def [symmetric] out_def [symmetric])
  have "sh_dirs s' ! i =
      (if snd p = i then remove_file (fst p) (sh_dirs s ! i) else sh_dirs s ! i)"
    using assms(2) by (simp add: dirs delete_batch_def)
  then have i: "p = (n, i)" "map_of (sh_dirs s' ! i) n = None"
    using assms(3,4) removed [of "fst p" "sh_dirs s ! i"]
    by (cases p; simp split: if_splits)+
  then have "content = Some raw"
    using out(1) assms(3) by (auto simp: out_def content_def send_one_def split: if_splits)
  then obtain body where body: "unzstd raw = Some body"
      "classify (io_post io (logs_request cfg (logs_endpoint cfg) body)) = Sent"
    using out(1) by (auto simp: out_def send_one_def split: option.splits)
  then obtain status where "io_post io (logs_request cfg (logs_endpoint cfg) body) = Http status"
      "200 \<le> status" "status < 300"
    by (cases "io_post io (logs_request cfg (logs_endpoint cfg) body)") (auto split: if_splits)
  with body i p show ?thesis by (auto simp: logs_request_def)
qed

section \<open>Backoff bounds\<close>

lemma next_backoff_range:
  assumes "1000 \<le> maxb"
  defines "base \<equiv> \<lambda>b. if b = 0 then 1000 else min (b * 2) maxb"
  shows "base b - base b div 4 \<le> next_backoff r b maxb"
    and "next_backoff r b maxb \<le> min (base b + base b div 4) maxb"
proof -
  have le: "base b \<le> maxb" "0 < base b" using assms by (auto simp: base_def)
  have "base b - base b div 4 \<le> next_backoff r b maxb \<and>
      next_backoff r b maxb \<le> min (base b + base b div 4) maxb"
  proof (cases "base b < 4")
    case True
    then have "next_backoff r b maxb = base b" by (simp add: next_backoff_def base_def Let_def)
    with True le show ?thesis by simp
  next
    case False
    define j where "j = unat (xorshift r) mod (base b div 2) div 2"
    have "unat (xorshift r) mod (base b div 2) < base b div 2" using False by (intro mod_less_divisor) simp
    then have j: "j \<le> base b div 4" by (simp add: j_def)
    have eq: "next_backoff r b maxb =
        min (nat (max (if even (unat (xorshift r)) then int (base b) + int j else int (base b) - int j) 1))
          maxb"
    proof -
      have "next_backoff r b maxb = jittered r (base b) maxb"
        using False by (simp add: next_backoff_def base_def Let_def)
      then show ?thesis by (simp only: jittered_def Let_def j_def)
    qed
    have "j < base b" using j False by linarith
    then have up: "nat (max (int (base b) + int j) 1) = base b + j"
      and down: "nat (max (int (base b) - int j) 1) = base b - j"
      using le(2) by simp_all
    show ?thesis
    proof (cases "even (unat (xorshift r))")
      case True
      then have "next_backoff r b maxb = min (base b + j) maxb" unfolding eq using up by simp
      with j le show ?thesis by linarith
    next
      case False
      then have "next_backoff r b maxb = min (base b - j) maxb" unfolding eq using down by simp
      with j le show ?thesis by linarith
    qed
  qed
  then show "base b - base b div 4 \<le> next_backoff r b maxb"
    and "next_backoff r b maxb \<le> min (base b + base b div 4) maxb" by simp_all
qed

interpretation shipper_backoff: backoff_policy "\<lambda>c. 1000 \<le> c" "\<lambda>c. c" "\<lambda>c r b. next_backoff r b c"
proof unfold_locales
  fix c b :: millis and r :: u64
  assume c: "1000 \<le> c"
  then show "2 \<le> c" by simp
  show "next_backoff r b c \<le> c" using next_backoff_range(2) [OF c, where b = b and r = r] by simp
  assume "2 \<le> b"
  then show "min (b + b div 2) (c - c div 4) \<le> next_backoff r b c"
    using next_backoff_range(1) [OF c, where b = b and r = r] by (simp split: if_splits)
qed

text \<open>The retry delay of the shipper, jitter included, is within a quarter of the exponential
sequence and never above the configured maximum; under lasting failure it settles between three
quarters of the maximum and the maximum.\<close>

theorem shipper_backoff_bounds:
  assumes "1000 \<le> maxb"
  shows "(let base = (if b = 0 then 1000 else min (b * 2) maxb) in
            base - base div 4 \<le> next_backoff r b maxb \<and>
            next_backoff r b maxb \<le> min (base + base div 4) maxb) \<and>
         (2 \<le> b \<and> b \<le> maxb \<and> maxb \<le> length rs \<longrightarrow>
            maxb - maxb div 4 \<le> foldl (\<lambda>b r. next_backoff r b maxb) b rs)"
  using next_backoff_range [OF assms, where b = b and r = r]
    shipper_backoff.settles [OF assms, of b rs, unfolded shipper_backoff.delay_after_all_def]
  by (simp add: Let_def)

section \<open>A batch the server will not take\<close>

definition blocked_by :: "(bytes \<Rightarrow> bytes option) \<Rightarrow> shipper_config \<Rightarrow> bytes \<Rightarrow> ship_io \<Rightarrow> bool" where
  "blocked_by unzstd cfg raw io \<longleftrightarrow> (\<forall>i. io_readable io i) \<and> io_file_ok io \<and>
     (case unzstd raw of
        None \<Rightarrow> True
      | Some body \<Rightarrow> \<exists>status. io_post io (logs_request cfg (logs_endpoint cfg) body) = Http status \<and>
          400 \<le> status \<and> status < 500)"

lemma visible_all: "\<forall>i. io_readable io i \<Longrightarrow> visible io dirs = map Some dirs"
  by (rule nth_equalityI) (simp_all add: visible_def)

text \<open>A rejected batch blocks the queue: when the oldest batch is one the shipper cannot
decompress, whatever the server would answer, or one that the server answers with a 4xx, every
further turn picks that batch again; nothing is sent, nothing leaves the disk, and each turn only
adds to the rejection count.\<close>

theorem rejected_batch_blocks:
  assumes "oldest_batch (map Some (sh_dirs s)) = Some (n, i)"
    and "map_of (sh_dirs s ! i) n = Some raw" and "\<forall>io\<in>set ios. blocked_by unzstd cfg raw io"
  shows "ship_run unzstd cfg ios s = s\<lparr>batches_rejected := batches_rejected s + length ios\<rparr>"
  using assms
proof (induction ios arbitrary: s)
  case (Cons io ios)
  have io: "blocked_by unzstd cfg raw io" using Cons.prems by simp
  then have "\<exists>st. send_one unzstd (io_post io) cfg (logs_endpoint cfg) (Some raw) = Rejected st"
    by (auto simp: blocked_by_def send_one_def split: option.splits)
  then have "snd (ship_step unzstd cfg io s) = s\<lparr>batches_rejected := Suc (batches_rejected s)\<rparr>"
    using io Cons.prems(1,2) by (auto simp: ship_step_def blocked_by_def visible_all)
  then show ?case
    using Cons.IH [of "s\<lparr>batches_rejected := Suc (batches_rejected s)\<rparr>"] Cons.prems by simp
qed simp

section \<open>Examples\<close>

definition sample_ship_config :: shipper_config where
  "sample_ship_config = \<lparr>sc_server_url = ''https://w'', sc_agent_id = ''a'', sc_tenant_id = None,
     sc_tags = [(''env'', ''prod''), (''bad key'', ''x'')], sc_token = ''t'', sc_verify_tls = True,
     sc_timeout = 30000, sc_poll_interval = 5000, sc_max_backoff = 300000\<rparr>"

definition sample_ship_io :: "nat \<Rightarrow> ship_io" where
  "sample_ship_io status = \<lparr>io_readable = (\<lambda>_. True), io_file_ok = True, io_post = (\<lambda>_. Http status),
     io_remove = True, io_nanos = 1\<rparr>"

definition sample_shipper :: shipper where
  "sample_shipper = \<lparr>sh_dirs = [[(''batch-1-0.zst'', [1])], [(''batch-2-0.zst'', [2])]],
     batches_sent = 0, batches_rejected = 0, send_retries = 0, sh_backoff = 0\<rparr>"

lemma sample_oldest: "oldest_batch (map Some (sh_dirs sample_shipper)) = Some (''batch-1-0.zst'', 0)"
  by (simp add: sample_shipper_def oldest_batch_def consider_entry_def is_batch_name_def
      starts_with_def ends_with_def less_char_def)

theorem deleted_only_after_ack_witness:
  "oldest_batch (map Some (sh_dirs sample_shipper)) = Some (''batch-1-0.zst'', 0)"
proof -
  have "snd (ship_step Some sample_ship_config (sample_ship_io 202) sample_shipper)
      = sample_shipper\<lparr>sh_dirs := [[], [(''batch-2-0.zst'', [2])]], batches_sent := 1\<rparr>"
    using sample_oldest
    by (simp add: ship_step_def visible_all sample_ship_io_def send_one_def)
       (simp add: sample_shipper_def remove_file_def delete_batch_def)
  from deleted_only_after_ack [OF this, of 0 "''batch-1-0.zst''" "[1]"] show ?thesis
    by (simp add: visible_all sample_ship_io_def) (simp add: sample_shipper_def)
qed

theorem shipper_backoff_bounds_witness:
  "3000 \<le> next_backoff 12345 2000 300000 \<and> next_backoff 12345 2000 300000 \<le> 5000"
  using shipper_backoff_bounds [of 300000 2000 12345] by simp

theorem rejected_batch_blocks_witness:
  "ship_run (\<lambda>_. None) sample_ship_config [sample_ship_io 202, sample_ship_io 202] sample_shipper
     = sample_shipper\<lparr>batches_rejected := 2\<rparr>"
  using rejected_batch_blocks [OF sample_oldest, of "[1]" "[sample_ship_io 202, sample_ship_io 202]"
      "\<lambda>_. None" sample_ship_config]
  by (simp add: blocked_by_def sample_ship_io_def) (simp add: sample_shipper_def)

theorem oldest_batch_is_least_witness:
  "(''batch-1-0.zst'', 0) \<in> pending (sh_dirs sample_shipper)"
  using oldest_batch_is_least [of "sh_dirs sample_shipper" "sample_ship_io 202"] sample_oldest
  by (simp add: visible_all sample_ship_io_def)

end
