(* ===== verification/Base64.thy ===== *)
theory Base64
  imports Text_Util
begin

text \<open>
  The hand-written base64 decoder of \<open>src/src/shipper/secret.rs\<close>, and the RFC 4648 encoding it is
  proved against.
\<close>

definition strip_whitespace :: "str \<Rightarrow> str" where
  "strip_whitespace input = filter (\<lambda>b. \<not> is_ascii_whitespace b) input"

definition code_of :: "char \<Rightarrow> nat" where
  "code_of c = of_char c"

text \<open>One symbol: its six bits, or padding, or neither.\<close>

datatype b64_symbol = Bits nat | Pad | Invalid

definition b64_symbol_of :: "char \<Rightarrow> b64_symbol" where
  "b64_symbol_of b =
     (let n = code_of b in
      if 65 \<le> n \<and> n \<le> 90 then Bits (n - 65)
      else if 97 \<le> n \<and> n \<le> 122 then Bits (n - 97 + 26)
      else if 48 \<le> n \<and> n \<le> 57 then Bits (n - 48 + 52)
      else if b = CHR ''+'' then Bits 62
      else if b = CHR 0x2F then Bits 63
      else if b = CHR ''='' then Pad
      else Invalid)"

text \<open>The inner loop over a chunk: the values so far, and the padding count.\<close>

fun b64_chunk :: "str \<Rightarrow> nat list \<Rightarrow> nat \<Rightarrow> (nat list \<times> nat) option" where
  "b64_chunk [] buf pad = Some (buf, pad)"
| "b64_chunk (b # bs) buf pad =
     (case b64_symbol_of b of
        Bits v \<Rightarrow> b64_chunk bs (buf @ [v]) pad
      | Pad \<Rightarrow> b64_chunk bs (buf @ [0]) (Suc pad)
      | Invalid \<Rightarrow> None)"

text \<open>The values are below 64, so the source's shifted \<open>|\<close> is this sum; \<open>as u8\<close> keeps the low byte.\<close>

definition b64_bytes :: "nat list \<Rightarrow> nat \<Rightarrow> bytes" where
  "b64_bytes buf pad =
     (let n = buf ! 0 * 2 ^ 18 + buf ! 1 * 2 ^ 12 + buf ! 2 * 2 ^ 6 + buf ! 3 in
      [word_of_nat (n div 2 ^ 16)] @
      (if pad < 2 then [word_of_nat (n div 2 ^ 8)] else []) @
      (if pad < 1 then [word_of_nat n] else []))"

fun b64_chunks :: "str \<Rightarrow> bytes \<Rightarrow> bytes outcome" where
  "b64_chunks (a # b # c # d # rest) out =
     (case b64_chunk [a, b, c, d] [] 0 of
        None \<Rightarrow> Err ''base64: invalid byte''
      | Some (buf, pad) \<Rightarrow> b64_chunks rest (out @ b64_bytes buf pad))"
| "b64_chunks _ out = Ok out"

definition b64_decode :: "str \<Rightarrow> bytes outcome" where
  "b64_decode input =
     (let cleaned = strip_whitespace input in
      if length cleaned mod 4 \<noteq> 0 then Err ''base64: length not a multiple of 4''
      else b64_chunks cleaned [])"

section \<open>The encoding\<close>

definition b64_alphabet :: str where
  "b64_alphabet = ''ABCDEFGHIJKLMNOPQRSTUVWXYZabcdefghijklmnopqrstuvwxyz0123456789+/''"

definition sym :: "nat \<Rightarrow> char" where
  "sym v = b64_alphabet ! (v mod 64)"

fun b64_encode :: "bytes \<Rightarrow> str" where
  "b64_encode (a # b # c # bs) =
     (let n = unat a * 2 ^ 16 + unat b * 2 ^ 8 + unat c
      in [sym (n div 2 ^ 18), sym (n div 2 ^ 12), sym (n div 2 ^ 6), sym n] @ b64_encode bs)"
| "b64_encode [a, b] =
     (let n = unat a * 2 ^ 16 + unat b * 2 ^ 8
      in [sym (n div 2 ^ 18), sym (n div 2 ^ 12), sym (n div 2 ^ 6), CHR ''=''])"
| "b64_encode [a] =
     (let n = unat a * 2 ^ 16 in [sym (n div 2 ^ 18), sym (n div 2 ^ 12), CHR ''='', CHR ''=''])"
| "b64_encode [] = []"

lemma alphabet_symbols: "map b64_symbol_of b64_alphabet = map Bits [0..<64]"
  by (simp add: b64_alphabet_def b64_symbol_of_def code_of_def upt_rec)

lemma alphabet_printable: "list_all (\<lambda>c. \<not> is_ascii_whitespace c) b64_alphabet"
  by (simp add: b64_alphabet_def is_ascii_whitespace_def)

lemma sym_symbol [simp]: "b64_symbol_of (sym v) = Bits (v mod 64)" "\<not> is_ascii_whitespace (sym v)"
proof -
  have l: "length b64_alphabet = 64" by (simp add: b64_alphabet_def)
  have "map b64_symbol_of b64_alphabet ! (v mod 64) = map Bits [0..<64] ! (v mod 64)"
    by (simp only: alphabet_symbols)
  then show "b64_symbol_of (sym v) = Bits (v mod 64)" by (simp add: sym_def l)
  show "\<not> is_ascii_whitespace (sym v)"
    using alphabet_printable by (simp add: sym_def list_all_length l)
qed

lemma pad_symbol [simp]: "b64_symbol_of (CHR ''='') = Pad" "\<not> is_ascii_whitespace (CHR ''='')"
  by (simp_all add: b64_symbol_of_def code_of_def is_ascii_whitespace_def)

lemma sextets:
  fixes n :: nat
  assumes "n < 2 ^ 24"
  shows "n div 2 ^ 18 mod 64 * 2 ^ 18 + n div 2 ^ 12 mod 64 * 2 ^ 12 + n div 2 ^ 6 mod 64 * 2 ^ 6
    + n mod 64 = n"
proof -
  define x where "x = n div 64"
  define y where "y = x div 64"
  define z where "z = y div 64"
  have d: "n div 2 ^ 12 = y" "n div 2 ^ 18 = z" "n div 2 ^ 6 = x"
    by (simp_all add: x_def y_def z_def div_mult2_eq [symmetric])
  have e: "n = 64 * x + n mod 64" "x = 64 * y + x mod 64" "y = 64 * z + y mod 64"
    unfolding x_def y_def z_def by simp_all
  have z: "z mod 64 = z"
    using assms by (simp add: x_def y_def z_def div_mult2_eq [symmetric])
  have "z * 2 ^ 18 + y mod 64 * 2 ^ 12 + x mod 64 * 2 ^ 6 + n mod 64 = n"
    using e by (simp only: power_numeral, simp)
  then show ?thesis unfolding d z .
qed

lemma word_nat_u8: "m mod 256 = unat (w :: u8) \<Longrightarrow> word_of_nat m = w"
  by (simp add: word_unat_eq_iff unat_of_nat)

lemma octets:
  fixes a b c :: u8
  defines "n \<equiv> unat a * 2 ^ 16 + unat b * 2 ^ 8 + unat c"
  shows "n < 2 ^ 24" "word_of_nat (n div 2 ^ 16) = a" "word_of_nat (n div 2 ^ 8) = b"
    "word_of_nat n = c"
proof -
  have bounds: "unat a < 256" "unat b < 256" "unat c < 256"
    using unsigned_less [where 'a = nat and w = a] unsigned_less [where 'a = nat and w = b]
      unsigned_less [where 'a = nat and w = c] by simp_all
  then show "n < 2 ^ 24" by (simp add: n_def)
  have "n div 2 ^ 16 = unat a" "n div 2 ^ 8 = unat a * 256 + unat b"
    using bounds by (simp_all add: n_def)
  then have "n div 2 ^ 16 mod 256 = unat a" "n div 2 ^ 8 mod 256 = unat b"
    using bounds by simp_all
  then show "word_of_nat (n div 2 ^ 16) = a" "word_of_nat (n div 2 ^ 8) = b"
    by (auto intro: word_nat_u8)
  have "n = 256 * (unat a * 256 + unat b) + unat c" by (simp add: n_def)
  then have "n mod 256 = unat c mod 256" by (simp only: mod_mult_self4)
  then have "n mod 256 = unat c" using bounds by simp
  then show "word_of_nat n = c" by (rule word_nat_u8)
qed

text \<open>One group, with no, one or two padding symbols.\<close>

lemma b64_bytes_eq:
  assumes "w * 2 ^ 18 + x * 2 ^ 12 + y * 2 ^ 6 + z = n"
  shows "b64_bytes [w, x, y, z] pad = [word_of_nat (n div 2 ^ 16)] @
      (if pad < 2 then [word_of_nat (n div 2 ^ 8)] else []) @
      (if pad < 1 then [word_of_nat n] else [])"
proof -
  have nths: "[w, x, y, z] ! 0 = w" "[w, x, y, z] ! 1 = x" "[w, x, y, z] ! 2 = y"
    "[w, x, y, z] ! 3 = z" by simp_all
  show ?thesis unfolding b64_bytes_def nths assms Let_def ..
qed

lemma group_decodes:
  fixes a b c :: u8
  assumes "n = unat a * 2 ^ 16 + unat b * 2 ^ 8 + unat c"
  shows "b64_bytes [n div 2 ^ 18 mod 64, n div 2 ^ 12 mod 64, n div 2 ^ 6 mod 64, n mod 64] pad
     = [a] @ (if pad < 2 then [b] else []) @ (if pad < 1 then [c] else [])"
proof -
  note o = octets [of a b c, folded assms]
  show ?thesis unfolding b64_bytes_eq [OF sextets [OF o(1)]] o(2-4) ..
qed

text \<open>A padding symbol contributes the zero bits that the encoder left out.\<close>

lemma low_bits_zero:
  fixes m k :: nat
  shows "(m * 2 ^ 16 + k * 2 ^ 8) mod 64 = 0" "(m * 2 ^ 16) div 2 ^ 6 mod 64 = 0"
proof -
  have "m * 2 ^ 16 + k * 2 ^ 8 = 64 * (m * 1024 + k * 4)" by simp
  then show "(m * 2 ^ 16 + k * 2 ^ 8) mod 64 = 0" by (simp only: mod_mult_self1_is_0)
  have "(m * 2 ^ 16) div 2 ^ 6 = 64 * (m * 16)" by simp
  then show "(m * 2 ^ 16) div 2 ^ 6 mod 64 = 0" by (simp only: mod_mult_self1_is_0)
qed

lemma b64_chunk_four:
  "b64_chunk [sym v, sym w, sym x, sym y] [] 0 = Some ([v mod 64, w mod 64, x mod 64, y mod 64], 0)"
  "b64_chunk [sym v, sym w, sym x, CHR ''=''] [] 0 = Some ([v mod 64, w mod 64, x mod 64, 0], 1)"
  "b64_chunk [sym v, sym w, CHR ''='', CHR ''=''] [] 0 = Some ([v mod 64, w mod 64, 0, 0], 2)"
  by simp_all

lemma decode_encode_chunks: "b64_chunks (b64_encode bs) out = Ok (out @ bs)"
proof (induction bs arbitrary: out rule: b64_encode.induct)
  case (1 a b c bs)
  show ?case
    unfolding b64_encode.simps Let_def append.simps b64_chunks.simps b64_chunk_four
    by (simp only: option.case prod.case group_decodes [OF refl] 1) simp
next
  case (2 a b)
  define n where "n = unat a * 2 ^ 16 + unat b * 2 ^ 8"
  have "b64_bytes [n div 2 ^ 18 mod 64, n div 2 ^ 12 mod 64, n div 2 ^ 6 mod 64, 0] 1 = [a, b]"
    using group_decodes [of n a b 0 1] low_bits_zero(1) [of "unat a" "unat b"] by (simp add: n_def)
  then show ?case
    unfolding b64_encode.simps Let_def append.simps b64_chunks.simps b64_chunk_four n_def
    by (simp only: option.case prod.case)
next
  case (3 a)
  define n where "n = unat a * 2 ^ 16"
  have "n mod 64 = 0" "n div 2 ^ 6 mod 64 = 0"
    using low_bits_zero(1) [of "unat a" 0] low_bits_zero(2) [of "unat a"] by (simp_all add: n_def)
  then have "b64_bytes [n div 2 ^ 18 mod 64, n div 2 ^ 12 mod 64, 0, 0] 2 = [a]"
    using group_decodes [of n a 0 0 2] by (simp add: n_def)
  then show ?case
    unfolding b64_encode.simps Let_def append.simps b64_chunks.simps b64_chunk_four n_def
    by (simp only: option.case prod.case)
qed simp

lemma length_encode: "length (b64_encode bs) mod 4 = 0"
  by (induction bs rule: b64_encode.induct) (simp_all add: Let_def)

lemma encode_printable: "\<forall>c\<in>set (b64_encode bs). \<not> is_ascii_whitespace c"
  by (induction bs rule: b64_encode.induct) (simp_all add: Let_def)

text \<open>The decoder inverts base64: whatever white space is interspersed in it, the standard
encoding of any byte string, padding included, decodes to exactly those bytes.\<close>

theorem b64_roundtrip:
  assumes "strip_whitespace input = b64_encode bs"
  shows "b64_decode input = Ok bs"
  using assms length_encode [of bs] decode_encode_chunks [of bs "[]"]
  by (simp add: b64_decode_def Let_def)

theorem b64_roundtrip_witness: "b64_decode (''QUI='' @ [CHR 0x0A]) = Ok [0x41, 0x42]"
proof (rule b64_roundtrip)
  show "strip_whitespace (''QUI='' @ [CHR 0x0A]) = b64_encode [0x41, 0x42]"
    by (simp add: strip_whitespace_def is_ascii_whitespace_def sym_def b64_alphabet_def)
qed

end
