(* ===== verification/Credentials.thy ===== *)
theory Credentials
  imports Shipper Base64
begin

text \<open>
  The \<open>shipper\<close> section of the configuration (\<open>src/src/shipper/config.rs\<close>): when the agent enrolls
  itself, where the token comes from, and which section becomes a running shipper. The DPAPI call
  and the \<open>COMPUTERNAME\<close> variable are arguments. An error message is its constant text, without the
  value some of them quote.
\<close>

record shipper_section =
  ss_enabled :: bool
  ss_server_url :: "str option"
  ss_agent_id :: "str option"
  ss_tenant_id :: "str option"
  ss_tags :: "(str \<times> str) list"
  ss_token_encrypted_b64 :: "str option"
  ss_token_plain :: "str option"
  ss_enrollment_token :: "str option"
  ss_verify_tls :: bool
  ss_timeout_secs :: nat
  ss_poll_interval_secs :: nat
  ss_max_backoff_secs :: nat

definition default_timeout_secs :: nat where "default_timeout_secs = 30"
definition default_poll_interval_secs :: nat where "default_poll_interval_secs = 5"
definition default_max_backoff_secs :: nat where "default_max_backoff_secs = 300"

text \<open>A section in which only the defaults are set (\<open>#[serde(default = ...)]\<close>).\<close>

definition empty_section :: shipper_section where
  "empty_section = \<lparr>ss_enabled = True, ss_server_url = None, ss_agent_id = None,
     ss_tenant_id = None, ss_tags = [], ss_token_encrypted_b64 = None, ss_token_plain = None,
     ss_enrollment_token = None, ss_verify_tls = True, ss_timeout_secs = default_timeout_secs,
     ss_poll_interval_secs = default_poll_interval_secs,
     ss_max_backoff_secs = default_max_backoff_secs\<rparr>"

definition present :: "str option \<Rightarrow> bool" where
  "present v = (case v of Some s \<Rightarrow> \<not> is_blank s | None \<Rightarrow> False)"

definition needs_autoenroll :: "shipper_section \<Rightarrow> bool" where
  "needs_autoenroll s =
     (let has_enrollment_token = present (ss_enrollment_token s);
          has_agent_id = present (ss_agent_id s);
          has_token = present (ss_token_plain s) \<or> present (ss_token_encrypted_b64 s)
      in has_enrollment_token \<and> \<not> has_agent_id \<and> \<not> has_token)"

definition fill_from_enroll :: "str \<Rightarrow> str \<Rightarrow> shipper_section \<Rightarrow> shipper_section" where
  "fill_from_enroll agent_id agent_token s =
     s\<lparr>ss_agent_id := Some agent_id, ss_token_plain := Some agent_token,
       ss_token_encrypted_b64 := None, ss_enrollment_token := None\<rparr>"

definition resolve_token :: "(bytes \<Rightarrow> bytes outcome) \<Rightarrow> shipper_section \<Rightarrow> str outcome" where
  "resolve_token dpapi_unprotect s =
     (case (ss_token_encrypted_b64 s, ss_token_plain s) of
        (Some _, Some _) \<Rightarrow>
          Err ''shipper: token_encrypted_b64 and token_plain are mutually exclusive''
      | (Some b64, None) \<Rightarrow>
          and_then (map_err ''token_encrypted_b64: '' (b64_decode b64)) (\<lambda>cipher.
          and_then (map_err ''token_encrypted_b64 decrypt: '' (dpapi_unprotect cipher)) (\<lambda>plain.
            case from_utf8 plain of Some t \<Rightarrow> Ok t | None \<Rightarrow> Err ''token not utf-8: ''))
      | (None, Some plain) \<Rightarrow> Ok plain
      | (None, None) \<Rightarrow>
          Err ''shipper: a token is required (token_encrypted_b64 or token_plain)'')"

text \<open>\<open>while server_url.ends_with('/') { server_url.pop(); }\<close>\<close>

definition strip_slashes :: "str \<Rightarrow> str" where
  "strip_slashes url = rev (dropWhile (\<lambda>c. c = CHR 0x2F) (rev url))"

definition not_blank :: "str option \<Rightarrow> str option" where
  "not_blank v = (case v of Some s \<Rightarrow> if is_blank s then None else Some s | None \<Rightarrow> None)"

definition resolve_shipper ::
    "(bytes \<Rightarrow> bytes outcome) \<Rightarrow> str option \<Rightarrow> shipper_section \<Rightarrow> shipper_config outcome" where
  "resolve_shipper dpapi_unprotect computername s =
     and_then (resolve_token dpapi_unprotect s) (\<lambda>token.
       case ss_server_url s of
         None \<Rightarrow> Err ''shipper.server_url is required''
       | Some server_url \<Rightarrow>
           if \<not> starts_with server_url ''https://'' \<and> \<not> starts_with server_url ''http://''
           then Err ''shipper.server_url must start with http:// or https://''
           else
             let server_url = strip_slashes server_url;
                 agent_id = (case not_blank (ss_agent_id s) of
                               Some a \<Rightarrow> Some a | None \<Rightarrow> not_blank computername)
             in case agent_id of
                  None \<Rightarrow> Err ''shipper.agent_id missing and %COMPUTERNAME% is unset''
                | Some agent_id \<Rightarrow>
                    if has_space_or_control agent_id
                    then Err ''shipper.agent_id contains whitespace/control chars''
                    else Ok \<lparr>sc_server_url = server_url, sc_agent_id = agent_id,
                             sc_tenant_id = ss_tenant_id s, sc_tags = ss_tags s, sc_token = token,
                             sc_verify_tls = ss_verify_tls s,
                             sc_timeout = 1000 * max (ss_timeout_secs s) 1,
                             sc_poll_interval = 1000 * max (ss_poll_interval_secs s) 1,
                             sc_max_backoff = 1000 * max (ss_max_backoff_secs s) 1\<rparr>)"

section \<open>Properties\<close>

lemma strip_slashes_no_slash: "strip_slashes url = [] \<or> last (strip_slashes url) \<noteq> CHR 0x2F"
proof (cases "dropWhile (\<lambda>c. c = CHR 0x2F) (rev url)")
  case (Cons c cs)
  then have "c \<noteq> CHR 0x2F" by (simp add: dropWhile_eq_Cons_conv)
  with Cons show ?thesis by (simp add: strip_slashes_def)
qed (simp add: strip_slashes_def)

text \<open>Enrollment happens once: a section that has been filled from an enrollment never asks for
another, and its token is the one the server gave, whatever token fields it had before.\<close>

theorem enroll_once:
  "\<not> needs_autoenroll (fill_from_enroll agent_id token s) \<and>
   resolve_token dpapi (fill_from_enroll agent_id token s) = Ok token"
  by (simp add: needs_autoenroll_def fill_from_enroll_def present_def resolve_token_def)

text \<open>A shipper that starts is well configured: the URL it posts to does not end in a slash, the
agent identifier is not blank and has no white space or control character, every interval is at
least a second (so the retry delays obey their bounds), and the token is the one plain or decrypted
form that the section had.\<close>

theorem resolved_shipper_ok:
  assumes "resolve_shipper dpapi computername s = Ok cfg"
  shows "(sc_server_url cfg = [] \<or> last (sc_server_url cfg) \<noteq> CHR 0x2F) \<and>
    \<not> is_blank (sc_agent_id cfg) \<and> \<not> has_space_or_control (sc_agent_id cfg) \<and>
    1000 \<le> sc_timeout cfg \<and> 1000 \<le> sc_poll_interval cfg \<and> 1000 \<le> sc_max_backoff cfg \<and>
    resolve_token dpapi s = Ok (sc_token cfg) \<and>
    (ss_token_encrypted_b64 s = None \<longleftrightarrow> ss_token_plain s \<noteq> None)"
proof -
  obtain token where token: "resolve_token dpapi s = Ok token"
    using assms by (auto simp: resolve_shipper_def and_then_Ok_iff)
  then have form: "ss_token_encrypted_b64 s = None \<longleftrightarrow> ss_token_plain s \<noteq> None"
    by (auto simp: resolve_token_def split: option.splits)
  define agent where "agent = (case not_blank (ss_agent_id s) of
    Some a \<Rightarrow> Some a | None \<Rightarrow> not_blank computername)"
  obtain url where url: "ss_server_url s = Some url"
    using assms token by (cases "ss_server_url s") (simp_all add: resolve_shipper_def)
  obtain a where a: "agent = Some a" "\<not> has_space_or_control a"
    using assms unfolding resolve_shipper_def Let_def agent_def [symmetric]
    by (cases agent) (simp_all add: token url split: if_splits)
  have cfg: "cfg = \<lparr>sc_server_url = strip_slashes url, sc_agent_id = a,
      sc_tenant_id = ss_tenant_id s, sc_tags = ss_tags s, sc_token = token,
      sc_verify_tls = ss_verify_tls s, sc_timeout = 1000 * max (ss_timeout_secs s) 1,
      sc_poll_interval = 1000 * max (ss_poll_interval_secs s) 1,
      sc_max_backoff = 1000 * max (ss_max_backoff_secs s) 1\<rparr>"
    using assms unfolding resolve_shipper_def Let_def agent_def [symmetric]
    by (simp add: token url a split: if_splits)
  have "\<not> is_blank a"
    using a(1) by (auto simp: agent_def not_blank_def split: option.splits if_splits)
  note facts = this token form a(2) strip_slashes_no_slash [of url]
  show ?thesis unfolding cfg using facts by (simp add: le_max_iff_disj)
qed

theorem resolved_shipper_ok_witness:
  "\<not> has_space_or_control ''pc-7''"
proof -
  have "has_space_or_control ''pc-7'' = False" by (simp add: is_ascii_def)
  moreover have "is_blank ''pc-7'' = False"
    by (simp add: is_blank_def trim_def trim_start.simps [of "''pc-7''"] trim_end.simps [of "''pc-7''"]
        leading_space_def trailing_space_def is_ascii_def ascii_white_def)
  ultimately have "resolve_shipper (\<lambda>_. Err '''') None
      (empty_section\<lparr>ss_server_url := Some ''https://w/'', ss_agent_id := Some ''pc-7'',
         ss_token_plain := Some ''t''\<rparr>)
    = Ok \<lparr>sc_server_url = ''https://w'', sc_agent_id = ''pc-7'', sc_tenant_id = None, sc_tags = [],
         sc_token = ''t'', sc_verify_tls = True, sc_timeout = 30000, sc_poll_interval = 5000,
         sc_max_backoff = 300000\<rparr>"
    by (simp add: resolve_shipper_def resolve_token_def empty_section_def starts_with_def
        strip_slashes_def not_blank_def default_timeout_secs_def default_poll_interval_secs_def
        default_max_backoff_secs_def)
  from resolved_shipper_ok [OF this] show ?thesis by simp
qed

end
