(* ===== verification/Etw.thy ===== *)
theory Etw
  imports Event_Sink Polling
begin

text \<open>
  The ETW consumer (\<open>src/src/etw/\<close>): six providers, each a handler from a record to an event or nothing,
  one envelope, and the callback that serialises, counts and submits. The library that reads records
  (\<open>ferrisetw\<close>) is the record \<open>parser\<close>, whose functions are \<open>try_parse\<close> at the types the handlers use,
  and \<open>serde_json::to_writer\<close> is an argument. Two handlers cut a text at a byte position, which panics
  when that position is inside a character; the release profile then aborts the process.
\<close>

section \<open>Events and their envelope\<close>

record etw_record =
  er_event_id :: u16
  er_process_id :: u32
  er_schema :: bool

record parser =
  ep_text :: "str \<Rightarrow> str option"
  ep_u32 :: "str \<Rightarrow> u32 option"
  ep_u16 :: "str \<Rightarrow> u16 option"
  ep_ip :: "str \<Rightarrow> str option"

record etw_event =
  ev_event_type :: str
  ev_kind :: str
  ev_event_version :: u16
  ev_pid :: "u32 option"
  ev_process_name :: "str option"
  ev_payload :: json

definition ET_DNS_QUERY :: str where "ET_DNS_QUERY = ''dns_query''"
definition ET_NETWORK_CONNECT :: str where "ET_NETWORK_CONNECT = ''network_connect''"
definition ET_POWERSHELL_SCRIPT :: str where "ET_POWERSHELL_SCRIPT = ''powershell_script''"
definition ET_WMI_ACTIVITY :: str where "ET_WMI_ACTIVITY = ''wmi_activity''"
definition ET_TLS_HANDSHAKE :: str where "ET_TLS_HANDSHAKE = ''tls_handshake''"
definition ET_AMSI_SCAN :: str where "ET_AMSI_SCAN = ''amsi_scan''"

definition etw_envelope :: "str \<Rightarrow> etw_event \<Rightarrow> json" where
  "etw_envelope ts e =
     JObj ([(''ts'', JStr ts), (''module'', JStr ''etw''), (''event_type'', JStr (ev_event_type e))] @
           (case ev_pid e of
              None \<Rightarrow> []
            | Some pid \<Rightarrow>
                [(''process'', JObj ((''pid'', JInt (uint pid)) #
                   (case ev_process_name e of None \<Rightarrow> [] | Some n \<Rightarrow> [(''name'', JStr n)])))]) @
           [(''raw'', ev_payload e), (''source'', JStr ''etw''), (''kind'', JStr (ev_kind e)),
            (''event_version'', JInt (uint (ev_event_version e)))])"

definition etw_ndjson_line :: "(json \<Rightarrow> bytes option) \<Rightarrow> str \<Rightarrow> etw_event \<Rightarrow> bytes option" where
  "etw_ndjson_line to_writer ts e = map_option (\<lambda>b. b @ [10]) (to_writer (etw_envelope ts e))"

section \<open>Handlers\<close>

text \<open>\<open>parser.try_parse(..).unwrap_or_default()\<close> and \<open>.unwrap_or(0)\<close>.\<close>

definition text_of :: "parser \<Rightarrow> str \<Rightarrow> str" where
  "text_of p k = (case ep_text p k of Some s \<Rightarrow> s | None \<Rightarrow> [])"

definition u32_of :: "parser \<Rightarrow> str \<Rightarrow> u32" where
  "u32_of p k = (case ep_u32 p k of Some n \<Rightarrow> n | None \<Rightarrow> 0)"

definition u16_of :: "parser \<Rightarrow> str \<Rightarrow> u16" where
  "u16_of p k = (case ep_u16 p k of Some n \<Rightarrow> n | None \<Rightarrow> 0)"

definition ip_of :: "parser \<Rightarrow> str \<Rightarrow> str" where
  "ip_of p k = (case ep_ip p k of Some s \<Rightarrow> s | None \<Rightarrow> [])"

definition event_of :: "str \<Rightarrow> str \<Rightarrow> u32 \<Rightarrow> (str \<times> json) list \<Rightarrow> etw_event" where
  "event_of event_type kind pid payload =
     \<lparr>ev_event_type = event_type, ev_kind = kind, ev_event_version = 1, ev_pid = Some pid,
      ev_process_name = None, ev_payload = JObj payload\<rparr>"

definition JWord :: "'a::len word \<Rightarrow> json" where "JWord w = JInt (uint w)"

text \<open>\<open>split(';')\<close> without the empty parts.\<close>

fun answer_parts :: "str \<Rightarrow> str \<Rightarrow> str list" where
  "answer_parts [] part = (if part = [] then [] else [part])"
| "answer_parts (c # cs) part =
     (if c = CHR '';'' then (if part = [] then [] else [part]) @ answer_parts cs []
      else answer_parts cs (part @ [c]))"

definition dns_handle :: "etw_record \<Rightarrow> parser \<Rightarrow> etw_event option outcome" where
  "dns_handle r p =
     (let i = er_event_id r; query_name = text_of p ''QueryName'' in
      if i \<noteq> 3008 \<and> i \<noteq> 3009 then Ok None
      else if query_name = [] then Ok None
      else Ok (Some (event_of ET_DNS_QUERY ''DnsQuery'' (er_process_id r)
        [(''pid'', JWord (er_process_id r)), (''query_name'', JStr query_name),
         (''query_type'', JWord (u32_of p ''QueryType'')), (''query_status'', JWord (u32_of p ''QueryStatus'')),
         (''answers'', JArr (map JStr (answer_parts (text_of p ''QueryResults'') []))),
         (''timed_out'', JBool (i = 3009))])))"

definition tcp_proto :: "u16 \<Rightarrow> (str \<times> bool) option" where
  "tcp_proto i =
     (if i = 12 then Some (''tcp'', False) else if i = 28 then Some (''tcp'', True)
      else if i = 42 then Some (''udp'', False) else if i = 58 then Some (''udp'', True) else None)"

definition tcp_handle :: "etw_record \<Rightarrow> parser \<Rightarrow> etw_event option outcome" where
  "tcp_handle r p =
     (case tcp_proto (er_event_id r) of
        None \<Rightarrow> Ok None
      | Some (proto, is_v6) \<Rightarrow>
          (let daddr = ip_of p ''daddr''; saddr = ip_of p ''saddr'';
               pid = (case ep_u32 p ''ProcessId'' of
                        Some n \<Rightarrow> n
                      | None \<Rightarrow> (case ep_u32 p ''PID'' of Some n \<Rightarrow> n | None \<Rightarrow> er_process_id r)) in
           if daddr = [] \<and> saddr = [] then Ok None
           else Ok (Some (event_of ET_NETWORK_CONNECT (if proto = ''tcp'' then ''TcpConnect'' else ''UdpSend'') pid
             [(''pid'', JWord pid), (''protocol'', JStr proto), (''ip_version'', JInt (if is_v6 then 6 else 4)),
              (''dst_ip'', JStr daddr), (''dst_port'', JWord (u16_of p ''dport'')), (''src_ip'', JStr saddr),
              (''src_port'', JWord (u16_of p ''sport'')), (''direction'', JStr ''outbound'')]))))"

text \<open>\<open>&s[..n]\<close>: a position that is not the start of a character is a panic.\<close>

definition char_boundary :: "str \<Rightarrow> nat \<Rightarrow> bool" where
  "char_boundary s n \<longleftrightarrow>
     n = 0 \<or> n = length s \<or> (n < length s \<and> \<not> cont (of_char (s ! n)))"

definition slice_to :: "nat \<Rightarrow> str \<Rightarrow> str outcome" where
  "slice_to n s = (if char_boundary s n then Ok (take n s) else Panicked)"

definition capped_text :: "nat \<Rightarrow> str \<Rightarrow> (str \<times> bool) outcome" where
  "capped_text cap s =
     (if cap < length s then map_ok (\<lambda>t. (t, True)) (slice_to cap s) else Ok (s, False))"

definition MAX_SCRIPT_BYTES :: nat where "MAX_SCRIPT_BYTES = 16 * 1024"

definition powershell_handle :: "etw_record \<Rightarrow> parser \<Rightarrow> etw_event option outcome" where
  "powershell_handle r p =
     (let script = text_of p ''ScriptBlockText'' in
      if er_event_id r \<noteq> 4104 then Ok None
      else if script = [] then Ok None
      else map_ok (\<lambda>(script, truncated). Some (event_of ET_POWERSHELL_SCRIPT ''PowerShellScript'' (er_process_id r)
        [(''pid'', JWord (er_process_id r)), (''script_block_id'', JStr (text_of p ''ScriptBlockId'')),
         (''script_block'', JStr script), (''script_truncated'', JBool truncated),
         (''script_path'', JStr (text_of p ''Path''))]))
        (capped_text MAX_SCRIPT_BYTES script))"

definition wmi_handle :: "etw_record \<Rightarrow> parser \<Rightarrow> etw_event option outcome" where
  "wmi_handle r p =
     (let i = er_event_id r in
      if i \<noteq> 5857 \<and> i \<noteq> 5861 then Ok None
      else
        let operation = text_of p ''Operation''; namespace = text_of p ''NamespaceName'';
            pid = (case ep_u32 p ''ProcessID'' of Some n \<Rightarrow> n | None \<Rightarrow> er_process_id r) in
        if i = 5857 \<and>
           (operation = [] \<or> eq_ignore_ascii_case namespace (''root'' @ [CHR 0x5C] @ ''cimv2''))
        then Ok None
        else Ok (Some (event_of ET_WMI_ACTIVITY (if i = 5857 then ''WmiOperation'' else ''WmiPermanentConsumer'') pid
          [(''pid'', JWord pid), (''operation'', JStr operation), (''namespace'', JStr namespace),
           (''provider'', JStr (text_of p ''ProviderName'')), (''user'', JStr (text_of p ''User'')),
           (''is_persistence_register'', JBool (i = 5861))])))"

definition tls_label :: "u32 \<Rightarrow> str" where
  "tls_label v =
     (if v = 0x0301 then ''TLS1.0'' else if v = 0x0302 then ''TLS1.1'' else if v = 0x0303 then ''TLS1.2''
      else if v = 0x0304 then ''TLS1.3'' else if v = 0x0002 then ''SSL2.0'' else if v = 0x0300 then ''SSL3.0''
      else ''unknown'')"

definition schannel_handle :: "etw_record \<Rightarrow> parser \<Rightarrow> etw_event option outcome" where
  "schannel_handle r p =
     (let target_name = text_of p ''TargetName''; protocol_version = u32_of p ''ProtocolVersion'' in
      if er_event_id r \<noteq> 36880 then Ok None
      else if target_name = [] \<and> protocol_version = 0 then Ok None
      else Ok (Some (event_of ET_TLS_HANDSHAKE ''TlsHandshake'' (er_process_id r)
        [(''pid'', JWord (er_process_id r)), (''sni'', JStr target_name),
         (''protocol_version'', JWord protocol_version), (''protocol_label'', JStr (tls_label protocol_version)),
         (''cipher_suite'', JWord (u32_of p ''CipherSuite''))])))"

definition MAX_CONTENT_BYTES :: nat where "MAX_CONTENT_BYTES = 16 * 1024"

definition amsi_handle :: "etw_record \<Rightarrow> parser \<Rightarrow> etw_event option outcome" where
  "amsi_handle r p =
     (let content_name = text_of p ''ContentName''; content = text_of p ''Content'';
          result = u32_of p ''ScanResult'' in
      if er_event_id r \<noteq> 1101 then Ok None
      else if content = [] \<and> content_name = [] then Ok None
      else map_ok (\<lambda>(content, truncated). Some (event_of ET_AMSI_SCAN ''AmsiContent'' (er_process_id r)
        [(''pid'', JWord (er_process_id r)), (''content_name'', JStr content_name),
         (''app_name'', JStr (text_of p ''AppName'')), (''content'', JStr content),
         (''content_truncated'', JBool truncated), (''scan_result'', JWord result),
         (''is_malicious'', JBool (32768 \<le> result \<or> (1 \<le> result \<and> result < 32767)))]))
        (capped_text MAX_CONTENT_BYTES content))"

section \<open>The callback\<close>

datatype provider = Dns | Tcp | Powershell | Wmi | Schannel | Amsi

fun guid_of :: "provider \<Rightarrow> str" where
  "guid_of Dns = ''1c95126e-7eea-49a9-a3fe-a378b03ddb4d''"
| "guid_of Tcp = ''7dd42a49-5329-4832-8dfd-43d979153a88''"
| "guid_of Powershell = ''a0c1853b-5c40-4b15-8766-3cf1c58f985a''"
| "guid_of Wmi = ''1418ef04-b0b4-4623-bf7e-d74ab47bbdaa''"
| "guid_of Schannel = ''91cc1150-71aa-47e2-a679-fbedaccda1a3''"
| "guid_of Amsi = ''2a576b87-09a7-520e-c21a-4942f0271d67''"

fun handler_of :: "provider \<Rightarrow> etw_record \<Rightarrow> parser \<Rightarrow> etw_event option outcome" where
  "handler_of Dns = dns_handle"
| "handler_of Tcp = tcp_handle"
| "handler_of Powershell = powershell_handle"
| "handler_of Wmi = wmi_handle"
| "handler_of Schannel = schannel_handle"
| "handler_of Amsi = amsi_handle"

record etw_state =
  es_counter :: "provider \<Rightarrow> u64"
  es_dropped :: u64
  es_spool :: spool

definition deliver :: "spool_config \<Rightarrow> provider \<Rightarrow> bytes \<Rightarrow> etw_state \<Rightarrow> etw_state" where
  "deliver cfg v line s =
     (let (ok, sp) = try_submit cfg line (es_spool s) in
      s\<lparr>es_counter := (es_counter s)(v := es_counter s v + 1), es_spool := sp,
        es_dropped := (if ok then es_dropped s else es_dropped s + 1)\<rparr>)"

definition on_record ::
    "(json \<Rightarrow> bytes option) \<Rightarrow> spool_config \<Rightarrow> str \<Rightarrow> provider \<Rightarrow> etw_record \<times> parser \<Rightarrow>
     etw_state \<Rightarrow> etw_state outcome" where
  "on_record to_writer cfg ts v rp s =
     (case rp of (r, p) \<Rightarrow>
        if \<not> er_schema r then Ok s
        else map_ok (\<lambda>e. case Option.bind e (etw_ndjson_line to_writer ts) of
                           None \<Rightarrow> s | Some line \<Rightarrow> deliver cfg v line s)
               (handler_of v r p))"

section \<open>The session\<close>

record etw_config =
  ec_dns :: bool
  ec_tcp :: bool
  ec_powershell :: bool
  ec_wmi :: bool
  ec_schannel :: bool
  ec_amsi :: bool

definition default_etw :: etw_config where
  "default_etw = \<lparr>ec_dns = True, ec_tcp = True, ec_powershell = True, ec_wmi = True, ec_schannel = True, ec_amsi = True\<rparr>"

definition enabled_providers :: "etw_config \<Rightarrow> provider list" where
  "enabled_providers c =
     (if ec_dns c then [Dns] else []) @ (if ec_tcp c then [Tcp] else []) @
     (if ec_powershell c then [Powershell] else []) @ (if ec_wmi c then [Wmi] else []) @
     (if ec_schannel c then [Schannel] else []) @ (if ec_amsi c then [Amsi] else [])"

text \<open>\<open>spawn\<close>: the providers of the session that is started, if one is; \<open>start\<close> is whether the trace could
be started with them.\<close>

definition etw_spawn :: "(provider list \<Rightarrow> bool) \<Rightarrow> etw_config \<Rightarrow> provider list option" where
  "etw_spawn start c =
     (let providers = enabled_providers c in
      if providers = [] then None else if start providers then Some providers else None)"

section \<open>Panics\<close>

text \<open>The two texts that are cut.\<close>

fun cut_text :: "provider \<Rightarrow> parser \<Rightarrow> str" where
  "cut_text Powershell p = text_of p ''ScriptBlockText''"
| "cut_text Amsi p = text_of p ''Content''"
| "cut_text _ p = []"

fun cut_event :: "provider \<Rightarrow> u16 option" where
  "cut_event Powershell = Some 4104"
| "cut_event Amsi = Some 1101"
| "cut_event _ = None"

lemma capped_text_panics:
  "capped_text cap s = Panicked \<longleftrightarrow> cap < length s \<and> 0 < cap \<and> cont (of_char (s ! cap))"
  by (auto simp: capped_text_def slice_to_def char_boundary_def)

lemma capped_text_never: "capped_text cap s \<noteq> Undefined" "capped_text cap s \<noteq> Err e"
  by (auto simp: capped_text_def slice_to_def)

lemma map_ok_Panicked: "map_ok f m = Panicked \<longleftrightarrow> m = Panicked" "map_ok f m = Undefined \<longleftrightarrow> m = Undefined"
  by (cases m; simp)+

text \<open>C25. The consumer crashes the agent exactly when a PowerShell script block or an AMSI buffer of more than
16 KiB has a multi-byte character across its byte 16384: such a text, which anyone who runs a script chooses,
ends the process; no other record of any provider does.\<close>

theorem etw_panics_on_cut_characters:
  "on_record to_writer cfg ts v (r, p) s = Panicked \<longleftrightarrow>
     er_schema r \<and> cut_event v = Some (er_event_id r) \<and> 16384 < length (cut_text v p) \<and>
     cont (of_char (cut_text v p ! 16384))"
  by (cases v) (auto simp: on_record_def map_ok_Panicked dns_handle_def tcp_handle_def powershell_handle_def
      wmi_handle_def schannel_handle_def amsi_handle_def capped_text_panics MAX_SCRIPT_BYTES_def
      MAX_CONTENT_BYTES_def Let_def split: option.splits prod.splits)

section \<open>What the events say\<close>

fun event_type_of :: "provider \<Rightarrow> str" where
  "event_type_of Dns = ET_DNS_QUERY"
| "event_type_of Tcp = ET_NETWORK_CONNECT"
| "event_type_of Powershell = ET_POWERSHELL_SCRIPT"
| "event_type_of Wmi = ET_WMI_ACTIVITY"
| "event_type_of Schannel = ET_TLS_HANDSHAKE"
| "event_type_of Amsi = ET_AMSI_SCAN"

lemma event_of_fields [simp]:
  "ev_event_type (event_of t k pid payload) = t" "ev_pid (event_of t k pid payload) = Some pid"
  "ev_payload (event_of t k pid payload) = JObj payload"
  by (simp_all add: event_of_def)

lemma capped_text_result:
  "capped_text cap s = Ok (t, b) \<Longrightarrow> t = take cap s \<and> (b \<longleftrightarrow> cap < length s)"
  by (auto simp: capped_text_def slice_to_def split: if_splits)

text \<open>An event of a provider has that provider's type, and the same process in its payload and in its
process block; the text that it carries is the first 16 KiB of the record's, marked as truncated exactly when
there was more.\<close>

theorem etw_events_consistent:
  assumes "handler_of v r p = Ok (Some e)"
  shows "ev_event_type e = event_type_of v \<and>
    (\<exists>pid. ev_pid e = Some pid \<and> json_get ''pid'' (ev_payload e) = Some (JWord pid)) \<and>
    (v = Powershell \<longrightarrow>
       json_get ''script_block'' (ev_payload e) = Some (JStr (take 16384 (cut_text v p))) \<and>
       json_get ''script_truncated'' (ev_payload e) = Some (JBool (16384 < length (cut_text v p)))) \<and>
    (v = Amsi \<longrightarrow>
       json_get ''content'' (ev_payload e) = Some (JStr (take 16384 (cut_text v p))) \<and>
       json_get ''content_truncated'' (ev_payload e) = Some (JBool (16384 < length (cut_text v p))))"
  using assms
  by (cases v) (auto simp: dns_handle_def tcp_handle_def powershell_handle_def wmi_handle_def schannel_handle_def
      amsi_handle_def MAX_SCRIPT_BYTES_def MAX_CONTENT_BYTES_def Let_def outcome_simps
      split: option.splits prod.splits if_splits dest!: capped_text_result)

section \<open>Where the events go\<close>

text \<open>The line of a record, when its handler makes one.\<close>

definition line_of ::
    "(json \<Rightarrow> bytes option) \<Rightarrow> str \<Rightarrow> provider \<Rightarrow> etw_record \<times> parser \<Rightarrow> bytes option" where
  "line_of to_writer ts v rp =
     (if er_schema (fst rp) then
        (case handler_of v (fst rp) (snd rp) of
           Ok e \<Rightarrow> Option.bind e (etw_ndjson_line to_writer ts) | _ \<Rightarrow> None)
      else None)"

text \<open>A series of records of any providers, each with the time of its callback.\<close>

fun on_records ::
    "(json \<Rightarrow> bytes option) \<Rightarrow> spool_config \<Rightarrow> (str \<times> provider \<times> etw_record \<times> parser) list \<Rightarrow>
     etw_state \<Rightarrow> etw_state outcome" where
  "on_records to_writer cfg [] s = Ok s"
| "on_records to_writer cfg ((ts, v, rp) # rs) s =
     and_then (on_record to_writer cfg ts v rp s) (on_records to_writer cfg rs)"

definition lines_of ::
    "(json \<Rightarrow> bytes option) \<Rightarrow> (str \<times> provider \<times> etw_record \<times> parser) list \<Rightarrow> (provider \<times> bytes) list" where
  "lines_of to_writer rs =
     List.map_filter (\<lambda>(ts, v, rp). map_option (Pair v) (line_of to_writer ts v rp)) rs"

lemma on_record_line:
  assumes "on_record to_writer cfg ts v rp s = Ok s'"
  shows "s' = (case line_of to_writer ts v rp of None \<Rightarrow> s | Some line \<Rightarrow> deliver cfg v line s)"
  using assms
  by (cases rp; cases "handler_of v (fst rp) (snd rp)")
     (auto simp: on_record_def line_of_def split: if_splits option.splits)

lemma on_records_deliver:
  "on_records to_writer cfg rs s = Ok s' \<Longrightarrow>
     s' = fold (\<lambda>(v, line). deliver cfg v line) (lines_of to_writer rs) s"
proof (induction rs arbitrary: s)
  case Nil
  then show ?case by (simp add: lines_of_def List.map_filter_simps)
next
  case (Cons r rs)
  obtain ts v rp where r: "r = (ts, v, rp)" by (cases r)
  with Cons.prems obtain s1 where s1: "on_record to_writer cfg ts v rp s = Ok s1"
      "on_records to_writer cfg rs s1 = Ok s'" by (auto simp: outcome_simps)
  from Cons.IH [OF s1(2)] on_record_line [OF s1(1)] show ?case
    by (auto simp: r lines_of_def List.map_filter_simps split: option.splits)
qed

lemma deliver_spool: "es_spool (deliver cfg v line s) = snd (try_submit cfg line (es_spool s))"
  by (simp add: deliver_def case_prod_unfold Let_def)

lemma deliver_counter: "es_counter (deliver cfg v line s) u = es_counter s u + (if u = v then 1 else 0)"
  by (simp add: deliver_def case_prod_unfold Let_def)

lemma delivers_spool:
  "es_spool (fold (\<lambda>(v, line). deliver cfg v line) ls s) = spool_sink.submit_all cfg (map snd ls) (es_spool s)"
  by (induction ls arbitrary: s) (auto simp: spool_sink.submit_all_def deliver_spool)

lemma delivers_counter:
  "es_counter (fold (\<lambda>(v, line). deliver cfg v line) ls s) u =
     es_counter s u + word_of_nat (length (filter (\<lambda>(v, line). v = u) ls))"
  by (induction ls arbitrary: s) (auto simp: deliver_counter)

text \<open>C26. ETW never blocks the agent and never loses an event silently: over any series of records that is
survived, the lines made of them are queued in order, those the spool refused are counted as dropped, and the
counter of each provider grows by the number of its lines.\<close>

theorem etw_events_accounted:
  assumes "on_records to_writer cfg rs s = Ok s'"
  shows "\<exists>ks. subseq ks (map snd (lines_of to_writer rs)) \<and>
    sp_channel (es_spool s') = sp_channel (es_spool s) @ ks \<and>
    events_dropped (es_spool s') + length ks =
      events_dropped (es_spool s) + length (lines_of to_writer rs) \<and>
    (\<forall>v. es_counter s' v = es_counter s v +
       word_of_nat (length (filter (\<lambda>(u, line). u = v) (lines_of to_writer rs))))"
proof -
  note run = on_records_deliver [OF assms]
  from spool_sink.submit_all_accounts [of "map snd (lines_of to_writer rs)" cfg "es_spool s"]
  show ?thesis unfolding run delivers_spool delivers_counter by auto
qed

section \<open>Examples\<close>

definition sample_parser :: parser where
  "sample_parser = \<lparr>ep_text = [''QueryName'' \<mapsto> ''a.b'', ''QueryResults'' \<mapsto> ''1.2.3.4;;5.6.7.8''],
     ep_u32 = \<lambda>k. None, ep_u16 = \<lambda>k. None, ep_ip = \<lambda>k. None\<rparr>"

definition dns_record :: etw_record where
  "dns_record = \<lparr>er_event_id = 3008, er_process_id = 77, er_schema = True\<rparr>"

definition dns_event :: etw_event where
  "dns_event = event_of ET_DNS_QUERY ''DnsQuery'' 77
     [(''pid'', JWord (77 :: u32)), (''query_name'', JStr ''a.b''), (''query_type'', JWord (0 :: u32)),
      (''query_status'', JWord (0 :: u32)), (''answers'', JArr [JStr ''1.2.3.4'', JStr ''5.6.7.8'']),
      (''timed_out'', JBool False)]"

lemma dns_example: "handler_of Dns dns_record sample_parser = Ok (Some dns_event)"
  by (simp add: dns_handle_def dns_record_def sample_parser_def text_of_def u32_of_def dns_event_def)

theorem etw_events_consistent_witness:
  "ev_event_type dns_event = ET_DNS_QUERY \<and>
     (\<exists>pid. ev_pid dns_event = Some pid \<and> json_get ''pid'' (ev_payload dns_event) = Some (JWord pid))"
  using etw_events_consistent [OF dns_example] by simp

definition etw_spool_config :: spool_config where
  "etw_spool_config = \<lparr>max_bytes_per_file = 100, max_age = 1000, max_total_bytes = 1000, channel_capacity = 2\<rparr>"

definition etw_start :: etw_state where
  "etw_start = \<lparr>es_counter = \<lambda>v. 0, es_dropped = 0, es_spool = spool_new []\<rparr>"

definition one_byte :: "json \<Rightarrow> bytes option" where "one_byte j = Some [0x7B]"

theorem etw_events_accounted_witness:
  "es_counter (deliver etw_spool_config Dns [0x7B, 10] etw_start) Dns = 1"
proof -
  have "on_records one_byte etw_spool_config [(''t'', Dns, dns_record, sample_parser)] etw_start =
      Ok (deliver etw_spool_config Dns [0x7B, 10] etw_start)"
    using dns_example
    by (simp add: on_record_def dns_record_def one_byte_def etw_ndjson_line_def del: handler_of.simps)
  from etw_events_accounted [OF this] have "es_counter (deliver etw_spool_config Dns [0x7B, 10] etw_start) Dns =
      es_counter etw_start Dns + word_of_nat (length (filter (\<lambda>(u, line). u = Dns)
        (lines_of one_byte [(''t'', Dns, dns_record, sample_parser)])))" by blast
  moreover have "lines_of one_byte [(''t'', Dns, dns_record, sample_parser)] = [(Dns, [0x7B, 10])]"
    using dns_example
    by (simp add: lines_of_def List.map_filter_simps line_of_def dns_record_def one_byte_def etw_ndjson_line_def
        del: handler_of.simps)
  ultimately show ?thesis by (simp add: etw_start_def)
qed

end
