(* ===== verification/Sha256.thy ===== *)
theory Sha256
  imports Text_Util
begin

unbundle bit_operations_syntax

text \<open>
  The hash the agent carries for its own commands: \<open>struct Sha256\<close> and \<open>sha256_file\<close> of
  \<open>src/src/control/executor.rs\<close>, used to check a file before it is quarantined and an installer before
  it is run. The streaming implementation comes first, as it is written, then the function of
  FIPS 180-4 (padding, message schedule, rounds) and the proof that they agree on every message
  whatever the sizes of the reads.
\<close>

section \<open>The implementation\<close>

record sha256 =
  sh_state :: "u32 list"
  sh_buf :: bytes
  sh_buf_len :: nat
  sh_total_len :: u64

text \<open>The round constants, by rows of the source.\<close>

definition K :: "u32 list" where
  "K = concat [
    [0x428a2f98, 0x71374491, 0xb5c0fbcf, 0xe9b5dba5, 0x3956c25b, 0x59f111f1, 0x923f82a4, 0xab1c5ed5],
    [0xd807aa98, 0x12835b01, 0x243185be, 0x550c7dc3, 0x72be5d74, 0x80deb1fe, 0x9bdc06a7, 0xc19bf174],
    [0xe49b69c1, 0xefbe4786, 0x0fc19dc6, 0x240ca1cc, 0x2de92c6f, 0x4a7484aa, 0x5cb0a9dc, 0x76f988da],
    [0x983e5152, 0xa831c66d, 0xb00327c8, 0xbf597fc7, 0xc6e00bf3, 0xd5a79147, 0x06ca6351, 0x14292967],
    [0x27b70a85, 0x2e1b2138, 0x4d2c6dfc, 0x53380d13, 0x650a7354, 0x766a0abb, 0x81c2c92e, 0x92722c85],
    [0xa2bfe8a1, 0xa81a664b, 0xc24b8b70, 0xc76c51a3, 0xd192e819, 0xd6990624, 0xf40e3585, 0x106aa070],
    [0x19a4c116, 0x1e376c08, 0x2748774c, 0x34b0bcb5, 0x391c0cb3, 0x4ed8aa4a, 0x5b9cca4f, 0x682e6ff3],
    [0x748f82ee, 0x78a5636f, 0x84c87814, 0x8cc70208, 0x90befffa, 0xa4506ceb, 0xbef9a3f7, 0xc67178f2]]"

definition sha_new :: sha256 where
  "sha_new = \<lparr>sh_state = [0x6a09e667, 0xbb67ae85, 0x3c6ef372, 0xa54ff53a, 0x510e527f, 0x9b05688c,
                           0x1f83d9ab, 0x5be0cd19],
              sh_buf = replicate 64 0, sh_buf_len = 0, sh_total_len = 0\<rparr>"

definition from_be_bytes :: "u8 \<Rightarrow> u8 \<Rightarrow> u8 \<Rightarrow> u8 \<Rightarrow> u32" where
  "from_be_bytes b3 b2 b1 b0 =
     push_bit 24 (ucast b3) OR push_bit 16 (ucast b2) OR push_bit 8 (ucast b1) OR ucast b0"

definition to_be_bytes :: "nat \<Rightarrow> 'w::len word \<Rightarrow> bytes" where
  "to_be_bytes n w = map (\<lambda>i. ucast (drop_bit (8 * i) w)) (rev [0..<n])"

text \<open>The message schedule: the array is filled in place.\<close>

definition schedule_step :: "nat \<Rightarrow> u32 list \<Rightarrow> u32 list" where
  "schedule_step i w =
     (let s0 = word_rotr 7 (w ! (i - 15)) XOR word_rotr 18 (w ! (i - 15)) XOR drop_bit 3 (w ! (i - 15));
          s1 = word_rotr 17 (w ! (i - 2)) XOR word_rotr 19 (w ! (i - 2)) XOR drop_bit 10 (w ! (i - 2))
      in w[i := w ! (i - 16) + s0 + w ! (i - 7) + s1])"

definition schedule :: "bytes \<Rightarrow> u32 list" where
  "schedule block =
     fold schedule_step [16..<64]
       (map (\<lambda>i. from_be_bytes (block ! (i * 4)) (block ! (i * 4 + 1)) (block ! (i * 4 + 2))
                   (block ! (i * 4 + 3))) [0..<16] @ replicate 48 0)"

type_synonym sha_vars = "u32 \<times> u32 \<times> u32 \<times> u32 \<times> u32 \<times> u32 \<times> u32 \<times> u32"

definition sha_round :: "u32 list \<Rightarrow> nat \<Rightarrow> sha_vars \<Rightarrow> sha_vars" where
  "sha_round w i v =
     (case v of (a, b, c, d, e, f, g, h) \<Rightarrow>
        let s1 = word_rotr 6 e XOR word_rotr 11 e XOR word_rotr 25 e;
            ch = (e AND f) XOR (NOT e AND g);
            t1 = h + s1 + ch + K ! i + w ! i;
            s0 = word_rotr 2 a XOR word_rotr 13 a XOR word_rotr 22 a;
            mj = (a AND b) XOR (a AND c) XOR (b AND c);
            t2 = s0 + mj
        in (t1 + t2, a, b, c, d + t1, e, f, g))"

definition compress :: "u32 list \<Rightarrow> bytes \<Rightarrow> u32 list" where
  "compress st block =
     (let w = schedule block;
          (a, b, c, d, e, f, g, h) =
            fold (sha_round w) [0..<64] (st ! 0, st ! 1, st ! 2, st ! 3, st ! 4, st ! 5, st ! 6, st ! 7)
      in [st ! 0 + a, st ! 1 + b, st ! 2 + c, st ! 3 + d, st ! 4 + e, st ! 5 + f, st ! 6 + g, st ! 7 + h])"

text \<open>\<open>buf[at..at + n].copy_from_slice(data)\<close>.\<close>

definition copy_at :: "nat \<Rightarrow> bytes \<Rightarrow> bytes \<Rightarrow> bytes" where
  "copy_at at data buf = take at buf @ data @ drop (at + length data) buf"

definition update_turn :: "sha256 \<Rightarrow> bytes \<Rightarrow> sha256" where
  "update_turn s part =
     (let s = s\<lparr>sh_buf := copy_at (sh_buf_len s) part (sh_buf s), sh_buf_len := sh_buf_len s + length part\<rparr>
      in if sh_buf_len s = 64
         then s\<lparr>sh_state := compress (sh_state s) (sh_buf s), sh_buf_len := 0\<rparr> else s)"

partial_function (option) update_loop :: "bytes \<Rightarrow> sha256 \<Rightarrow> sha256 option" where
  "update_loop data s =
     (if data = [] then Some s
      else let n = min (64 - sh_buf_len s) (length data)
           in update_loop (drop n data) (update_turn s (take n data)))"

definition sha_update :: "bytes \<Rightarrow> sha256 \<Rightarrow> sha256 option" where
  "sha_update data s =
     update_loop data (s\<lparr>sh_total_len := sh_total_len s + word_of_nat (length data)\<rparr>)"

definition zero_from :: "nat \<Rightarrow> nat \<Rightarrow> bytes \<Rightarrow> bytes" where
  "zero_from at until buf = copy_at at (replicate (until - at) 0) buf"

definition sha_finalize :: "sha256 \<Rightarrow> bytes" where
  "sha_finalize s =
     (let bit_len = sh_total_len s * 8;
          s = s\<lparr>sh_buf := (sh_buf s)[sh_buf_len s := 0x80], sh_buf_len := sh_buf_len s + 1\<rparr>;
          s = (if 56 < sh_buf_len s
               then let buf = zero_from (sh_buf_len s) 64 (sh_buf s)
                    in s\<lparr>sh_buf := buf, sh_state := compress (sh_state s) buf, sh_buf_len := 0\<rparr>
               else s);
          buf = copy_at 56 (to_be_bytes 8 bit_len) (zero_from (sh_buf_len s) 56 (sh_buf s))
      in concat (map (to_be_bytes 4) (compress (sh_state s) buf)))"

text \<open>The lower-case digits of a digest, from the nibbles of each byte.\<close>

definition hex_nibbles :: "bytes \<Rightarrow> str" where
  "hex_nibbles bs = concat (map (\<lambda>b. [digit (unat (drop_bit 4 b)), digit (unat (b AND 0xf))]) bs)"

text \<open>\<open>sha256_file\<close>: the reads of the file are what \<open>read\<close> returns, up to an empty one.\<close>

fun file_updates :: "(str + bytes) list \<Rightarrow> sha256 \<Rightarrow> (str + sha256) option" where
  "file_updates [] s = Some (Inr s)"
| "file_updates (Inl e # rs) s = Some (Inl e)"
| "file_updates (Inr bs # rs) s =
     (if bs = [] then Some (Inr s)
      else case sha_update bs s of None \<Rightarrow> None | Some s \<Rightarrow> file_updates rs s)"

definition sha256_file :: "str + (str + bytes) list \<Rightarrow> (str + str) option" where
  "sha256_file opened =
     (case opened of
        Inl e \<Rightarrow> Some (Inl e)
      | Inr rs \<Rightarrow> map_option (map_sum (\<lambda>e. e) (\<lambda>s. hex_nibbles (sha_finalize s))) (file_updates rs sha_new))"

section \<open>FIPS 180-4\<close>

definition Ch :: "u32 \<Rightarrow> u32 \<Rightarrow> u32 \<Rightarrow> u32" where "Ch x y z = (x AND y) XOR (NOT x AND z)"
definition Maj :: "u32 \<Rightarrow> u32 \<Rightarrow> u32 \<Rightarrow> u32" where "Maj x y z = (x AND y) XOR (x AND z) XOR (y AND z)"
definition Sigma0 :: "u32 \<Rightarrow> u32" where "Sigma0 x = word_rotr 2 x XOR word_rotr 13 x XOR word_rotr 22 x"
definition Sigma1 :: "u32 \<Rightarrow> u32" where "Sigma1 x = word_rotr 6 x XOR word_rotr 11 x XOR word_rotr 25 x"
definition sigma0 :: "u32 \<Rightarrow> u32" where "sigma0 x = word_rotr 7 x XOR word_rotr 18 x XOR drop_bit 3 x"
definition sigma1 :: "u32 \<Rightarrow> u32" where "sigma1 x = word_rotr 17 x XOR word_rotr 19 x XOR drop_bit 10 x"

text \<open>The schedule as the recurrence of section 6.2.2.\<close>

definition block_word :: "bytes \<Rightarrow> nat \<Rightarrow> u32" where
  "block_word b t = from_be_bytes (b ! (t * 4)) (b ! (t * 4 + 1)) (b ! (t * 4 + 2)) (b ! (t * 4 + 3))"

fun W :: "bytes \<Rightarrow> nat \<Rightarrow> u32" where
  "W b t =
     (if t < 16 then block_word b t
      else sigma1 (W b (t - 2)) + W b (t - 7) + sigma0 (W b (t - 15)) + W b (t - 16))"

declare W.simps [simp del]

fun fips_round :: "u32 \<Rightarrow> u32 \<Rightarrow> sha_vars \<Rightarrow> sha_vars" where
  "fips_round k w (a, b, c, d, e, f, g, h) =
     (let T1 = h + Sigma1 e + Ch e f g + k + w; T2 = Sigma0 a + Maj a b c
      in (T1 + T2, a, b, c, d + T1, e, f, g))"

definition fips_block :: "u32 list \<Rightarrow> bytes \<Rightarrow> u32 list" where
  "fips_block H b =
     (case fold (\<lambda>t. fips_round (K ! t) (W b t)) [0..<64]
        (H ! 0, H ! 1, H ! 2, H ! 3, H ! 4, H ! 5, H ! 6, H ! 7) of
        (a, b, c, d, e, f, g, h) \<Rightarrow> map2 (+) H [a, b, c, d, e, f, g, h])"

definition fips_pad :: "bytes \<Rightarrow> bytes" where
  "fips_pad m =
     m @ 0x80 # replicate ((119 - length m mod 64) mod 64) 0 @
     to_be_bytes 8 (word_of_nat (8 * length m) :: u64)"

fun blocks :: "bytes \<Rightarrow> bytes list" where
  "blocks m = (if length m < 64 then [] else take 64 m # blocks (drop 64 m))"

declare blocks.simps [simp del]

definition fips_sha256 :: "bytes \<Rightarrow> bytes" where
  "fips_sha256 m =
     concat (map (to_be_bytes 4) (foldl fips_block (sh_state sha_new) (blocks (fips_pad m))))"

section \<open>The compression function\<close>

lemma schedule_fill:
  "16 \<le> i \<Longrightarrow> i \<le> 64 \<Longrightarrow> length w = 64 \<Longrightarrow> (\<forall>t<16. w ! t = W b t) \<Longrightarrow>
     length (fold schedule_step [16..<i] w) = 64 \<and> (\<forall>t<i. fold schedule_step [16..<i] w ! t = W b t)"
proof (induction i)
  case (Suc i)
  show ?case
  proof (cases "i < 16")
    case True
    then have "Suc i = 16" using Suc.prems(1) by simp
    with Suc.prems show ?thesis by simp
  next
    case False
    define v where "v = fold schedule_step [16..<i] w"
    have v: "length v = 64" "\<forall>t<i. v ! t = W b t" using Suc False by (simp_all add: v_def)
    have step: "fold schedule_step [16..<Suc i] w = schedule_step i v"
      using False by (simp add: v_def)
    have "schedule_step i v ! i = W b i"
      using v False Suc.prems(2)
      by (simp add: schedule_step_def W.simps [of b i] sigma0_def sigma1_def ac_simps)
    moreover have "schedule_step i v ! t = v ! t" if "t \<noteq> i" for t
      using that by (simp add: schedule_step_def)
    ultimately show ?thesis unfolding step using v
      by (auto simp: less_Suc_eq schedule_step_def Let_def)
  qed
qed simp

lemma schedule_W: "t < 64 \<Longrightarrow> schedule b ! t = W b t"
proof -
  let ?w = "map (\<lambda>i. from_be_bytes (b ! (i * 4)) (b ! (i * 4 + 1)) (b ! (i * 4 + 2)) (b ! (i * 4 + 3)))
    [0..<16] @ replicate 48 0"
  have "\<forall>t<16. ?w ! t = W b t"
    by (simp add: nth_append W.simps block_word_def)
  then have "\<forall>t<64. fold schedule_step [16..<64] ?w ! t = W b t"
    using schedule_fill [of 64 ?w b] by simp
  then show "t < 64 \<Longrightarrow> schedule b ! t = W b t" by (simp only: schedule_def)
qed

lemma sha_round_fips: "i < 64 \<Longrightarrow> sha_round (schedule b) i v = fips_round (K ! i) (W b i) v"
  by (cases v rule: prod_cases7; simp add: sha_round_def schedule_W split: prod.split)
     (simp add: Sigma0_def Sigma1_def Ch_def Maj_def)

lemma compress_fips: "length st = 8 \<Longrightarrow> compress st b = fips_block st b"
proof -
  assume st: "length st = 8"
  have "fold (sha_round (schedule b)) [0..<64] v = fold (\<lambda>t. fips_round (K ! t) (W b t)) [0..<64] v"
    for v by (rule fold_cong) (simp_all add: sha_round_fips fun_eq_iff)
  moreover obtain a b c d e f g h where "st = [a, b, c, d, e, f, g, h]"
    using st by (auto simp: numeral_eq_Suc length_Suc_conv)
  ultimately show ?thesis
    by (simp add: compress_def fips_block_def split: prod.splits)
qed

lemma length_fips_block: "length st = 8 \<Longrightarrow> length (fips_block st b) = 8"
  by (simp add: fips_block_def split: prod.splits)

section \<open>Streaming\<close>

definition rest :: "bytes \<Rightarrow> bytes" where "rest d = drop (64 * (length d div 64)) d"

lemma length_rest [simp]: "length (rest d) = length d mod 64"
  by (simp add: rest_def minus_mult_div_eq_mod)

lemma blocks_append: "64 dvd length d \<Longrightarrow> blocks (d @ x) = blocks d @ blocks x"
proof (induction d rule: blocks.induct)
  case (1 d)
  show ?case
  proof (cases "d = []")
    case False
    with 1(2) have d: "64 \<le> length d" by (auto dest: dvd_imp_le)
    with 1(2) have "64 dvd length (drop 64 d)" by (simp add: dvd_diff_nat)
    with 1(1) d show ?thesis
      by (subst (1 2) blocks.simps) simp
  qed (simp add: blocks.simps [of "[]"])
qed

lemma blocks_short: "length x < 64 \<Longrightarrow> blocks x = []"
  by (simp add: blocks.simps)

lemma blocks_one: "length x = 64 \<Longrightarrow> blocks x = [x]"
  by (simp add: blocks.simps [of x] blocks_short)

text \<open>A message is its whole blocks followed by its rest.\<close>

lemma whole_and_rest:
  obtains w where "d = w @ rest d" and "64 dvd length w" and "blocks d = blocks w"
proof
  let ?w = "take (64 * (length d div 64)) d"
  have len: "length ?w = 64 * (length d div 64)" by (simp add: min_absorb2)
  show "d = ?w @ rest d" by (simp add: rest_def)
  show whole: "64 dvd length ?w" by (simp only: len) simp
  have "blocks d = blocks (?w @ rest d)" by (simp add: rest_def)
  also have "\<dots> = blocks ?w" using whole by (simp only: blocks_append) (simp add: blocks_short)
  finally show "blocks d = blocks ?w" .
qed

lemma blocks_fill:
  assumes "length d mod 64 + length x = 64"
  shows "blocks (d @ x) = blocks d @ [rest d @ x]" and "rest (d @ x) = []"
proof -
  obtain w where w: "d = w @ rest d" "64 dvd length w" "blocks d = blocks w" by (rule whole_and_rest)
  have "blocks (d @ x) = blocks (w @ (rest d @ x))" using w(1) by (metis append.assoc)
  then show "blocks (d @ x) = blocks d @ [rest d @ x]"
    using assms w by (simp add: blocks_append blocks_one)
  have "length (d @ x) mod 64 = (length d mod 64 + length x) mod 64" by (simp add: mod_simps)
  then have "length (rest (d @ x)) = 0" unfolding assms by simp
  then show "rest (d @ x) = []" by (simp only: length_0_conv)
qed

lemma blocks_partial:
  assumes "length d mod 64 + length x < 64"
  shows "blocks (d @ x) = blocks d" and "rest (d @ x) = rest d @ x"
proof -
  obtain w where w: "d = w @ rest d" "64 dvd length w" "blocks d = blocks w" by (rule whole_and_rest)
  have d: "d @ x = w @ (rest d @ x)" using w(1) by (metis append.assoc)
  then show "blocks (d @ x) = blocks d"
    using assms w by (simp only: d blocks_append) (simp add: blocks_short)
  have "length (d @ x) div 64 = length w div 64"
  proof -
    have "length (rest d @ x) < 64" using assms by simp
    with w(2) show ?thesis unfolding d length_append [of w] by (auto elim!: dvdE)
  qed
  then have "rest (d @ x) = drop (64 * (length w div 64)) (w @ (rest d @ x))"
    unfolding rest_def [of "d @ x"] by (simp only: d)
  also have "64 * (length w div 64) = length w" using w(2) by simp
  finally show "rest (d @ x) = rest d @ x" by simp
qed

text \<open>What the hasher holds after the bytes \<open>d\<close>.\<close>

definition hashed :: "bytes \<Rightarrow> sha256 \<Rightarrow> bool" where
  "hashed d s \<longleftrightarrow>
     sh_state s = foldl fips_block (sh_state sha_new) (blocks d) \<and> sh_buf_len s = length d mod 64 \<and>
     length (sh_buf s) = 64 \<and> take (length d mod 64) (sh_buf s) = rest d"

lemma hashed_new: "hashed [] sha_new"
  by (simp add: hashed_def sha_new_def blocks_short rest_def)

lemma length_states: "length (foldl fips_block (sh_state sha_new) bs) = 8"
  by (induction bs rule: rev_induct) (simp_all add: length_fips_block, simp add: sha_new_def)

lemma update_turn_hashed:
  assumes "hashed d s" and "length d mod 64 + length part \<le> 64"
  shows "hashed (d @ part) (update_turn s part)"
proof -
  let ?buf = "copy_at (length d mod 64) part (sh_buf s)"
  have s: "sh_buf_len s = length d mod 64" "length (sh_buf s) = 64"
      "take (length d mod 64) (sh_buf s) = rest d"
      "sh_state s = foldl fips_block (sh_state sha_new) (blocks d)"
    using assms(1) by (simp_all add: hashed_def)
  have buf: "?buf = rest d @ part @ drop (length d mod 64 + length part) (sh_buf s)"
    using s by (simp add: copy_at_def)
  show ?thesis
  proof (cases "length d mod 64 + length part = 64")
    case True
    then have full: "?buf = rest d @ part" using s buf by simp
    note fill = blocks_fill [OF True]
    have "length (d @ part) mod 64 = (length d mod 64 + length part) mod 64" by (simp add: mod_simps)
    then have zero: "length (d @ part) mod 64 = 0" unfolding True by simp
    have "compress (sh_state s) ?buf = foldl fips_block (sh_state sha_new) (blocks (d @ part))"
      using s(4) by (simp add: compress_fips length_states fill full)
    then show ?thesis
      using True s zero full by (simp add: hashed_def update_turn_def fill Let_def)
  next
    case False
    then have less: "length d mod 64 + length part < 64" using assms(2) by simp
    note partial = blocks_partial [OF less]
    have "length (d @ part) mod 64 = (length d mod 64 + length part) mod 64" by (simp add: mod_simps)
    also have "\<dots> = length d mod 64 + length part" using less by (rule mod_less)
    finally have len: "length (d @ part) mod 64 = length d mod 64 + length part" .
    show ?thesis using s less buf len
      by (simp add: hashed_def update_turn_def partial Let_def)
  qed
qed

lemma update_turn_total [simp]: "sh_total_len (update_turn s part) = sh_total_len s"
  by (simp add: update_turn_def Let_def)

lemma update_loop_hashed:
  "hashed d s \<Longrightarrow> \<exists>s'. update_loop x s = Some s' \<and> hashed (d @ x) s' \<and> sh_total_len s' = sh_total_len s"
proof (induction "length x" arbitrary: d x s rule: less_induct)
  case less
  show ?case
  proof (cases "x = []")
    case True
    with less.prems show ?thesis by (simp add: update_loop.simps)
  next
    case False
    let ?n = "min (64 - sh_buf_len s) (length x)"
    have bl: "sh_buf_len s = length d mod 64" "length d mod 64 < 64"
      using less.prems by (simp_all add: hashed_def)
    have n: "0 < ?n" "length (take ?n x) = ?n" using False bl by simp_all
    have "hashed (d @ take ?n x) (update_turn s (take ?n x))"
      using less.prems bl n(2) by (intro update_turn_hashed) simp_all
    then obtain s' where "update_loop (drop ?n x) (update_turn s (take ?n x)) = Some s'"
        and "hashed ((d @ take ?n x) @ drop ?n x) s'"
        and "sh_total_len s' = sh_total_len (update_turn s (take ?n x))"
      using less.hyps [of "drop ?n x" "d @ take ?n x" "update_turn s (take ?n x)"] n False by auto
    then show ?thesis using False by (subst update_loop.simps) (simp add: Let_def)
  qed
qed

section \<open>Padding\<close>

lemma length_to_be_bytes [simp]: "length (to_be_bytes n w) = n"
  by (simp add: to_be_bytes_def)

lemma copy_at_take:
  "at + length x \<le> length buf \<Longrightarrow> take (at + length x) (copy_at at x buf) = take at buf @ x"
  by (simp add: copy_at_def)

lemma length_copy_at: "at + length x \<le> length buf \<Longrightarrow> length (copy_at at x buf) = length buf"
  by (simp add: copy_at_def)

lemma copy_at_end: "at + length x = length buf \<Longrightarrow> copy_at at x buf = take at buf @ x"
  by (simp add: copy_at_def)

text \<open>The last block from a buffer whose used part is known: zeros up to the length, then the length.\<close>

lemma last_block:
  assumes "length buf = 64" and "take n buf = r" and "n \<le> 56" and "length x = 8"
  shows "copy_at 56 x (zero_from n 56 buf) = r @ replicate (56 - n) 0 @ x"
proof -
  have len: "length (zero_from n 56 buf) = 64" using assms by (simp add: zero_from_def length_copy_at)
  have "take 56 (zero_from n 56 buf) = r @ replicate (56 - n) 0"
    using assms copy_at_take [of n "replicate (56 - n) 0" buf] by (simp add: zero_from_def)
  then show ?thesis using len assms(4) by (simp add: copy_at_end)
qed

lemma pad_small: "r \<le> 55 \<Longrightarrow> (119 - r) mod 64 = 55 - r" for r :: nat
proof -
  assume "r \<le> 55"
  then have "119 - r = (55 - r) + 64" by simp
  then show ?thesis by (simp only: mod_add_self2) simp
qed

lemma pad_large: "55 < r \<Longrightarrow> r < 64 \<Longrightarrow> (119 - r) mod 64 = (63 - r) + 56" for r :: nat
  by (subst mod_less) simp_all

lemma blocks_padded:
  assumes "length t = 8"
  shows "blocks (d @ 0x80 # replicate ((119 - length d mod 64) mod 64) 0 @ t) =
    blocks d @
      (if length d mod 64 \<le> 55 then [rest d @ 0x80 # replicate (55 - length d mod 64) 0 @ t]
       else [rest d @ 0x80 # replicate (63 - length d mod 64) 0, replicate 56 0 @ t])"
proof -
  let ?r = "length d mod 64"
  have "?r < 64" by simp
  show ?thesis
  proof (cases "?r \<le> 55")
    case True
    have "(119 - ?r) mod 64 = 55 - ?r" using True by (rule pad_small)
    moreover have "?r + length (0x80 # replicate (55 - ?r) 0 @ t) = 64" using True assms by simp
    ultimately show ?thesis using True by (simp add: blocks_fill(1))
  next
    case False
    with \<open>?r < 64\<close> have k: "(119 - ?r) mod 64 = (63 - ?r) + 56" by (intro pad_large) simp_all
    let ?p = "(0x80 :: u8) # replicate (63 - ?r) 0"
    have fill: "?r + length ?p = 64" using \<open>?r < 64\<close> by simp
    have "length (d @ ?p) mod 64 = (?r + length ?p) mod 64" unfolding length_append by (simp only: mod_simps)
    also have "\<dots> = 0" unfolding fill by simp
    finally have whole: "64 dvd length (d @ ?p)" by (rule mod_0_imp_dvd)
    have "d @ 0x80 # replicate ((119 - ?r) mod 64) 0 @ t = (d @ ?p) @ (replicate 56 0 @ t)"
      unfolding k replicate_add by simp
    then show ?thesis
      using False whole assms by (simp only: blocks_append blocks_fill(1) [OF fill]) (simp add: blocks_one)
  qed
qed

lemma blocks_fips_pad:
  "blocks (fips_pad d) =
     (let t = to_be_bytes 8 (word_of_nat (8 * length d) :: u64) in blocks d @
       (if length d mod 64 \<le> 55 then [rest d @ 0x80 # replicate (55 - length d mod 64) 0 @ t]
        else [rest d @ 0x80 # replicate (63 - length d mod 64) 0, replicate 56 0 @ t]))"
  unfolding fips_pad_def Let_def by (rule blocks_padded) (rule length_to_be_bytes)

lemma finalize_fips:
  assumes "hashed d s" and "sh_total_len s = word_of_nat (length d)"
  shows "sha_finalize s = fips_sha256 d"
proof -
  let ?r = "length d mod 64" and ?H = "foldl fips_block (sh_state sha_new)"
  let ?t = "to_be_bytes 8 (word_of_nat (8 * length d) :: u64)"
  let ?buf = "(sh_buf s)[?r := 0x80]"
  have s: "sh_buf_len s = ?r" "length (sh_buf s) = 64" "take ?r (sh_buf s) = rest d" "sh_state s = ?H (blocks d)"
    using assms(1) by (simp_all add: hashed_def)
  have t: "to_be_bytes 8 (sh_total_len s * 8) = ?t" by (simp add: assms(2) mult.commute)
  have buf: "length ?buf = 64" "take (Suc ?r) ?buf = rest d @ [0x80]"
    using s by (simp_all add: take_Suc_conv_app_nth)
  have len: "length (?H bs) = 8" for bs by (rule length_states)
  show ?thesis
  proof (cases "?r \<le> 55")
    case True
    then have "copy_at 56 ?t (zero_from (Suc ?r) 56 ?buf) = rest d @ 0x80 # replicate (55 - ?r) 0 @ ?t"
      using last_block [OF buf, of ?t] by simp
    then show ?thesis using True s t
      by (simp add: sha_finalize_def fips_sha256_def blocks_fips_pad compress_fips len Let_def)
  next
    case False
    let ?z = "zero_from (Suc ?r) 64 ?buf"
    have r: "Suc ?r + (63 - ?r) = 64" by simp
    have z: "?z = rest d @ 0x80 # replicate (63 - ?r) 0"
      using buf r by (simp add: zero_from_def copy_at_end)
    then have "length ?z = 64" using r by simp
    then have "copy_at 56 ?t (zero_from 0 56 ?z) = replicate 56 0 @ ?t"
      using last_block [of ?z 0 "[]" ?t] by simp
    then show ?thesis using False s t z
      by (simp add: sha_finalize_def fips_sha256_def blocks_fips_pad compress_fips len
          length_fips_block Let_def)
  qed
qed

section \<open>Files\<close>

lemma sha_update_hashed:
  assumes "hashed d s" and "sh_total_len s = word_of_nat (length d)"
  obtains s' where "sha_update x s = Some s'" and "hashed (d @ x) s'"
    and "sh_total_len s' = word_of_nat (length (d @ x))"
proof -
  let ?s = "s\<lparr>sh_total_len := sh_total_len s + word_of_nat (length x)\<rparr>"
  have "hashed d ?s" using assms(1) by (simp add: hashed_def)
  from update_loop_hashed [OF this, of x] that show thesis using assms(2) by (auto simp: sha_update_def)
qed

lemma file_updates_hashed:
  "hashed d s \<Longrightarrow> sh_total_len s = word_of_nat (length d) \<Longrightarrow>
     \<exists>s'. file_updates (map Inr cs) s = Some (Inr s') \<and>
       sha_finalize s' = fips_sha256 (d @ concat (takeWhile (\<lambda>c. c \<noteq> []) cs))"
proof (induction cs arbitrary: d s)
  case Nil
  then show ?case by (simp add: finalize_fips)
next
  case (Cons c cs)
  show ?case
  proof (cases "c = []")
    case True
    with Cons.prems show ?thesis by (simp add: finalize_fips)
  next
    case False
    obtain s' where "sha_update c s = Some s'" "hashed (d @ c) s'"
        "sh_total_len s' = word_of_nat (length (d @ c))"
      using sha_update_hashed [OF Cons.prems] by blast
    with Cons.IH [of "d @ c" s'] False show ?thesis by simp
  qed
qed

lemma sha256_file_chunks:
  "sha256_file (Inr (map Inr chunks)) =
     Some (Inr (hex_nibbles (fips_sha256 (concat (takeWhile (\<lambda>c. c \<noteq> []) chunks)))))"
  using file_updates_hashed [OF hashed_new, of chunks] by (auto simp: sha256_file_def sha_new_def)

text \<open>C40. The hasher the agent carries is SHA-256: for a file of any size, read in pieces of any sizes, the
streaming loop returns and its result is the lower-case hexadecimal FIPS 180-4 digest of the bytes read
(the message length field being the bit length modulo \<open>2^64\<close>).\<close>

theorem sha256_file_is_fips:
  "sha256_file (Inr (map Inr chunks)) =
     Some (Inr (hex_nibbles (fips_sha256 (concat (takeWhile (\<lambda>c. c \<noteq> []) chunks)))))"
  by (rule sha256_file_chunks)

text \<open>A known answer, computed in the kernel.\<close>

lemma sha256_abc:
  "hex_nibbles (sha_finalize (update_turn (sha_new\<lparr>sh_total_len := 3\<rparr>) [0x61, 0x62, 0x63])) =
     ''ba7816bf8f01cfea414140de5dae2223b00361a396177a9cb410ff61f20015ad''"
  by code_simp

end
