(* ===== verification/Executor.thy ===== *)
theory Executor
  imports Client Sha256
begin

text \<open>
  The commands of the server (\<open>src/src/control/executor.rs\<close>): every command type has an executor that
  returns a status and a JSON result for the acknowledgement. The host beyond files, programs and HTTP
  is gathered in \<open>exec_host\<close>: processes, name resolution, directories, the clock, the shell.
\<close>

datatype kill_outcome = No_handle | Refused | Killed

datatype shell_child = Spawn_failed str | Wait_failed str | Child program_end

datatype fs_node = Node_error | Node_dir "fs_node list option" | Node_file u64 | Node_other

record exec_host =
  xh_env :: env
  xh_var :: "str \<Rightarrow> str option"
  xh_now :: "history \<Rightarrow> str"
  xh_unix :: "history \<Rightarrow> u64"
  xh_elapsed :: "history \<Rightarrow> u64"
  xh_temp :: str
  xh_kill :: "history \<Rightarrow> u32 \<Rightarrow> kill_outcome"
  xh_shell :: "history \<Rightarrow> str option \<Rightarrow> str \<Rightarrow> shell_child"
  xh_ip_text :: "str \<Rightarrow> str option"
  xh_addresses :: "history \<Rightarrow> str \<Rightarrow> (bool \<times> str) list option"
  xh_netsh_files :: "history \<Rightarrow> str list \<Rightarrow> (str \<Rightarrow> bytes option) \<Rightarrow> str \<Rightarrow> bytes option"
  xh_is_dir :: "history \<Rightarrow> str \<Rightarrow> bool"
  xh_tree :: "history \<Rightarrow> str \<Rightarrow> fs_node list option"
  xh_late :: "bool \<Rightarrow> nat \<Rightarrow> nat \<Rightarrow> bool"
  xh_http_text :: "http_error \<Rightarrow> str"
  xh_launch :: "history \<Rightarrow> str \<Rightarrow> str list \<Rightarrow> str + u32"

record execution_result =
  xr_status :: str
  xr_result :: json

definition outcome_of :: "str \<Rightarrow> (str \<times> json) list \<Rightarrow> execution_result" where
  "outcome_of status entries = \<lparr>xr_status = status, xr_result = JObj entries\<rparr>"

definition failed :: "(str \<times> json) list \<Rightarrow> execution_result" where "failed entries = outcome_of ''failed'' entries"

type_synonym executor = "world \<Rightarrow> execution_result \<times> world"

definition JOpt :: "str option \<Rightarrow> json" where "JOpt v = (case v of None \<Rightarrow> JNull | Some s \<Rightarrow> JStr s)"

definition no_op_ack :: "exec_host \<Rightarrow> str \<Rightarrow> json \<Rightarrow> executor" where
  "no_op_ack xh note payload w =
     (outcome_of ''completed''
        [(''executed_at'', JStr (xh_now xh (w_history w))), (''note'', JStr note), (''echo_payload'', payload)], w)"

section \<open>\<open>kill_process\<close>\<close>

definition execute_kill_process :: "exec_host \<Rightarrow> json \<Rightarrow> executor" where
  "execute_kill_process xh payload w =
     (case get_u64 ''pid'' payload of
        Some p \<Rightarrow>
          if 0 < p \<and> p \<le> 4294967295 then
            (let pid = word_of_nat p :: u32; num = JInt (int p) in
             case xh_kill xh (w_history w) pid of
               No_handle \<Rightarrow> (failed [(''error'', JStr (''OpenProcess failed '' @ em_dash @ '' process may not exist, or insufficient privilege'')), (''pid'', num)], w)
             | Killed \<Rightarrow>
                 (let w = record_effect (Terminate_process pid) True w in
                  (outcome_of ''success'' [(''executed_at'', JStr (xh_now xh (w_history w))),
                     (''action'', JStr ''TerminateProcess''), (''pid'', num), (''exit_code'', JInt 1)], w))
             | Refused \<Rightarrow>
                 (failed [(''error'', JStr ''TerminateProcess returned 0''), (''pid'', num)],
                  record_effect (Terminate_process pid) False w))
          else (failed [(''error'', JStr ''invalid or missing 'pid' in payload''), (''got'', payload)], w)
      | None \<Rightarrow> (failed [(''error'', JStr ''invalid or missing 'pid' in payload''), (''got'', payload)], w))"

section \<open>\<open>run_shell\<close>\<close>

definition MAX_SHELL_OUTPUT_BYTES :: nat where "MAX_SHELL_OUTPUT_BYTES = 64 * 1024"

text \<open>\<open>read_capped\<close> on what the reads of the pipe return.\<close>

fun read_capped :: "(str + bytes) list \<Rightarrow> nat \<Rightarrow> bytes \<Rightarrow> bytes \<times> bool" where
  "read_capped [] cap buf = (buf, False)"
| "read_capped (Inl e # rs) cap buf = (buf, False)"
| "read_capped (Inr chunk # rs) cap buf =
     (if chunk = [] then (buf, False)
      else if cap < length buf + length chunk then (buf @ take (cap - length buf) chunk, True)
      else read_capped rs cap (buf @ chunk))"

text \<open>The output is read after the loop. \<open>pe_stdout\<close> is what the child has written or tried to write when the
loop is left; of a child that is killed only what the pipe holds is there to be read.\<close>

definition shell_output :: "env \<Rightarrow> bool \<Rightarrow> bytes \<Rightarrow> bytes \<times> bool" where
  "shell_output env timed_out out =
     read_capped (map Inr (pieces 8192 (if timed_out then take (en_pipe env) out else out)))
       MAX_SHELL_OUTPUT_BYTES []"

definition shell_timeout :: "json \<Rightarrow> nat" where
  "shell_timeout payload =
     min (max (case get_u64 ''timeout_seconds'' payload of Some n \<Rightarrow> n | None \<Rightarrow> 30) 1) 600"

definition execute_run_shell :: "exec_host \<Rightarrow> json \<Rightarrow> executor" where
  "execute_run_shell xh payload w =
     (case get_nonempty ''command'' payload of
        None \<Rightarrow> (failed [(''error'', JStr ''missing or empty 'command' in payload''), (''got'', payload)], w)
      | Some command \<Rightarrow>
          (let timeout_secs = shell_timeout payload;
               working_dir = get_str ''working_dir'' payload;
               started_at = xh_now xh (w_history w);
               run = Run_program ''cmd.exe'' [''/c'', command] in
           case xh_shell xh (w_history w) working_dir command of
             Spawn_failed e \<Rightarrow>
               (failed [(''error'', JStr (''spawn cmd.exe failed: '' @ e)), (''command'', JStr command)],
                record_effect run False w)
           | Wait_failed e \<Rightarrow>
               (failed [(''error'', JStr (''wait failed: '' @ e)), (''command'', JStr command)],
                record_effect run False w)
           | Child r \<Rightarrow>
               (let seen = fst (poll_exit (1000 * timeout_secs) 99 (exits_at (xh_env xh) r) 0);
                    (out, out_cut) = shell_output (xh_env xh) (\<not> seen) (pe_stdout r);
                    (err, err_cut) = shell_output (xh_env xh) (\<not> seen) (pe_stderr r);
                    w = record_effect run seen w in
                (outcome_of (if seen then ''success'' else ''failed'')
                   [(''started_at'', JStr started_at),
                    (''duration_ms'', JInt (uint (xh_elapsed xh (w_history w)))),
                    (''command'', JStr command), (''working_dir'', JOpt working_dir),
                    (''exit_code'', (case (seen, pe_code r) of (True, Some c) \<Rightarrow> JInt c | _ \<Rightarrow> JNull)),
                    (''timed_out'', JBool (\<not> seen)),
                    (''stdout'', JStr (from_utf8_lossy out)), (''stderr'', JStr (from_utf8_lossy err)),
                    (''stdout_truncated'', JBool out_cut), (''stderr_truncated'', JBool err_cut),
                    (''max_output_bytes'', JInt (int MAX_SHELL_OUTPUT_BYTES))], w))))"

section \<open>\<open>quarantine_file\<close>\<close>

definition host_program_data :: "exec_host \<Rightarrow> str" where
  "host_program_data xh =
     (case xh_var xh ''ProgramData'' of Some d \<Rightarrow> d | None \<Rightarrow> ''C:'' @ [CHR 0x5C] @ ''ProgramData'')"

definition quarantine_dir :: "exec_host \<Rightarrow> str" where
  "quarantine_dir xh = join_path (join_path (host_program_data xh) ''WazabiEDR'') ''quarantine''"

text \<open>\<open>sha256_file\<close> on a path. The hasher returns for every input (the theorem in Sha256), so that the
last case never arises.\<close>

definition sha256_at :: "env \<Rightarrow> str \<Rightarrow> (world, str) act" where
  "sha256_at env path =
     seq (read_file env path) (\<lambda>content.
     lift_result (case sha256_file (Inr (map Inr (pieces 65536 content))) of
       Some r \<Rightarrow> r | None \<Rightarrow> Inl ''no result''))"

definition quarantine_name :: "str \<Rightarrow> str \<Rightarrow> str" where
  "quarantine_name sha path =
     take 16 sha @ ''__'' @ (case file_name path of Some n \<Rightarrow> n | None \<Rightarrow> ''unknown'') @ ''.quarantined''"

text \<open>Rename, or copy and delete across volumes; the result is whether the move happened.\<close>

definition move_or_copy :: "env \<Rightarrow> str \<Rightarrow> str \<Rightarrow> (world, unit) act" where
  "move_or_copy env src dst =
     seq (attempt (perform env (Move_file src dst))) (\<lambda>r.
     case r of
       Inr _ \<Rightarrow> give ()
     | Inl e \<Rightarrow>
         blame (''rename: '' @ e @ '', copy+rm: '')
           (seq (perform env (Copy_file src dst)) (\<lambda>_. perform env (Delete_file src))))"

text \<open>What follows the hash of the file.\<close>

definition quarantine_hashed ::
    "exec_host \<Rightarrow> str \<Rightarrow> str option \<Rightarrow> str option \<Rightarrow> str \<Rightarrow> executor" where
  "quarantine_hashed xh path expected_sha reason actual w =
     (if (case expected_sha of Some want \<Rightarrow> \<not> eq_ignore_ascii_case want actual | None \<Rightarrow> False)
      then (failed [(''error'', JStr (''sha256 mismatch '' @ em_dash @ '' refusing to quarantine'')), (''path'', JStr path),
              (''expected'', JOpt expected_sha), (''actual'', JStr actual)], w)
      else case perform (xh_env xh) (Make_dir (quarantine_dir xh)) w of
        (Inl e, w) \<Rightarrow>
          (failed [(''error'', JStr (''create quarantine dir failed: '' @ e)),
             (''quarantine_dir'', JStr (quarantine_dir xh))], w)
      | (Inr _, w) \<Rightarrow>
          (let dst = join_path (quarantine_dir xh) (quarantine_name actual path) in
           case move_or_copy (xh_env xh) path dst w of
             (Inl e, w) \<Rightarrow>
               (failed [(''error'', JStr (''move failed ('' @ e @ '')'')), (''src'', JStr path),
                  (''dst'', JStr dst)], w)
           | (Inr _, w) \<Rightarrow>
               (outcome_of ''success'' [(''executed_at'', JStr (xh_now xh (w_history w))),
                  (''action'', JStr ''quarantine_file''), (''src'', JStr path), (''dst'', JStr dst),
                  (''sha256'', JStr actual), (''reason'', JOpt reason)], w)))"

definition execute_quarantine_file :: "exec_host \<Rightarrow> json \<Rightarrow> executor" where
  "execute_quarantine_file xh payload w =
     (case get_nonempty ''path'' payload of
        None \<Rightarrow> (failed [(''error'', JStr ''missing or empty 'path' in payload''), (''got'', payload)], w)
      | Some path \<Rightarrow>
          if w_files w path = None \<and> \<not> xh_is_dir xh (w_history w) path
          then (failed [(''error'', JStr ''source file does not exist''), (''path'', JStr path)], w)
          else if w_files w path = None
          then (failed [(''error'', JStr ''path is not a regular file''), (''path'', JStr path)], w)
          else case sha256_at (xh_env xh) path w of
            (Inl e, w) \<Rightarrow>
              (failed [(''error'', JStr (''sha256 failed: '' @ e)), (''path'', JStr path)], w)
          | (Inr actual, w) \<Rightarrow>
              quarantine_hashed xh path (get_str ''sha256'' payload) (get_str ''reason'' payload) actual w)"

section \<open>\<open>scan_now\<close>\<close>

definition MAX_FILES :: nat where "MAX_FILES = 100000"

text \<open>The four counters of the walk, which add up component by component.\<close>

datatype walk_counts = Counts (wk_files: nat) (wk_dirs: nat) (wk_bytes: u64) (wk_errors: nat)

instantiation walk_counts :: comm_monoid_add
begin

definition zero_walk_counts :: walk_counts where "0 = Counts 0 0 0 0"

definition plus_walk_counts :: "walk_counts \<Rightarrow> walk_counts \<Rightarrow> walk_counts" where
  "c + d = Counts (wk_files c + wk_files d) (wk_dirs c + wk_dirs d) (wk_bytes c + wk_bytes d)
     (wk_errors c + wk_errors d)"

instance
  by standard (simp_all add: zero_walk_counts_def plus_walk_counts_def add.assoc add.commute)

end

definition one_file :: "u64 \<Rightarrow> walk_counts" where "one_file len = Counts 1 0 len 0"
definition one_dir :: walk_counts where "one_dir = Counts 0 1 0 0"
definition one_error :: walk_counts where "one_error = Counts 0 0 0 1"

lemma wk_plus [simp]:
  "wk_files (c + d) = wk_files c + wk_files d" "wk_dirs (c + d) = wk_dirs c + wk_dirs d"
  "wk_bytes (c + d) = wk_bytes c + wk_bytes d" "wk_errors (c + d) = wk_errors c + wk_errors d"
  "wk_files 0 = 0" "wk_dirs 0 = 0" "wk_bytes 0 = 0" "wk_errors 0 = 0"
  by (simp_all add: plus_walk_counts_def zero_walk_counts_def)

lemma wk_one [simp]:
  "wk_files (one_file len) = 1" "wk_files one_dir = 0" "wk_files one_error = 0"
  by (simp_all add: one_file_def one_dir_def one_error_def)

text \<open>The entries of one directory; \<open>late opening files dirs\<close> says whether the time was up when that many files and
directories had been seen, before a directory is opened or after a file was counted. The first component says whether the walk stops here.\<close>

fun walk_entries ::
    "(bool \<Rightarrow> nat \<Rightarrow> nat \<Rightarrow> bool) \<Rightarrow> nat \<Rightarrow> fs_node list \<Rightarrow> walk_counts \<Rightarrow> fs_node list option list \<Rightarrow>
     bool \<times> walk_counts \<times> fs_node list option list" where
  "walk_entries late m [] c stack = (False, c, stack)"
| "walk_entries late m (Node_error # es) c stack =
     walk_entries late m es (c + one_error) stack"
| "walk_entries late m (Node_dir d # es) c stack = walk_entries late m es c (d # stack)"
| "walk_entries late m (Node_file len # es) c stack =
     (let c = c + one_file len in
      if m \<le> wk_files c \<or> late False (wk_files c) (wk_dirs c) then (True, c, stack)
      else walk_entries late m es c stack)"
| "walk_entries late m (Node_other # es) c stack = walk_entries late m es c stack"

definition stack_size :: "fs_node list option list \<Rightarrow> nat" where
  "stack_size stack = sum_list (map (\<lambda>d. Suc (case d of None \<Rightarrow> 0 | Some es \<Rightarrow> size_list size es)) stack)"

lemma walk_entries_size:
  "stack_size (snd (snd (walk_entries late m es c stack))) \<le> stack_size stack + size_list size es"
proof (induction late m es c stack rule: walk_entries.induct)
  case (3 late m d es c stack)
  then show ?case by (cases d) (auto simp: stack_size_def)
qed (auto simp: stack_size_def Let_def)

function walk ::
    "(bool \<Rightarrow> nat \<Rightarrow> nat \<Rightarrow> bool) \<Rightarrow> nat \<Rightarrow> fs_node list option list \<Rightarrow> walk_counts \<Rightarrow> bool \<times> walk_counts" where
  "walk late m [] c = (False, c)"
| "walk late m (None # stack) c =
     (if m \<le> wk_files c \<or> late True (wk_files c) (wk_dirs c) then (True, c)
      else walk late m stack (c + one_dir + one_error))"
| "walk late m (Some es # stack) c =
     (if m \<le> wk_files c \<or> late True (wk_files c) (wk_dirs c) then (True, c)
      else
        let r = walk_entries late m es (c + one_dir) stack in
        if fst r then (True, fst (snd r)) else walk late m (snd (snd r)) (fst (snd r)))"
  by pat_completeness auto
termination
proof (relation "measure (\<lambda>(late, m, stack, c). stack_size stack)", goal_cases)
  case (3 late m es stack c x)
  then show ?case
    using walk_entries_size [of late m es "c + one_dir" stack]
    by (simp add: stack_size_def)
qed (simp_all add: stack_size_def)

definition execute_scan_now :: "exec_host \<Rightarrow> json \<Rightarrow> executor" where
  "execute_scan_now xh payload w =
     (let target = (case get_str ''target_path'' payload of Some t \<Rightarrow> t | None \<Rightarrow> host_program_data xh) in
      if w_files w target = None \<and> \<not> xh_is_dir xh (w_history w) target
      then (failed [(''error'', JStr ''target_path does not exist''), (''target_path'', JStr target)], w)
      else
        let (truncated, c) = walk (xh_late xh) MAX_FILES [xh_tree xh (w_history w) target] 0
        in (outcome_of ''success''
              [(''executed_at'', JStr (xh_now xh (w_history w))),
               (''note'', JStr (''FS walk only '' @ em_dash @ '' no signature engine in this build'')), (''target_path'', JStr target),
               (''files_seen'', JInt (int (wk_files c))), (''dirs_seen'', JInt (int (wk_dirs c))),
               (''bytes_seen'', JInt (uint (wk_bytes c))), (''errors'', JInt (int (wk_errors c))),
               (''duration_ms'', JInt (uint (xh_elapsed xh (w_history w)))),
               (''truncated'', JBool truncated), (''max_files'', JInt (int MAX_FILES)),
               (''max_duration_secs'', JInt 120)], w))"

section \<open>\<open>update_agent\<close>\<close>

text \<open>The text of a failed request is the library's here; the reason phrase of a reply that is not a success
is left out.\<close>

definition get_raw :: "exec_host \<Rightarrow> str \<Rightarrow> (world, reply) act" where
  "get_raw xh u w =
     (case exchange (xh_env xh) \<lparr>hc_method = ''GET'', hc_url = u, hc_headers = [], hc_body = []\<rparr> w of
        (Inl e, w') \<Rightarrow> (Inl (xh_http_text xh e), w')
      | (Inr r, w') \<Rightarrow> (Inr r, w'))"

definition download_to_file :: "exec_host \<Rightarrow> str \<Rightarrow> str \<Rightarrow> (world, nat) act" where
  "download_to_file xh u dst = (let env = xh_env xh in
     seq (get_raw xh u) (\<lambda>resp.
     if re_status resp div 100 \<noteq> 2 then throw (''HTTP '' @ dec (re_status resp) @ '' '')
     else seq (blame (''create '' @ dst @ '': '') (perform env (Write_file dst []))) (\<lambda>_.
          seq (perform env (Write_file dst (re_data resp))) (\<lambda>_.
          case re_broken resp of
            Some e \<Rightarrow> throw e
          | None \<Rightarrow> give (length (re_data resp))))))"

definition installer_path :: "exec_host \<Rightarrow> history \<Rightarrow> str" where
  "installer_path xh h = join_path (xh_temp xh) (''WazabiEDR_Setup_'' @ dec (unat (xh_unix xh h)) @ ''.exe'')"

definition INSTALLER_ARGS :: "str list" where
  "INSTALLER_ARGS = [''/SILENT'', ''/UPGRADE'', ''/SUPPRESSMSGBOXES'']"

text \<open>What follows the hash of the downloaded installer: check, launch without waiting.\<close>

definition launch_installer ::
    "exec_host \<Rightarrow> str \<Rightarrow> str \<Rightarrow> str option \<Rightarrow> str \<Rightarrow> nat \<Rightarrow> str \<Rightarrow> executor" where
  "launch_installer xh u path expected_sha target_version written actual w =
     (if (case expected_sha of Some want \<Rightarrow> \<not> eq_ignore_ascii_case want actual | None \<Rightarrow> False)
      then (failed [(''error'', JStr (''sha256 mismatch '' @ em_dash @ '' refusing to install'')), (''expected'', JOpt expected_sha),
              (''actual'', JStr actual), (''installer_path'', JStr path)],
            snd (perform (xh_env xh) (Delete_file path) w))
      else case xh_launch xh (w_history w) path INSTALLER_ARGS of
        Inl e \<Rightarrow>
          (failed [(''error'', JStr (''spawn installer failed: '' @ e)), (''installer_path'', JStr path),
             (''downloaded_bytes'', JInt (int written)), (''actual_sha256'', JStr actual)],
           record_effect (Run_program path INSTALLER_ARGS) False w)
      | Inr pid \<Rightarrow>
          (let w = record_effect (Run_program path INSTALLER_ARGS) True w in
           (outcome_of ''success'' [(''executed_at'', JStr (xh_now xh (w_history w))),
              (''action'', JStr ''update_agent''), (''target_version'', JStr target_version),
              (''download_url'', JStr u), (''downloaded_bytes'', JInt (int written)),
              (''sha256_verified'', JBool (expected_sha \<noteq> None)), (''sha256'', JStr actual),
              (''installer_path'', JStr path), (''installer_pid'', JInt (uint pid)),
              (''note'', JStr (''installer spawned with /SILENT /UPGRADE '' @ em_dash @ '' service will restart from new binaries''))], w)))"

definition execute_update_agent :: "exec_host \<Rightarrow> json \<Rightarrow> executor" where
  "execute_update_agent xh payload w =
     (case get_nonempty ''download_url'' payload of
        None \<Rightarrow> (failed [(''error'', JStr (''missing 'download_url' '' @ em_dash @ '' server must inject INSTALLER_URL'')), (''got'', payload)], w)
      | Some u \<Rightarrow>
          (let target_version = (case get_str ''target_version'' payload of Some v \<Rightarrow> v | None \<Rightarrow> []);
               path = installer_path xh (w_history w) in
           case download_to_file xh u path w of
             (Inl e, w) \<Rightarrow> (failed [(''error'', JStr (''download failed: '' @ e)), (''url'', JStr u)], w)
           | (Inr written, w) \<Rightarrow>
               (case sha256_at (xh_env xh) path w of
                  (Inl e, w) \<Rightarrow>
                    (failed [(''error'', JStr (''sha256 failed: '' @ e)), (''installer_path'', JStr path)],
                     snd (perform (xh_env xh) (Delete_file path) w))
                | (Inr actual, w) \<Rightarrow>
                    launch_installer xh u path (get_str ''sha256'' payload) target_version written actual w)))"

section \<open>Hash and quarantine\<close>

lemma sha256_at_correct:
  assumes "sha256_at env p w = (Inr s, w')"
  shows "w' = w \<and> (\<exists>c. w_files w p = Some c \<and> s = hex_nibbles (fips_sha256 c))"
  using assms
  by (auto simp: sha256_at_def success_simps read_file_def sha256_file_chunks takeWhile_pieces concat_pieces
      split: option.splits)

lemma sha256_at_world: "snd (sha256_at env p w) = w"
proof -
  have "keeps (\<lambda>w'. w' = w) (sha256_at env p)" unfolding sha256_at_def by (intro keeping)
  then show ?thesis by (simp add: keeps_iff)
qed

lemma move_or_copy_moved:
  assumes "move_or_copy env src dst w = (r, w')" and "src \<noteq> dst"
  shows "(\<forall>p. p \<noteq> src \<longrightarrow> p \<noteq> dst \<longrightarrow> w_files w' p = w_files w p) \<and>
    (case r of Inr _ \<Rightarrow> w_files w' dst = w_files w src \<and> w_files w' src = None
     | Inl _ \<Rightarrow> w_files w' src = w_files w src)"
  using assms
  by (auto simp: move_or_copy_def seq_def attempt_def give_def blame_def perform_def
      split: option.splits)

lemma quarantine_join: "join_path (quarantine_dir xh) n = quarantine_dir xh @ [CHR 0x5C] @ n"
proof -
  have "quarantine_dir xh \<noteq> []" and "last (quarantine_dir xh) = CHR ''e''"
    by (simp_all add: quarantine_dir_def join_path_def)
  then show ?thesis by (simp add: join_path_def is_separator_def)
qed

lemma quarantine_name_flat: "tree_of (quarantine_dir xh) (join_path (quarantine_dir xh) n)"
  by (simp add: tree_of_def quarantine_join starts_with_def)

lemma quarantine_hashed_checked:
  assumes run: "quarantine_hashed xh path expected_sha reason actual w = (r, w')"
    and dst: "path \<noteq> join_path (quarantine_dir xh) (quarantine_name actual path)"
    and content: "w_files w path = Some content"
  shows "if xr_status r = ''success'' then
      (\<forall>want. expected_sha = Some want \<longrightarrow> eq_ignore_ascii_case want actual) \<and>
      w_files w' (join_path (quarantine_dir xh) (quarantine_name actual path)) = Some content \<and> w_files w' path = None \<and>
      (\<forall>p. p \<noteq> path \<longrightarrow> p \<noteq> join_path (quarantine_dir xh) (quarantine_name actual path) \<longrightarrow> w_files w' p = w_files w p)
    else \<forall>p. \<not> tree_of (quarantine_dir xh) p \<longrightarrow> w_files w' p = w_files w p"
proof (cases "\<exists>want. expected_sha = Some want \<and> \<not> eq_ignore_ascii_case want actual")
  case True
  with run show ?thesis by (auto simp: quarantine_hashed_def failed_def outcome_of_def)
next
  case False
  let ?dst = "join_path (quarantine_dir xh) (quarantine_name actual path)"
  from False have ok: "\<not> (case expected_sha of Some want \<Rightarrow> \<not> eq_ignore_ascii_case want actual
      | None \<Rightarrow> False)" by (auto split: option.splits)
  obtain m w2 where m: "perform (xh_env xh) (Make_dir (quarantine_dir xh)) w = (m, w2)" by fastforce
  then have w2: "w_files w2 = w_files w" by (auto simp: perform_def split: option.splits)
  obtain v w3 where v: "move_or_copy (xh_env xh) path ?dst w2 = (v, w3)" by fastforce
  note moved = move_or_copy_moved [OF v dst]
  show ?thesis
  proof (cases m)
    case (Inl e)
    with run ok m w2 show ?thesis by (auto simp: quarantine_hashed_def failed_def outcome_of_def)
  next
    case made: (Inr u)
    show ?thesis
    proof (cases v)
      case (Inl e)
      with run ok m made v have "w' = w3" "xr_status r \<noteq> ''success''"
        by (auto simp: quarantine_hashed_def failed_def outcome_of_def Let_def)
      moreover have "w_files w3 p = w_files w p" if "\<not> tree_of (quarantine_dir xh) p" for p
        using moved Inl w2 that quarantine_name_flat by (cases "p = path") auto
      ultimately show ?thesis by simp
    next
      case (Inr u')
      with run ok m made v have "w' = w3" "xr_status r = ''success''"
        by (auto simp: quarantine_hashed_def failed_def outcome_of_def Let_def)
      with moved Inr w2 content False show ?thesis by auto
    qed
  qed
qed


section \<open>The scan\<close>

fun node_tally :: "fs_node \<Rightarrow> walk_counts" where
  "node_tally Node_error = one_error"
| "node_tally (Node_dir None) = one_dir + one_error"
| "node_tally (Node_dir (Some es)) = one_dir + sum_list (map node_tally es)"
| "node_tally (Node_file len) = one_file len"
| "node_tally Node_other = 0"

definition stack_tally :: "fs_node list option list \<Rightarrow> walk_counts" where
  "stack_tally stack = sum_list (map (\<lambda>d. node_tally (Node_dir d)) stack)"

text \<open>Whatever the walk has counted and has still on the stack adds up, or the walk has stopped.\<close>

lemma walk_entries_tally:
  "walk_entries late m es c stack = (stop, c', stack') \<Longrightarrow> wk_files c < m \<Longrightarrow>
     (if stop then m \<le> wk_files c' \<or> late False (wk_files c') (wk_dirs c')
      else c' + stack_tally stack' = c + sum_list (map node_tally es) + stack_tally stack) \<and>
     wk_files c' \<le> m"
proof (induction late m es c stack rule: walk_entries.induct)
  case (4 late m len es c stack)
  then show ?case by (auto simp: Let_def add.assoc add.left_commute split: if_splits)
qed (auto simp: stack_tally_def add.assoc add.left_commute)

lemma walk_tally:
  "walk late m stack c = (truncated, c') \<Longrightarrow>
     (if truncated then m \<le> wk_files c' \<or> (\<exists>opening. late opening (wk_files c') (wk_dirs c'))
      else c' = c + stack_tally stack) \<and> wk_files c' \<le> max m (wk_files c)"
proof (induction late m stack c rule: walk.induct)
  case (2 late m stack c)
  then show ?case by (auto simp: stack_tally_def add.assoc add.left_commute split: if_splits)
next
  case (3 late m es stack c)
  obtain stop c1 st1 where e: "walk_entries late m es (c + one_dir) stack = (stop, c1, st1)"
    by (metis prod_cases3)
  note entries = walk_entries_tally [OF e]
  have files: "wk_files (c + one_dir) < m" if "\<not> m \<le> wk_files c" using that by simp
  show ?case
  proof (cases "m \<le> wk_files c \<or> late True (wk_files c) (wk_dirs c) \<or> stop")
    case True
    with 3(2) e entries files show ?thesis by (auto simp: Let_def split: if_splits)
  next
    case False
    with 3(2) e have "walk late m st1 c1 = (truncated, c')" by simp
    with 3(1) [OF _ e [symmetric]] False have "(if truncated then m \<le> wk_files c' \<or>
        (\<exists>opening. late opening (wk_files c') (wk_dirs c')) else c' = c1 + stack_tally st1) \<and>
        wk_files c' \<le> max m (wk_files c1)" by simp
    with entries files False show ?thesis by (auto simp: stack_tally_def add.assoc)
  qed
qed (simp add: stack_tally_def)

text \<open>A scan changes nothing and its counts are those of the tree: unless it says that it was cut short,
files, directories, bytes (modulo two to the sixty-fourth) and errors are exactly those below the target;
it is cut short only at a hundred thousand files or when the time is up, and never counts more files.\<close>

theorem scan_counts_the_tree:
  assumes "execute_scan_now xh payload w = (r, w')" and "xr_status r = ''success''"
  shows "\<exists>root truncated c. w' = w \<and>
    root = xh_tree xh (w_history w)
      (case get_str ''target_path'' payload of Some t \<Rightarrow> t | None \<Rightarrow> host_program_data xh) \<and>
    json_get ''truncated'' (xr_result r) = Some (JBool truncated) \<and>
    json_get ''files_seen'' (xr_result r) = Some (JInt (int (wk_files c))) \<and>
    json_get ''dirs_seen'' (xr_result r) = Some (JInt (int (wk_dirs c))) \<and>
    json_get ''bytes_seen'' (xr_result r) = Some (JInt (uint (wk_bytes c))) \<and>
    json_get ''errors'' (xr_result r) = Some (JInt (int (wk_errors c))) \<and>
    wk_files c \<le> MAX_FILES \<and>
    (if truncated then wk_files c = MAX_FILES \<or> (\<exists>opening. xh_late xh opening (wk_files c) (wk_dirs c))
     else c = node_tally (Node_dir root))"
proof -
  define target where
    "target = (case get_str ''target_path'' payload of Some t \<Rightarrow> t | None \<Rightarrow> host_program_data xh)"
  obtain truncated c where walk: "walk (xh_late xh) MAX_FILES [xh_tree xh (w_history w) target] 0 = (truncated, c)"
    by fastforce
  from walk_tally [OF walk] have
    "wk_files c \<le> MAX_FILES \<and> (if truncated then wk_files c = MAX_FILES \<or>
        (\<exists>opening. xh_late xh opening (wk_files c) (wk_dirs c))
      else c = node_tally (Node_dir (xh_tree xh (w_history w) target)))"
    by (auto simp: stack_tally_def)
  moreover have "w' = w"
    "json_get ''truncated'' (xr_result r) = Some (JBool truncated)"
    "json_get ''files_seen'' (xr_result r) = Some (JInt (int (wk_files c)))"
    "json_get ''dirs_seen'' (xr_result r) = Some (JInt (int (wk_dirs c)))"
    "json_get ''bytes_seen'' (xr_result r) = Some (JInt (uint (wk_bytes c)))"
    "json_get ''errors'' (xr_result r) = Some (JInt (int (wk_errors c)))"
    using assms walk
    by (auto simp: execute_scan_now_def target_def [symmetric] failed_def outcome_of_def split: if_splits)
  ultimately show ?thesis unfolding target_def by blast
qed

section \<open>The shell\<close>

lemma read_capped_pieces:
  "[] \<notin> set chunks \<Longrightarrow> length buf \<le> cap \<Longrightarrow>
     read_capped (map Inr chunks) cap buf =
       (take cap (buf @ concat chunks), cap < length (buf @ concat chunks))"
  by (induction chunks arbitrary: buf) auto

lemma shell_output_eq:
  "shell_output env killed out =
     (let seen = if killed then take (en_pipe env) out else out in
      (take MAX_SHELL_OUTPUT_BYTES seen, MAX_SHELL_OUTPUT_BYTES < length seen))"
proof -
  have "[] \<notin> set (pieces 8192 bs)" for bs using pieces_not_Nil by blast
  then show ?thesis by (simp add: shell_output_def read_capped_pieces concat_pieces Let_def)
qed

lemma poll_exit_exact:
  "now \<le> limit \<Longrightarrow> Suc gap dvd limit - now \<Longrightarrow>
     fst (poll_exit limit gap ends now) \<longleftrightarrow> (\<exists>t\<le>limit. ends = Some t)"
proof (induction limit gap ends now rule: poll_exit.induct)
  case (1 limit gap ends now)
  consider "now = limit" | "\<exists>t\<le>now. ends = Some t" | "now < limit" "\<nexists>t. t \<le> now \<and> ends = Some t"
    using 1(2) by (auto simp: le_less)
  then show ?case
  proof cases
    case 3
    with 1(3) have "Suc gap \<le> limit - now" by (simp add: dvd_imp_le)
    then have "now + gap + 1 \<le> limit" "Suc gap dvd limit - (now + gap + 1)"
      using 1(3) dvd_diff_nat [of "Suc gap" "limit - now" "Suc gap"] by simp_all
    with 1(1) 3 show ?thesis by (subst poll_exit.simps) (auto split: option.splits)
  qed (use 1(2) in \<open>subst poll_exit.simps, auto split: option.splits\<close>)+
qed

text \<open>A shell command that is started is reported faithfully: the status is success exactly when the
child exits by itself within the clamped limit; then the exit code is the child's and each output is its
first 64 KiB, marked as truncated if and only if there was more.\<close>

theorem shell_reports_the_child:
  assumes "get_nonempty ''command'' payload = Some command"
    and "xh_shell xh (w_history w) (get_str ''working_dir'' payload) command = Child e"
    and "execute_run_shell xh payload w = (r, w')"
  shows "if (\<exists>t\<le>1000 * shell_timeout payload. exits_at (xh_env xh) e = Some t) then
      xr_status r = ''success'' \<and>
      json_get ''exit_code'' (xr_result r) = Some (case pe_code e of None \<Rightarrow> JNull | Some c \<Rightarrow> JInt c) \<and>
      json_get ''stdout'' (xr_result r) = Some (JStr (from_utf8_lossy (take 65536 (pe_stdout e)))) \<and>
      json_get ''stderr'' (xr_result r) = Some (JStr (from_utf8_lossy (take 65536 (pe_stderr e)))) \<and>
      json_get ''stdout_truncated'' (xr_result r) = Some (JBool (65536 < length (pe_stdout e))) \<and>
      json_get ''stderr_truncated'' (xr_result r) = Some (JBool (65536 < length (pe_stderr e)))
    else xr_status r = ''failed'' \<and> json_get ''timed_out'' (xr_result r) = Some (JBool True) \<and>
      json_get ''exit_code'' (xr_result r) = Some JNull"
proof -
  have "Suc 99 dvd 1000 * shell_timeout payload" by (simp add: dvd_mult2)
  then have "fst (poll_exit (1000 * shell_timeout payload) 99 (exits_at (xh_env xh) e) 0) \<longleftrightarrow>
      (\<exists>t\<le>1000 * shell_timeout payload. exits_at (xh_env xh) e = Some t)"
    using poll_exit_exact [of 0 "1000 * shell_timeout payload" 99] by simp
  then obtain seen where seen: "fst (poll_exit (1000 * shell_timeout payload) 99 (exits_at (xh_env xh) e) 0) = seen"
      "(\<exists>t\<le>1000 * shell_timeout payload. exits_at (xh_env xh) e = Some t) \<longleftrightarrow> seen" by blast
  show ?thesis
    using assms unfolding seen(2)
    by (cases seen; cases "pe_code e")
       (auto simp: execute_run_shell_def seen(1) shell_output_eq outcome_of_def MAX_SHELL_OUTPUT_BYTES_def Let_def)
qed

text \<open>The loop that waits for the child of a shell command always ends, whatever the child does: at most
ninety-nine milliseconds after the limit, which is at most ten minutes.\<close>

theorem shell_wait_ends:
  "snd (poll_exit (1000 * shell_timeout payload) 99 ends 0) \<le> 1000 * 600 + 99"
proof -
  have "shell_timeout payload \<le> 600" by (simp add: shell_timeout_def)
  then show ?thesis using poll_exit_bound [of 0 "1000 * shell_timeout payload" 99 ends] by linarith
qed

section \<open>The update\<close>

fun no_program :: "effect \<times> bool \<Rightarrow> bool" where
  "no_program (Run_program prog args, ok) = False"
| "no_program _ = True"

lemma get_raw_since: "keeps (since h no_program) (get_raw xh u)"
  by (auto simp: keeps_iff get_raw_def exchange_def intro!: since_record split: sum.splits prod.splits)

lemma download_to_file_since: "keeps (since h no_program) (download_to_file xh u dst)"
  unfolding download_to_file_def Let_def by (auto intro!: keeping get_raw_since split: option.split)

lemma launch_runs:
  assumes "launch_installer xh u path expected_sha v n actual w1 = (r, w')"
    and "since h no_program w1" and "(Run_program prog args, ok) \<in> set (drop (length h) (w_history w'))"
  shows "prog = path \<and> args = INSTALLER_ARGS \<and> w_files w' = w_files w1 \<and>
    (\<forall>want. expected_sha = Some want \<longrightarrow> eq_ignore_ascii_case want actual)"
proof (cases "case expected_sha of Some want \<Rightarrow> \<not> eq_ignore_ascii_case want actual | None \<Rightarrow> False")
  case True
  have "since h no_program (snd (perform (xh_env xh) (Delete_file path) w1))"
    using perform_since [of no_program "Delete_file path" h "xh_env xh"] assms(2) by (simp add: keeps_iff)
  with assms(1) True have "since h no_program w'" by (simp add: launch_installer_def)
  from since_new [OF this assms(3)] show ?thesis by simp
next
  case False
  then obtain b where w': "w' = record_effect (Run_program path INSTALLER_ARGS) b w1"
    using assms(1) by (auto simp: launch_installer_def Let_def split: sum.splits)
  moreover have "Run_program prog args = Run_program path INSTALLER_ARGS"
    using assms(2,3) w' since_new [OF assms(2), of "(Run_program prog args, ok)"] by (auto simp: since_def)
  ultimately show ?thesis using False by (auto split: option.splits)
qed


section \<open>Examples\<close>

text \<open>A host on which everything works: netsh exports a fixed content, the shell prints two bytes, and the
server answers a download with three.\<close>

definition sample_answer :: reply where
  "sample_answer = \<lparr>re_status = 200, re_header = \<lambda>k. None, re_text = Inr ''ok'', re_data = [1, 2, 3], re_broken = None\<rparr>"

definition sample_exec_env :: env where
  "sample_exec_env =
     \<lparr>en_reply = \<lambda>h c. Inr sample_answer,
      en_failure = \<lambda>h e. None, en_unreadable = \<lambda>h p. None,
      en_program = \<lambda>h prog args. Inr \<lparr>pe_code = Some 1, pe_success = False, pe_millis = Some 20,
        pe_stdout = [], pe_stderr = []\<rparr>,
      en_pipe = 4096\<rparr>"

definition netsh_writes :: "str list \<Rightarrow> (str \<Rightarrow> bytes option) \<Rightarrow> str \<Rightarrow> bytes option" where
  "netsh_writes args fs =
     (case args of
        [a, b, q] \<Rightarrow> if a = ''advfirewall'' \<and> b = ''export'' then fs(q := Some [7]) else fs
      | _ \<Rightarrow> fs)"

definition sample_exec_host :: exec_host where
  "sample_exec_host =
     \<lparr>xh_env = sample_exec_env, xh_var = \<lambda>k. None, xh_now = \<lambda>h. ''now'', xh_unix = \<lambda>h. 5, xh_elapsed = \<lambda>h. 7,
      xh_temp = ''t'', xh_kill = \<lambda>h pid. Killed,
      xh_shell = \<lambda>h dir command. Child \<lparr>pe_code = Some 0, pe_success = True, pe_millis = Some 250,
        pe_stdout = [0x6F, 0x6B], pe_stderr = []\<rparr>,
      xh_ip_text = \<lambda>s. None, xh_addresses = \<lambda>h s. None, xh_netsh_files = \<lambda>h args. netsh_writes args,
      xh_is_dir = \<lambda>h p. True,
      xh_tree = \<lambda>h p. Some [Node_file 10, Node_dir (Some [Node_file 5, Node_error]), Node_other, Node_dir None],
      xh_late = \<lambda>opening files dirs. False, xh_http_text = \<lambda>e. [], xh_launch = \<lambda>h p args. Inr 4711\<rparr>"

definition sample_files :: world where
  "sample_files = \<lparr>w_files = [''x.exe'' \<mapsto> [0x4D, 0x5A]], w_history = []\<rparr>"

lemma sample_hosts [simp]:
  "xh_env sample_exec_host = sample_exec_env" "en_failure sample_exec_env h e = None"
  "en_unreadable sample_exec_env h p = None" "w_files sample_files ''x.exe'' = Some [0x4D, 0x5A]"
  "w_history sample_files = []" "host_program_data sample_exec_host = ''C:'' @ [CHR 0x5C] @ ''ProgramData''"
  by (simp_all add: sample_exec_host_def sample_exec_env_def sample_files_def host_program_data_def)

lemma sample_perform [simp]:
  "perform sample_exec_env e w = (Inr (), record_effect e True (w\<lparr>w_files := applied e (w_files w)\<rparr>))"
  by (simp add: perform_def)

lemma sample_sha: "w_files w p = Some c \<Longrightarrow> sha256_at sample_exec_env p w = (Inr (hex_nibbles (fips_sha256 c)), w)"
  by (simp add: sha256_at_def seq_def lift_result_def read_file_def sha256_file_chunks takeWhile_pieces
      concat_pieces)

abbreviation "path_payload \<equiv> JObj [(''path'', JStr ''x.exe'')]"

lemma sample_payload [simp]:
  "get_nonempty ''path'' path_payload = Some ''x.exe''" "get_str ''path'' path_payload = Some ''x.exe''"
  "get_str ''sha256'' path_payload = None"
  by (simp_all add: get_nonempty_def get_str_def)


theorem scan_counts_the_tree_witness:
  "json_get ''files_seen'' (xr_result (fst (execute_scan_now sample_exec_host JNull sample_files))) = Some (JInt 2)"
proof -
  have "xr_status (fst (execute_scan_now sample_exec_host JNull sample_files)) = ''success''"
    by (simp add: execute_scan_now_def sample_exec_host_def outcome_of_def Let_def get_str_def case_prod_unfold)
  from scan_counts_the_tree [OF prod.collapse [symmetric] this] show ?thesis
    by (auto simp: sample_exec_host_def execute_scan_now_def get_str_def outcome_of_def Let_def case_prod_unfold MAX_FILES_def
        one_error_def one_file_def one_dir_def plus_walk_counts_def zero_walk_counts_def)
qed

theorem shell_reports_the_child_witness:
  "json_get ''exit_code'' (xr_result (fst (execute_run_shell sample_exec_host
     (JObj [(''command'', JStr ''dir'')]) sample_files))) = Some (JInt 0)"
proof -
  let ?p = "JObj [(''command'', JStr ''dir'')]"
  let ?e = "\<lparr>pe_code = Some 0, pe_success = True, pe_millis = Some 250, pe_stdout = [0x6F, 0x6B], pe_stderr = []\<rparr>"
  have shell: "get_nonempty ''command'' ?p = Some ''dir''"
      "xh_shell sample_exec_host (w_history sample_files) (get_str ''working_dir'' ?p) ''dir'' = Child ?e"
    by (simp_all add: get_nonempty_def get_str_def sample_exec_host_def)
  have "\<exists>t\<le>1000 * shell_timeout ?p. exits_at (xh_env sample_exec_host) ?e = Some t"
    by (simp add: exits_at_def sample_exec_env_def shell_timeout_def get_u64_def)
  with shell_reports_the_child [OF shell prod.collapse [symmetric]] show ?thesis by simp
qed


end
