(* ===== verification/Firewall.thy ===== *)
theory Firewall
  imports Executor
begin

text \<open>
  The isolation of the endpoint (\<open>execute_isolate\<close>, \<open>execute_unisolate\<close> and their helpers in
  \<open>src/src/control/executor.rs\<close>) and the dispatch of the commands (\<open>execute\<close>). The firewall is only ever
  touched by running \<open>netsh\<close>; what a run of it does to the files is the parameter \<open>xh_netsh_files\<close> of the
  host, and what its documentation says of it the predicate \<open>netsh_documented\<close>.
\<close>

section \<open>Running netsh\<close>

definition ISOLATE_RULE_PREFIX :: str where "ISOLATE_RULE_PREFIX = ''WazabiEDR-Isolate''"

definition isolation_backup_path :: "exec_host \<Rightarrow> str" where
  "isolation_backup_path xh =
     join_path (join_path (host_program_data xh) ''WazabiEDR'') ''firewall_pre_isolation.wfw''"

definition json_strs :: "str list \<Rightarrow> json" where "json_strs ss = JArr (map JStr ss)"

definition netsh_invoke :: "exec_host \<Rightarrow> str list \<Rightarrow> world \<Rightarrow> json \<times> world" where
  "netsh_invoke xh args w =
     (case run_program (xh_env xh) pe_success ''netsh'' args w of
        (Inr r, w') \<Rightarrow>
          (JObj [(''ok'', JBool (pe_success r)),
             (''exit_code'', (case pe_code r of None \<Rightarrow> JNull | Some c \<Rightarrow> JInt c)), (''args'', json_strs args),
             (''stdout'', JStr (trim (from_utf8_lossy (pe_stdout r)))),
             (''stderr'', JStr (trim (from_utf8_lossy (pe_stderr r))))],
           w'\<lparr>w_files := xh_netsh_files xh (w_history w) args (w_files w')\<rparr>)
      | (Inl e, w') \<Rightarrow>
          (JObj [(''ok'', JBool False), (''exit_code'', JNull), (''args'', json_strs args),
             (''error'', JStr (''spawn netsh failed: '' @ e))], w'))"

definition netsh_rule :: "str \<Rightarrow> str list \<Rightarrow> str list" where
  "netsh_rule rule_name opts = [''advfirewall'', ''firewall'', ''add'', ''rule'', ''name='' @ rule_name] @ opts"

definition run_netsh_add_allow :: "exec_host \<Rightarrow> str \<Rightarrow> str \<Rightarrow> str \<Rightarrow> world \<Rightarrow> json \<times> world" where
  "run_netsh_add_allow xh suff dir remote_ip_csv =
     netsh_invoke xh (netsh_rule (ISOLATE_RULE_PREFIX @ ''-'' @ suff)
       [''dir='' @ dir, ''action=allow'', ''enable=yes'', ''profile=any'', ''remoteip='' @ remote_ip_csv])"

text \<open>The standard library says whether a text is an address and how it prints it (\<open>xh_ip_text\<close>), and which
addresses a name has, each with whether it is an IPv4 address (\<open>xh_addresses\<close>).\<close>

definition resolve_host_to_ipv4 :: "exec_host \<Rightarrow> history \<Rightarrow> str \<Rightarrow> str option" where
  "resolve_host_to_ipv4 xh h host =
     (case xh_ip_text xh host of
        Some ip \<Rightarrow> Some ip
      | None \<Rightarrow>
          (case xh_addresses xh h (host @ '':0'') of
             None \<Rightarrow> None
           | Some addrs \<Rightarrow> map_option snd (List.find fst addrs)))"

text \<open>The list of actions grows by a marker of the phase and the report of each run.\<close>

type_synonym actions = "json list \<times> world"

definition marker :: "(str \<times> json) list \<Rightarrow> actions \<Rightarrow> actions" where
  "marker entries s = (fst s @ [JObj entries], snd s)"

definition phase :: "str \<Rightarrow> actions \<Rightarrow> actions" where "phase name = marker [(''step'', JStr name)]"

definition invoke :: "(world \<Rightarrow> json \<times> world) \<Rightarrow> actions \<Rightarrow> actions" where
  "invoke f s = (case f (snd s) of (j, w) \<Rightarrow> (fst s @ [j], w))"

definition all_ok :: "json list \<Rightarrow> bool" where
  "all_ok actions \<longleftrightarrow> (\<forall>a\<in>set actions. case get_bool ''ok'' a of Some b \<Rightarrow> b | None \<Rightarrow> True)"

section \<open>Isolation\<close>

definition allowed_hosts :: "json \<Rightarrow> str list" where
  "allowed_hosts payload =
     (case Option.bind (json_get ''allowed_hosts'' payload) as_array of
        None \<Rightarrow> []
      | Some a \<Rightarrow> filter (\<lambda>s. s \<noteq> []) (List.map_filter as_str a))"

definition back_up :: "exec_host \<Rightarrow> actions \<Rightarrow> actions" where
  "back_up xh s =
     (let p = isolation_backup_path xh in
      if w_files (snd s) p = None then
        (let s = (fst s, snd (perform (xh_env xh) (Make_dir (parent_dir p)) (snd s)));
             s = marker [(''step'', JStr ''backup''), (''path'', JStr p)] s
         in invoke (netsh_invoke xh [''advfirewall'', ''export'', p]) s)
      else marker [(''step'', JStr ''backup_skipped''),
             (''reason'', JStr ''backup already present from a previous isolate''), (''path'', JStr p)] s)"

definition block_all :: "exec_host \<Rightarrow> actions \<Rightarrow> actions" where
  "block_all xh s =
     (let s = phase ''reset'' s;
          s = invoke (netsh_invoke xh [''advfirewall'', ''reset'']) s;
          s = phase ''enable_firewall'' s;
          s = invoke (netsh_invoke xh [''advfirewall'', ''set'', ''allprofiles'', ''state'', ''on'']) s;
          s = phase ''set_policy_block_all'' s
      in invoke (netsh_invoke xh [''advfirewall'', ''set'', ''allprofiles'',
           ''firewallpolicy'', ''blockinbound,blockoutbound'']) s)"

definition dhcp_rule :: "str \<Rightarrow> str \<Rightarrow> str list" where
  "dhcp_rule suff dir =
     netsh_rule (ISOLATE_RULE_PREFIX @ suff)
       [dir, ''action=allow'', ''enable=yes'', ''profile=any'', ''protocol=udp'', ''localport=68,546'',
        ''remoteport=67,547'']"

fun join_csv :: "str list \<Rightarrow> str" where
  "join_csv [] = []"
| "join_csv [s] = s"
| "join_csv (s # ss) = s @ '','' @ join_csv ss"

definition allow_rules :: "exec_host \<Rightarrow> str list \<Rightarrow> actions \<Rightarrow> actions" where
  "allow_rules xh allowed_ips s =
     (let s = phase ''allow_loopback'' s;
          s = invoke (run_netsh_add_allow xh ''LoopOut'' ''out'' ''127.0.0.1,::1'') s;
          s = invoke (run_netsh_add_allow xh ''LoopIn'' ''in'' ''127.0.0.1,::1'') s;
          s = (if allowed_ips = [] then s
               else invoke (run_netsh_add_allow xh ''ServerIn'' ''in'' (join_csv allowed_ips))
                      (invoke (run_netsh_add_allow xh ''ServerOut'' ''out'' (join_csv allowed_ips)) s));
          s = phase ''allow_dhcp'' s;
          s = invoke (netsh_invoke xh (dhcp_rule ''-DHCP-Out'' ''dir=out'')) s
      in invoke (netsh_invoke xh (dhcp_rule ''-DHCP-In'' ''dir=in'')) s)"

definition execute_isolate :: "exec_host \<Rightarrow> json \<Rightarrow> executor" where
  "execute_isolate xh payload w =
     (let hosts = allowed_hosts payload;
          resolved = map (\<lambda>host. (host, resolve_host_to_ipv4 xh (w_history w) host)) hosts;
          allowed_ips = List.map_filter snd resolved;
          unresolved = map fst (filter (\<lambda>(host, ip). ip = None) resolved);
          (actions, w) = allow_rules xh allowed_ips (block_all xh (back_up xh ([], w)))
      in (outcome_of (if all_ok actions then ''success'' else ''failed'')
            [(''executed_at'', JStr (xh_now xh (w_history w))), (''action'', JStr ''isolate_endpoint''),
             (''allowed_hosts'', json_strs hosts), (''allowed_ips'', json_strs allowed_ips),
             (''unresolved_hosts'', json_strs unresolved),
             (''backup_path'', JStr (isolation_backup_path xh)), (''netsh_actions'', JArr actions),
             (''reason'', (case json_get ''reason'' payload of None \<Rightarrow> JNull | Some v \<Rightarrow> v))], w))"

definition restore :: "exec_host \<Rightarrow> actions \<Rightarrow> actions" where
  "restore xh s =
     (let p = isolation_backup_path xh;
          s = marker [(''step'', JStr ''import_backup''), (''path'', JStr p)] s;
          s = invoke (netsh_invoke xh [''advfirewall'', ''import'', p]) s
      in case perform (xh_env xh) (Delete_file p) (snd s) of
           (Inr _, w) \<Rightarrow> phase ''backup_removed'' (fst s, w)
         | (Inl e, w) \<Rightarrow>
             marker [(''step'', JStr ''backup_remove_failed''), (''error'', JStr e)] (fst s, w))"

definition fall_back :: "exec_host \<Rightarrow> actions \<Rightarrow> actions" where
  "fall_back xh s =
     (let s = marker [(''step'', JStr ''no_backup_fallback_reset''),
                (''note'', JStr (''no isolation backup found at {} '' @ em_dash @ '' performing a firewall reset''))] s;
          s = invoke (netsh_invoke xh [''advfirewall'', ''reset'']) s;
          s = invoke (netsh_invoke xh [''advfirewall'', ''set'', ''allprofiles'', ''state'', ''on'']) s
      in invoke (netsh_invoke xh [''advfirewall'', ''set'', ''allprofiles'',
           ''firewallpolicy'', ''blockinbound,allowoutbound'']) s)"

definition execute_unisolate :: "exec_host \<Rightarrow> executor" where
  "execute_unisolate xh w =
     (let (actions, w) =
        (if w_files w (isolation_backup_path xh) \<noteq> None then restore xh ([], w) else fall_back xh ([], w))
      in (outcome_of (if all_ok actions then ''success'' else ''completed'')
            [(''executed_at'', JStr (xh_now xh (w_history w))), (''action'', JStr ''unisolate_endpoint''),
             (''backup_path'', JStr (isolation_backup_path xh)), (''netsh_actions'', JArr actions)], w))"

section \<open>The dispatch\<close>

definition execute :: "exec_host \<Rightarrow> command \<Rightarrow> executor" where
  "execute xh cmd =
     (let t = co_type cmd; p = co_payload cmd in
      if t = ''kill_process'' then execute_kill_process xh p
      else if t = ''quarantine_file'' then execute_quarantine_file xh p
      else if t = ''scan_now'' then execute_scan_now xh p
      else if t = ''run_shell'' then execute_run_shell xh p
      else if t = ''isolate_endpoint'' then execute_isolate xh p
      else if t = ''unisolate_endpoint'' then execute_unisolate xh
      else if t = ''update_agent'' then execute_update_agent xh p
      else if t = ''update_rules'' then
        no_op_ack xh ''re-pull triggered by heartbeat loop (sees this pending cmd and forces sync::pull)'' p
      else if t = ''restart_module'' then
        no_op_ack xh (''no dynamic module loader '' @ em_dash @ '' restart_module is a stub'') p
      else (\<lambda>w. (outcome_of ''completed''
             [(''executed_at'', JStr (xh_now xh (w_history w))),
              (''note'', JStr ''acknowledged by agent (unknown command type)''), (''cmd_type'', JStr t)], w)))"

section \<open>What isolation runs\<close>

lemma netsh_invoke_report:
  "\<exists>j ok w'. netsh_invoke xh args w = (j, w') \<and> get_bool ''ok'' j = Some ok \<and>
     w_history w' = w_history w @ [(Run_program ''netsh'' args, ok)]"
  by (cases "en_program (xh_env xh) (w_history w) ''netsh'' args")
     (auto simp: netsh_invoke_def run_program_def get_bool_def)

fun is_run :: "effect \<Rightarrow> bool" where
  "is_run (Run_program prog args) = True"
| "is_run _ = False"

text \<open>\<open>ran es w s\<close>: since \<open>w\<close> the effects \<open>es\<close> were attempted, and the reports collected so far are all
positive if and only if every program among them succeeded.\<close>

definition ran :: "effect list \<Rightarrow> world \<Rightarrow> actions \<Rightarrow> bool" where
  "ran es w s \<longleftrightarrow>
     (\<exists>oks. length oks = length es \<and> w_history (snd s) = w_history w @ zip es oks \<and>
        (all_ok (fst s) \<longleftrightarrow> (\<forall>(e, ok)\<in>set (zip es oks). is_run e \<longrightarrow> ok)))"

lemma ran_start: "ran [] w ([], w)"
  by (simp add: ran_def all_ok_def)

lemma ran_marker: "ran es w s \<Longrightarrow> map_of entries ''ok'' = None \<Longrightarrow> ran es w (marker entries s)"
  by (auto simp: ran_def marker_def all_ok_def get_bool_def)

lemma ran_phase: "ran es w s \<Longrightarrow> ran es w (phase n s)"
  by (simp add: phase_def ran_marker)

lemma ran_append:
  assumes "ran es w s" and "w_history w' = w_history (snd s) @ [(e, ok)]"
    and "all_ok as \<longleftrightarrow> all_ok (fst s) \<and> (is_run e \<longrightarrow> ok)"
  shows "ran (es @ [e]) w (as, w')"
proof -
  obtain oks where oks: "length oks = length es" "w_history (snd s) = w_history w @ zip es oks"
      "all_ok (fst s) \<longleftrightarrow> (\<forall>(e, ok)\<in>set (zip es oks). is_run e \<longrightarrow> ok)"
    using assms(1) by (auto simp: ran_def)
  then show ?thesis
    unfolding ran_def using assms(2,3) by (intro exI [of _ "oks @ [ok]"]) auto
qed

lemma ran_invoke:
  assumes "ran es w s"
  shows "ran (es @ [Run_program ''netsh'' args]) w (invoke (netsh_invoke xh args) s)"
proof -
  obtain j ok w' where j: "netsh_invoke xh args (snd s) = (j, w')" "get_bool ''ok'' j = Some ok"
      "w_history w' = w_history (snd s) @ [(Run_program ''netsh'' args, ok)]"
    using netsh_invoke_report by blast
  have "ran (es @ [Run_program ''netsh'' args]) w (fst s @ [j], w')"
    by (rule ran_append [OF assms j(3)]) (auto simp: all_ok_def j(2))
  with j(1) show ?thesis by (simp add: invoke_def)
qed

lemma ran_make_dir:
  assumes "ran es w s"
  shows "ran (es @ [Make_dir d]) w (fst s, snd (perform env (Make_dir d) (snd s)))"
  by (rule ran_append [OF assms, where ok = "en_failure env (w_history (snd s)) (Make_dir d) = None"])
     (auto simp: perform_def split: option.splits)

definition netsh :: "str list \<Rightarrow> effect" where "netsh args = Run_program ''netsh'' args"

definition allow_script :: "str \<Rightarrow> str \<Rightarrow> str \<Rightarrow> effect" where
  "allow_script suff dir ips =
     netsh (netsh_rule (ISOLATE_RULE_PREFIX @ ''-'' @ suff)
       [''dir='' @ dir, ''action=allow'', ''enable=yes'', ''profile=any'', ''remoteip='' @ ips])"

definition isolate_script :: "exec_host \<Rightarrow> json \<Rightarrow> world \<Rightarrow> effect list" where
  "isolate_script xh payload w =
     (let p = isolation_backup_path xh;
          ips = List.map_filter (resolve_host_to_ipv4 xh (w_history w)) (allowed_hosts payload) in
      (if w_files w p = None then [Make_dir (parent_dir p), netsh [''advfirewall'', ''export'', p]] else []) @
      [netsh [''advfirewall'', ''reset''],
       netsh [''advfirewall'', ''set'', ''allprofiles'', ''state'', ''on''],
       netsh [''advfirewall'', ''set'', ''allprofiles'', ''firewallpolicy'', ''blockinbound,blockoutbound''],
       allow_script ''LoopOut'' ''out'' ''127.0.0.1,::1'', allow_script ''LoopIn'' ''in'' ''127.0.0.1,::1''] @
      (if ips = [] then []
       else [allow_script ''ServerOut'' ''out'' (join_csv ips), allow_script ''ServerIn'' ''in'' (join_csv ips)]) @
      [netsh (dhcp_rule ''-DHCP-Out'' ''dir=out''), netsh (dhcp_rule ''-DHCP-In'' ''dir=in'')])"

lemmas ran_netsh = ran_invoke [folded netsh_def]

lemma ran_allow:
  "ran es w s \<Longrightarrow> ran (es @ [allow_script suff dir ips]) w (invoke (run_netsh_add_allow xh suff dir ips) s)"
  unfolding run_netsh_add_allow_def allow_script_def by (rule ran_netsh)

lemma ran_back_up:
  "ran (if w_files w (isolation_backup_path xh) = None
      then [Make_dir (parent_dir (isolation_backup_path xh)),
            netsh [''advfirewall'', ''export'', isolation_backup_path xh]] else []) w (back_up xh ([], w))"
proof (cases "w_files w (isolation_backup_path xh) = None")
  case True
  let ?p = "isolation_backup_path xh"
  have "ran [Make_dir (parent_dir ?p)] w ([], snd (perform (xh_env xh) (Make_dir (parent_dir ?p)) w))"
    using ran_make_dir [OF ran_start [of w], of "parent_dir ?p" "xh_env xh"] by simp
  then have "ran [Make_dir (parent_dir ?p)] w (marker [(''step'', JStr ''backup''), (''path'', JStr ?p)]
      ([], snd (perform (xh_env xh) (Make_dir (parent_dir ?p)) w)))" by (rule ran_marker) simp
  from ran_netsh [OF this] True show ?thesis by (simp add: back_up_def Let_def)
next
  case False
  then show ?thesis by (auto simp: back_up_def intro!: ran_marker ran_start)
qed

lemma ran_block_all:
  "ran es w s \<Longrightarrow>
     ran (es @ [netsh [''advfirewall'', ''reset''],
       netsh [''advfirewall'', ''set'', ''allprofiles'', ''state'', ''on''],
       netsh [''advfirewall'', ''set'', ''allprofiles'', ''firewallpolicy'', ''blockinbound,blockoutbound'']])
     w (block_all xh s)"
  by (simp add: block_all_def Let_def ran_netsh [OF ran_phase [OF ran_netsh [OF ran_phase
      [OF ran_netsh [OF ran_phase]]]], simplified])

lemma ran_allow_rules:
  assumes "ran es w s"
  shows "ran (es @ [allow_script ''LoopOut'' ''out'' ''127.0.0.1,::1'', allow_script ''LoopIn'' ''in'' ''127.0.0.1,::1''] @
      (if ips = [] then []
       else [allow_script ''ServerOut'' ''out'' (join_csv ips), allow_script ''ServerIn'' ''in'' (join_csv ips)]) @
      [netsh (dhcp_rule ''-DHCP-Out'' ''dir=out''), netsh (dhcp_rule ''-DHCP-In'' ''dir=in'')])
     w (allow_rules xh ips s)"
proof -
  note loop = ran_allow [OF ran_allow [OF ran_phase [OF assms]]]
  note dhcp = ran_netsh [OF ran_netsh [OF ran_phase]]
  show ?thesis
  proof (cases "ips = []")
    case True
    then show ?thesis using dhcp [OF loop] by (simp add: allow_rules_def Let_def)
  next
    case False
    then show ?thesis using dhcp [OF ran_allow [OF ran_allow [OF loop]]] by (simp add: allow_rules_def Let_def)
  qed
qed

lemma isolate_runs:
  assumes "execute_isolate xh payload w = (r, w')"
  shows "\<exists>oks. length oks = length (isolate_script xh payload w) \<and>
    w_history w' = w_history w @ zip (isolate_script xh payload w) oks \<and>
    (xr_status r = ''success'' \<longleftrightarrow>
       (\<forall>(e, ok)\<in>set (zip (isolate_script xh payload w) oks). is_run e \<longrightarrow> ok))"
proof -
  let ?ips = "List.map_filter (resolve_host_to_ipv4 xh (w_history w)) (allowed_hosts payload)"
  have ips: "List.map_filter snd (map (\<lambda>host. (host, f host)) hosts) = List.map_filter f hosts" for f :: "str \<Rightarrow> str option" and hosts
    by (simp add: List.map_filter_def comp_def filter_map)
  obtain as wa where run: "allow_rules xh ?ips (block_all xh (back_up xh ([], w))) = (as, wa)" by fastforce
  have "ran (isolate_script xh payload w) w (as, wa)"
    using ran_allow_rules [OF ran_block_all [OF ran_back_up [of w xh]], of ?ips xh xh] run
    by (simp add: isolate_script_def Let_def)
  moreover have "w' = wa" "xr_status r = ''success'' \<longleftrightarrow> all_ok as"
    using assms run by (auto simp: execute_isolate_def ips outcome_of_def Let_def split: if_splits)
  ultimately show ?thesis by (auto simp: ran_def)
qed

text \<open>An isolation attempts exactly its script, in order and to the end whatever fails on the way: the
export of the firewall unless a backup exists, the reset, the policy that blocks both directions, and then
only the rules for loopback, the resolved hosts and DHCP; it reports success if and only if every one of
these runs succeeded.\<close>

theorem isolate_runs_its_script:
  assumes "execute_isolate xh payload w = (r, w')"
  shows "\<exists>oks. length oks = length (isolate_script xh payload w) \<and>
    w_history w' = w_history w @ zip (isolate_script xh payload w) oks \<and>
    (xr_status r = ''success'' \<longleftrightarrow>
       (\<forall>(e, ok)\<in>set (zip (isolate_script xh payload w) oks). is_run e \<longrightarrow> ok))"
  using isolate_runs [OF assms] .

section \<open>The backup\<close>

text \<open>What is documented of netsh: of the files it writes only the target of an export.\<close>

definition netsh_documented :: "exec_host \<Rightarrow> bool" where
  "netsh_documented xh \<longleftrightarrow>
     (\<forall>h args fs p. (\<forall>q. args = [''advfirewall'', ''export'', q] \<longrightarrow> p \<noteq> q) \<longrightarrow>
        xh_netsh_files xh h args fs p = fs p)"

lemma netsh_files:
  assumes "netsh_documented xh" and "args \<noteq> [''advfirewall'', ''export'', p]"
  shows "w_files (snd (invoke (netsh_invoke xh args) s)) p = w_files (snd s) p"
proof -
  have "xh_netsh_files xh h args fs p = fs p" for h fs
    using assms unfolding netsh_documented_def by blast
  then show ?thesis by (auto simp: invoke_def netsh_invoke_def run_program_def split: sum.splits)
qed

lemma marker_files [simp]:
  "w_files (snd (marker entries s)) = w_files (snd s)" "w_files (snd (phase n s)) = w_files (snd s)"
  by (simp_all add: marker_def phase_def)

lemma isolate_files:
  assumes "netsh_documented xh" and "w_files w (isolation_backup_path xh) \<noteq> None"
  shows "w_files (snd (execute_isolate xh payload w)) p = w_files w p"
proof -
  have "w_files (snd (allow_rules xh ips (block_all xh (back_up xh ([], w))))) p = w_files w p" for ips
    using assms(2)
    by (auto simp: allow_rules_def block_all_def back_up_def run_netsh_add_allow_def netsh_rule_def
        dhcp_rule_def Let_def netsh_files [OF assms(1)])
  then show ?thesis by (simp add: execute_isolate_def Let_def case_prod_unfold)
qed

text \<open>The backup of the firewall from before the first isolation is safe from later ones: once it exists,
any number of further isolations leaves its content as it is.\<close>

theorem isolations_keep_the_backup:
  assumes "netsh_documented xh" and "w_files w (isolation_backup_path xh) = Some b"
  shows "w_files (fold (\<lambda>payload w. snd (execute_isolate xh payload w)) payloads w) (isolation_backup_path xh) = Some b"
  using assms(2)
proof (induction payloads arbitrary: w)
  case (Cons payload payloads)
  then have "w_files (snd (execute_isolate xh payload w)) (isolation_backup_path xh) = Some b"
    using isolate_files [OF assms(1)] by simp
  from Cons.IH [OF this] show ?case by simp
qed simp

text \<open>C36. The end of an isolation gives the backup up before it knows that the import worked: with a backup
present and a removal that succeeds, the backup is gone and the command is never reported as failed, also
when the import failed; so a second attempt can only reset the firewall.\<close>

theorem unisolate_discards_the_backup:
  assumes "netsh_documented xh" and "w_files w (isolation_backup_path xh) \<noteq> None"
    and "\<And>h. en_failure (xh_env xh) h (Delete_file (isolation_backup_path xh)) = None"
    and "execute_unisolate xh w = (r, w')"
  shows "w_files w' (isolation_backup_path xh) = None \<and> xr_status r \<noteq> ''failed'' \<and>
    (\<exists>ok. w_history w' = w_history w @
       [(netsh [''advfirewall'', ''import'', isolation_backup_path xh], ok),
        (Delete_file (isolation_backup_path xh), True)] \<and>
       (xr_status r = ''success'' \<longleftrightarrow> ok))"
proof -
  let ?p = "isolation_backup_path xh"
  obtain j ok w1 where j: "netsh_invoke xh [''advfirewall'', ''import'', ?p] w = (j, w1)"
      "get_bool ''ok'' j = Some ok" "w_history w1 = w_history w @ [(netsh [''advfirewall'', ''import'', ?p], ok)]"
    using netsh_invoke_report unfolding netsh_def by blast
  with assms(2-4) show ?thesis
    by (auto simp: execute_unisolate_def restore_def marker_def phase_def invoke_def Let_def perform_def
        outcome_of_def all_ok_def get_bool_def split: if_splits)
qed

section \<open>Every command has a verdict\<close>

lemma execute_unisolate_status: "xr_status (fst (execute_unisolate xh w)) \<in> {''success'', ''completed''}"
  by (simp add: execute_unisolate_def case_prod_unfold Let_def outcome_of_def)

lemma execute_isolate_status: "xr_status (fst (execute_isolate xh p w)) \<in> {''success'', ''failed''}"
  by (simp add: execute_isolate_def case_prod_unfold Let_def outcome_of_def)


section \<open>Examples\<close>

definition isolated_world :: world where
  "isolated_world = \<lparr>w_files = [isolation_backup_path sample_exec_host \<mapsto> [1, 2, 3]], w_history = []\<rparr>"

lemma sample_netsh: "netsh_documented sample_exec_host"
  by (auto simp: netsh_documented_def sample_exec_host_def netsh_writes_def split: list.split)

theorem isolate_runs_its_script_witness:
  "\<exists>oks. length oks = length (isolate_script sample_exec_host JNull isolated_world) \<and>
     w_history (snd (execute_isolate sample_exec_host JNull isolated_world)) =
       w_history isolated_world @ zip (isolate_script sample_exec_host JNull isolated_world) oks"
  using isolate_runs_its_script [OF prod.collapse [symmetric], of sample_exec_host JNull isolated_world] by blast

theorem isolations_keep_the_backup_witness:
  "w_files (fold (\<lambda>payload w. snd (execute_isolate sample_exec_host payload w)) [JNull, JNull] isolated_world)
     (isolation_backup_path sample_exec_host) = Some [1, 2, 3]"
  by (rule isolations_keep_the_backup [OF sample_netsh]) (simp add: isolated_world_def)

theorem unisolate_discards_the_backup_witness:
  "w_files (snd (execute_unisolate sample_exec_host isolated_world)) (isolation_backup_path sample_exec_host) = None"
  using unisolate_discards_the_backup [OF sample_netsh _ _ prod.collapse [symmetric], of isolated_world]
  by (simp add: isolated_world_def sample_exec_host_def sample_exec_env_def)

end
