(* ===== verification/Assignment.thy ===== *)
theory Assignment
  imports Client Handshake
begin

text \<open>
  Plugins pushed by the server (\<open>src/src/plugin/assignment.rs\<close>): each pending action of a heartbeat
  installs, updates or revokes a plugin by downloading its files, checking their hash and calling the
  \<open>wedr-plugin\<close> tool. The tool, the server, the hash provider and the environment variables are the
  parameters gathered in \<open>agent\<close>. Error messages are their constant texts.
\<close>

record 'h agent =
  ag_env :: env
  ag_codec :: codec
  ag_creds :: server_creds
  ag_cng :: "'h cng"
  ag_var :: "str \<Rightarrow> str option"

definition PLUGIN_BIN_SUBDIR :: str where "PLUGIN_BIN_SUBDIR = ''WazabiEDR'' @ [CHR 0x5C] @ ''plugin_bin''"
definition PLUGINS_SUBDIR :: str where "PLUGINS_SUBDIR = ''WazabiEDR'' @ [CHR 0x5C] @ ''plugins''"
definition WEDR_PLUGIN_EXE_BASENAME :: str where "WEDR_PLUGIN_EXE_BASENAME = ''wedr-plugin.exe''"
definition WEDR_PLUGIN_TIMEOUT :: millis where "WEDR_PLUGIN_TIMEOUT = 60000"

definition program_data :: "'h agent \<Rightarrow> str" where
  "program_data ag =
     (case ag_var ag ''ProgramData'' of Some d \<Rightarrow> d | None \<Rightarrow> ''C:'' @ [CHR 0x5C] @ ''ProgramData'')"

section \<open>Checks\<close>

definition validate_segment :: "str \<Rightarrow> str \<Rightarrow> str + unit" where
  "validate_segment s label =
     (if s = [] then Inl (label @ '' vide'')
      else if list_ex (\<lambda>c. c \<in> set (''/:<>|?*'' @ [CHR 0x5C, CHR 0x22])) s \<or> contains_sub s ''..''
      then Inl (label @ '' contient un caractere interdit'')
      else Inr ())"

definition validate_filename :: "str \<Rightarrow> str + unit" where
  "validate_filename name =
     (if name = [] then Inl ''filename vide''
      else if file_name name \<noteq> Some name then Inl ''filename non-plat''
      else if starts_with name ''.'' then Inl ''filename commence par un point''
      else Inr ())"

definition plugin_dir :: "'h agent \<Rightarrow> plugin_info \<Rightarrow> str + str" where
  "plugin_dir ag info =
     (case validate_segment (pi_name info) ''plugin.name'' of
        Inl e \<Rightarrow> Inl e
      | Inr _ \<Rightarrow>
          (case validate_segment (pi_version info) ''plugin.version'' of
             Inl e \<Rightarrow> Inl e
           | Inr _ \<Rightarrow>
               Inr (join_path (join_path (join_path (program_data ag) PLUGIN_BIN_SUBDIR) (pi_name info))
                      (pi_version info))))"

text \<open>\<open>sha256_file_hex\<close> of this file: the hash object is created before the file is opened, and the
content is fed in pieces of 64 KiB.\<close>

definition hash_content :: "'h cng \<Rightarrow> 'h \<Rightarrow> bytes \<Rightarrow> str + str" where
  "hash_content g h content =
     (case hash_reads g (map Inr (pieces 65536 content)) h of
        Inl e \<Rightarrow> Inl e
      | Inr h \<Rightarrow>
          (case cng_finish g h of
             Inl status \<Rightarrow> Inl (''BCryptFinishHash failed: 0x'' @ hex (unat status))
           | Inr digest \<Rightarrow> Inr (hex_string digest)))"

definition sha256_path :: "env \<Rightarrow> 'h cng \<Rightarrow> str \<Rightarrow> (world, str) act" where
  "sha256_path env g path =
     (case cng_open_algorithm g of
        Some status \<Rightarrow> throw (''BCryptOpenAlgorithmProvider failed: 0x'' @ hex (unat status))
      | None \<Rightarrow>
          (case cng_create g of
             Inl status \<Rightarrow> throw (''BCryptCreateHash failed: 0x'' @ hex (unat status))
           | Inr h \<Rightarrow>
               seq (blame ''open: '' (read_file env path)) (\<lambda>content.
               lift_result (hash_content g h content))))"

definition verify_sha :: "env \<Rightarrow> 'h cng \<Rightarrow> str \<Rightarrow> str \<Rightarrow> (world, unit) act" where
  "verify_sha env g path expected_hex =
     (if expected_hex = [] then give ()
      else seq (sha256_path env g path) (\<lambda>actual.
        if \<not> eq_ignore_ascii_case actual expected_hex
        then seq (attempt (perform env (Delete_file path))) (\<lambda>_. throw ''SHA-256 mismatch'')
        else give ()))"

section \<open>Downloads\<close>

definition partial_name :: "str \<Rightarrow> str" where "partial_name filename = ''.'' @ filename @ ''.partial''"

definition fetch :: "'h agent \<Rightarrow> str \<Rightarrow> str \<Rightarrow> str \<Rightarrow> bool \<Rightarrow> (world, str) act" where
  "fetch ag pkg filename partial_path is_primary =
     (if is_primary
      then blame ''GET /binary: '' (download_plugin_binary (ag_env ag) (ag_creds ag) pkg partial_path)
      else blame ''GET /files: '' (download_plugin_extra (ag_env ag) (ag_creds ag) pkg filename partial_path))"

text \<open>Put the checked file in place of the old one.\<close>

definition install_file :: "env \<Rightarrow> str \<Rightarrow> str \<Rightarrow> (world, str) act" where
  "install_file env partial_path final_path =
     seq (file_exists final_path) (\<lambda>there.
     seq (if there then blame ''remove existing: '' (perform env (Delete_file final_path)) else give ()) (\<lambda>_.
     seq (attempt (perform env (Move_file partial_path final_path))) (\<lambda>r.
     case r of
       Inl e \<Rightarrow> seq (attempt (perform env (Delete_file partial_path))) (\<lambda>_. throw (''rename: '' @ e))
     | Inr _ \<Rightarrow> give final_path)))"

definition download_and_verify :: "'h agent \<Rightarrow> str \<Rightarrow> str \<Rightarrow> str \<Rightarrow> bool \<Rightarrow> (world, str) act" where
  "download_and_verify ag pkg dir filename is_primary =
     seq (lift_result (validate_filename filename)) (\<lambda>_.
     let final_path = join_path dir filename; partial_path = join_path dir (partial_name filename) in
     seq (fetch ag pkg filename partial_path is_primary) (\<lambda>expected_sha.
     seq (verify_sha (ag_env ag) (ag_cng ag) partial_path expected_sha) (\<lambda>_.
     install_file (ag_env ag) partial_path final_path)))"

section \<open>The tool\<close>

definition resolve_wedr_plugin_exe :: "'h agent \<Rightarrow> (world, str) act" where
  "resolve_wedr_plugin_exe ag w =
     (case ag_var ag ''WEDR_PLUGIN_EXE'' of
        Some p \<Rightarrow>
          (if w_files w p \<noteq> None then Inr p
           else Inl ''WEDR_PLUGIN_EXE pointe sur un fichier inexistant'', w)
      | None \<Rightarrow>
          (case ag_var ag ''ProgramFiles'' of
             Some pf \<Rightarrow>
               (let path = join_path (join_path pf ''WazabiEDR'') WEDR_PLUGIN_EXE_BASENAME in
                (Inr (if w_files w path \<noteq> None then path else WEDR_PLUGIN_EXE_BASENAME), w))
           | None \<Rightarrow> (Inr WEDR_PLUGIN_EXE_BASENAME, w)))"

definition in_time :: "env \<Rightarrow> program_end \<Rightarrow> bool" where
  "in_time env r = fst (poll_exit WEDR_PLUGIN_TIMEOUT 49 (exits_at env r) 0)"

definition invoke_wedr_plugin :: "'h agent \<Rightarrow> str list \<Rightarrow> (world, str) act" where
  "invoke_wedr_plugin ag args =
     seq (resolve_wedr_plugin_exe ag) (\<lambda>exe.
     seq (blame ''spawn: '' (run_program (ag_env ag) (\<lambda>r. in_time (ag_env ag) r \<and> pe_success r) exe args))
       (\<lambda>r.
        if \<not> in_time (ag_env ag) r then throw ''wedr-plugin timeout''
        else if \<not> pe_success r then throw (''exit stderr='' @ trim (from_utf8_lossy (pe_stderr r)))
        else give (from_utf8_lossy (pe_stdout r))))"

fun plugin_id_of :: "str list \<Rightarrow> str option" where
  "plugin_id_of [] = None"
| "plugin_id_of (line # ls) =
     (case Option.bind (strip_start ''plugin_id'' (trim line)) (split_once (CHR '':'')) of
        Some (_, i) \<Rightarrow> if trim i \<noteq> [] then Some (trim i) else plugin_id_of ls
      | None \<Rightarrow> plugin_id_of ls)"

definition enroll_args :: "str \<Rightarrow> plugin_info \<Rightarrow> str list" where
  "enroll_args bin_path info =
     [''enroll'', bin_path, ''--name'', pi_name info, ''--vendor'', pi_vendor info, ''--allow-unsigned''] @
     (if pi_auto_launch info then [''--auto-launch''] else []) @
     concat (map (\<lambda>(k, v). [''--env'', k @ ''='' @ v]) (pi_env info))"

definition invoke_enroll :: "'h agent \<Rightarrow> str \<Rightarrow> plugin_info \<Rightarrow> (world, str) act" where
  "invoke_enroll ag bin_path info =
     seq (blame ''wedr-plugin enroll: '' (invoke_wedr_plugin ag (enroll_args bin_path info))) (\<lambda>stdout.
     case plugin_id_of (str_lines stdout) of
       Some i \<Rightarrow> give i
     | None \<Rightarrow> throw ''wedr-plugin enroll succeeded but plugin_id introuvable dans stdout'')"

definition kill_running_plugin_processes :: "env \<Rightarrow> str \<Rightarrow> (world, unit) act" where
  "kill_running_plugin_processes env name =
     seq (attempt (run_program env pe_success ''taskkill.exe'' [''/F'', ''/IM'', name])) (\<lambda>_. give ())"

section \<open>The three actions\<close>

definition report ::
    "'h agent \<Rightarrow> str \<Rightarrow> str \<Rightarrow> str \<Rightarrow> str option \<Rightarrow> str option \<Rightarrow> (world, unit) act" where
  "report ag pkg phase version id_local err =
     report_plugin_status (ag_env ag) (ag_codec ag) (ag_creds ag) pkg
       \<lparr>sr_phase = phase, sr_version = version, sr_id_local = id_local, sr_error = err\<rparr>"

definition plugin_info_for :: "'h agent \<Rightarrow> str \<Rightarrow> (world, plugin_info) act" where
  "plugin_info_for ag pkg =
     seq (blame ''GET /info: '' (get_plugin_info (ag_env ag) (ag_codec ag) (ag_creds ag) pkg)) (\<lambda>found.
     case found of None \<Rightarrow> throw ''GET /info: 404'' | Some info \<Rightarrow> give info)"

text \<open>The downloads both install and update start with: the binary, then the extras.\<close>

definition download_all :: "'h agent \<Rightarrow> str \<Rightarrow> plugin_info \<Rightarrow> (world, str) act" where
  "download_all ag pkg info =
     seq (lift_result (plugin_dir ag info)) (\<lambda>dir.
     seq (download_and_verify ag pkg dir (pi_artifact info) True) (\<lambda>bin_path.
     seq (each (\<lambda>extra. download_and_verify ag pkg dir extra False) (pi_extras info)) (\<lambda>_.
     give bin_path)))"

definition handle_install :: "'h agent \<Rightarrow> plugin_action \<Rightarrow> (world, unit) act" where
  "handle_install ag a =
     (let pkg = pa_package_id a in
      seq (report ag pkg ''installing'' (pa_version a) None None) (\<lambda>_.
      seq (plugin_info_for ag pkg) (\<lambda>info.
      seq (download_all ag pkg info) (\<lambda>bin_path.
      seq (report ag pkg ''installed'' (pi_version info) None None) (\<lambda>_.
      seq (invoke_enroll ag bin_path info) (\<lambda>plugin_id.
      report ag pkg ''started'' (pi_version info) (Some plugin_id) None))))))"

definition handle_update :: "'h agent \<Rightarrow> plugin_action \<Rightarrow> (world, unit) act" where
  "handle_update ag a =
     (let pkg = pa_package_id a in
      case pa_id_local a of
        None \<Rightarrow> throw ''update sans plugin_id_local''
      | Some plugin_id \<Rightarrow>
          seq (report ag pkg ''installing'' (pa_version a) (Some plugin_id) None) (\<lambda>_.
          seq (plugin_info_for ag pkg) (\<lambda>info.
          seq (download_all ag pkg info) (\<lambda>bin_path.
          seq (blame ''wedr-plugin update: ''
                 (invoke_wedr_plugin ag [''update'', plugin_id, bin_path])) (\<lambda>_.
          seq (kill_running_plugin_processes (ag_env ag) (pi_artifact info)) (\<lambda>_.
          report ag pkg ''started'' (pi_version info) (Some plugin_id) None))))))"

definition read_manifest_expected_path :: "'h agent \<Rightarrow> str \<Rightarrow> (world, str) act" where
  "read_manifest_expected_path ag plugin_id =
     (let path = join_path (join_path (program_data ag) PLUGINS_SUBDIR) (plugin_id @ ''.json'') in
      seq (read_file (ag_env ag) path) (\<lambda>b.
      case from_utf8 b of
        None \<Rightarrow> throw ''read manifest: not utf-8''
      | Some t \<Rightarrow>
          seq (lift_result (cd_read (ag_codec ag) t)) (\<lambda>v.
          case get_str ''expected_path'' v of
            None \<Rightarrow> throw ''manifest sans expected_path''
          | Some p \<Rightarrow> give p)))"

definition handle_revoke :: "'h agent \<Rightarrow> plugin_action \<Rightarrow> (world, unit) act" where
  "handle_revoke ag a =
     (case pa_id_local a of
        None \<Rightarrow> throw ''revoke sans plugin_id_local''
      | Some plugin_id \<Rightarrow>
          seq (attempt (read_manifest_expected_path ag plugin_id)) (\<lambda>bin_path.
          seq (blame ''wedr-plugin revoke: '' (invoke_wedr_plugin ag [''revoke'', plugin_id])) (\<lambda>_.
          seq (blame ''wedr-plugin remove: '' (invoke_wedr_plugin ag [''remove'', plugin_id])) (\<lambda>_.
          seq (case bin_path of
                 Inl _ \<Rightarrow> give ()
               | Inr p \<Rightarrow>
                   if parent_dir p = [] then give ()
                   else seq (attempt (perform (ag_env ag) (Delete_tree (parent_dir p)))) (\<lambda>_. give ())) (\<lambda>_.
          report ag (pa_package_id a) ''revoked'' (pa_version a) (Some plugin_id) None)))))"

section \<open>The batch of a heartbeat\<close>

text \<open>Packages already being processed are skipped: \<open>set.insert\<close> in the filter.\<close>

fun claim_packages :: "plugin_action list \<Rightarrow> str set \<Rightarrow> plugin_action list \<times> str set" where
  "claim_packages [] held = ([], held)"
| "claim_packages (a # as) held =
     (if pa_package_id a \<in> held then claim_packages as held
      else let (got, held) = claim_packages as (insert (pa_package_id a) held) in (a # got, held))"

definition process_action :: "'h agent \<Rightarrow> plugin_action \<Rightarrow> world \<Rightarrow> world" where
  "process_action ag a w =
     (let handler = (if pa_action a = ''install'' then Some (handle_install ag a)
                     else if pa_action a = ''update'' then Some (handle_update ag a)
                     else if pa_action a = ''revoke'' then Some (handle_revoke ag a)
                     else None) in
      case handler of
        None \<Rightarrow> w
      | Some h \<Rightarrow>
          (case h w of
             (Inr _, w) \<Rightarrow> w
           | (Inl e, w) \<Rightarrow>
               snd (report ag (pa_package_id a) ''failed_install'' (pa_version a) None (Some e) w)))"

definition release_packages :: "plugin_action list \<Rightarrow> str set \<Rightarrow> str set" where
  "release_packages as held = held - pa_package_id ` set as"

definition process_pending_plugins ::
    "'h agent \<Rightarrow> plugin_action list \<Rightarrow> str set \<times> world \<Rightarrow> str set \<times> world" where
  "process_pending_plugins ag actions st =
     (case st of (in_flight, w) \<Rightarrow>
        if actions = [] then st
        else case claim_packages actions in_flight of (to_process, held) \<Rightarrow>
          if to_process = [] then (held, w)
          else (release_packages to_process held, fold (process_action ag) to_process w))"

section \<open>Hashes\<close>

lemma pieces_bytes: "0 < n \<Longrightarrow> file_bytes (map Inr (pieces n bs)) = bs"
proof (induction n bs rule: pieces.induct)
  case (1 n bs)
  then show ?case by (subst pieces.simps) auto
qed

lemma sha256_path_correct:
  assumes "hashes_fed g sha fed" and "sha256_path env g p w = (Inr s, w')"
  shows "w' = w \<and> (\<exists>c. w_files w p = Some c \<and> s = hex_string (sha c))"
proof -
  obtain h c where h: "cng_create g = Inr h" "w' = w" "w_files w p = Some c" "hash_content g h c = Inr s"
    using assms(2)
    by (auto simp: sha256_path_def success_simps read_file_def split: option.splits sum.splits)
  then obtain h1 where h1: "hash_reads g (map Inr (pieces 65536 c)) h = Inr h1"
      "s = hex_string (sha (fed h1))"
    using assms(1) by (auto simp: hash_content_def hashes_fed_def split: sum.splits)
  have "fed h1 = fed h @ c" using hash_reads_fed [OF assms(1) h1(1)] by (simp add: pieces_bytes)
  moreover have "fed h = []" using assms(1) h(1) by (simp add: hashes_fed_def)
  ultimately show ?thesis using h h1 by simp
qed

lemma sha256_path_keeps [keeping]: "keeps I (sha256_path env g p)"
  by (auto simp: sha256_path_def intro!: keeping split: option.split sum.split)

lemma verify_sha_frame [keeping]: "S p \<Longrightarrow> keeps (frame S fs) (verify_sha env g p h)"
  by (auto simp: verify_sha_def intro!: keeping)

text \<open>A verified file is unchanged and has the expected hash, if one was given.\<close>

lemma verify_sha_correct:
  assumes "hashes_fed g sha fed" and "verify_sha env g p h w = (Inr u, w')"
  shows "w_files w' = w_files w \<and>
    (h \<noteq> [] \<longrightarrow> (\<exists>c. w_files w p = Some c \<and> eq_ignore_ascii_case (hex_string (sha c)) h))"
  using assms(2) sha256_path_correct [OF assms(1)]
  by (fastforce simp: verify_sha_def success_simps split: if_splits)

section \<open>Downloads\<close>

lemma join_path_inject [simp]: "join_path dir a = join_path dir b \<longleftrightarrow> a = b"
  by (simp add: join_path_def)

lemma partial_other [simp]: "partial_name f \<noteq> f" "f \<noteq> partial_name f"
proof -
  have "length (partial_name f) \<noteq> length f" by (simp add: partial_name_def)
  then show "partial_name f \<noteq> f" "f \<noteq> partial_name f" by metis+
qed

definition fetch_url :: "'h agent \<Rightarrow> str \<Rightarrow> str \<Rightarrow> bool \<Rightarrow> str" where
  "fetch_url ag pkg f is_primary =
     url (ag_creds ag) (''/api/v1/plugins/'' @ pkg @ (if is_primary then ''/binary'' else ''/files/'' @ f))"

lemma fetch_download:
  "fetch ag pkg f pp prim w = (Inr h, w') \<Longrightarrow>
     download_to (ag_env ag) (ag_creds ag) (fetch_url ag pkg f prim) pp w = (Inr h, w')"
  by (auto simp: fetch_def fetch_url_def download_plugin_binary_def download_plugin_extra_def success_simps
      split: if_splits)

lemma fetch_frame [keeping]: "S pp \<Longrightarrow> keeps (frame S fs) (fetch ag pkg f pp prim)"
  by (auto simp: fetch_def download_plugin_binary_def download_plugin_extra_def intro!: keeping)

lemma install_file_frame [keeping]:
  "S pp \<Longrightarrow> S fp \<Longrightarrow> keeps (frame S fs) (install_file env pp fp)"
  by (auto simp: install_file_def intro!: keeping split: sum.split)

lemma perform_failed:
  "perform env e w = (Inl m, w') \<Longrightarrow> \<forall>p. \<not> torn e p \<longrightarrow> w_files w' p = w_files w p"
  by (auto simp: perform_def split: option.splits)

text \<open>The last step either installs the checked bytes, or leaves the old file or none.\<close>

lemma install_file_final:
  assumes "install_file env pp fp w = (r, w')" and "pp \<noteq> fp" and "w_files w pp = Some c"
  shows "case r of Inr q \<Rightarrow> q = fp \<and> w_files w' fp = Some c
    | Inl e \<Rightarrow> w_files w' fp = w_files w fp \<or> w_files w' fp = None"
proof -
  define rm where "rm = (if w_files w fp \<noteq> None then blame ''remove existing: '' (perform env (Delete_file fp))
    else give ())"
  define mv where "mv = seq (attempt (perform env (Move_file pp fp))) (\<lambda>r. case r of
       Inl e \<Rightarrow> seq (attempt (perform env (Delete_file pp))) (\<lambda>_. throw (''rename: '' @ e))
     | Inr _ \<Rightarrow> give fp)"
  have run: "install_file env pp fp w = seq rm (\<lambda>_. mv) w"
    unfolding install_file_def rm_def mv_def
    by (simp only: seq_def [of "file_exists fp"] file_exists_def prod.case sum.case)
  obtain r1 w1 where rm: "rm w = (r1, w1)" by fastforce
  have rm_files: "w_files w1 pp = Some c \<and> (w_files w1 fp = w_files w fp \<or> w_files w1 fp = None)"
    using rm assms(2,3) unfolding rm_def
    by (auto simp: blame_def give_def perform_def split: if_splits option.splits)
  show ?thesis
  proof (cases r1)
    case (Inl e)
    with rm run assms(1) rm_files show ?thesis by (auto simp: seq_def)
  next
    case (Inr u)
    with rm run assms(1) have "mv w1 = (r, w')" by (simp add: seq_def)
    with rm_files assms(2) show ?thesis
      unfolding mv_def
      by (auto simp: seq_def attempt_def throw_def give_def perform_def split: option.splits sum.splits)
  qed
qed

text \<open>A download ends before the target is touched, or its partial file is received, verified and installed.\<close>

lemma download_stages:
  assumes "download_and_verify ag pkg dir f primary w = (r, w')"
  obtains (early) e where "r = Inl e" and "w_files w' (join_path dir f) = w_files w (join_path dir f)"
    | (late) h w1 w2 where "fetch ag pkg f (join_path dir (partial_name f)) primary w = (Inr h, w1)"
        and "verify_sha (ag_env ag) (ag_cng ag) (join_path dir (partial_name f)) h w1 = (Inr (), w2)"
        and "install_file (ag_env ag) (join_path dir (partial_name f)) (join_path dir f) w2 = (r, w')"
        and "w_files w2 (join_path dir f) = w_files w (join_path dir f)"
proof (cases "validate_filename f")
  case (Inl e)
  with assms early show thesis by (auto simp: download_and_verify_def seq_def lift_result_def)
next
  case valid: (Inr u)
  let ?fp = "join_path dir f" and ?pp = "join_path dir (partial_name f)"
  let ?fetch = "fetch ag pkg f ?pp primary" and ?verify = "verify_sha (ag_env ag) (ag_cng ag) ?pp"
  have outside: "w_files (snd (m w1)) ?fp = w_files w1 ?fp" if "keeps (frame (\<lambda>p. p = ?pp) (w_files w1)) m"
    for m :: "(world, 'x) act" and w1
    using that by (auto simp: keeps_iff frame_def)
  obtain r1 w1 where fetch: "?fetch w = (r1, w1)" by fastforce
  have fp1: "w_files w1 ?fp = w_files w ?fp" using outside [of w ?fetch] fetch by (simp add: keeping)
  show thesis
  proof (cases r1)
    case (Inl e)
    with valid fetch fp1 assms early show thesis
      by (auto simp: download_and_verify_def seq_def lift_result_def Let_def)
  next
    case h: (Inr h)
    obtain r2 w2 where verify: "?verify h w1 = (r2, w2)" by fastforce
    have fp2: "w_files w2 ?fp = w_files w ?fp"
      using outside [of w1 "?verify h"] verify fp1 by (simp add: keeping)
    show thesis
    proof (cases r2)
      case (Inl e)
      with valid h fetch fp2 verify assms early show thesis
        by (auto simp: download_and_verify_def seq_def lift_result_def Let_def)
    next
      case (Inr u)
      with valid h fetch verify fp2 assms show thesis
        by (intro late [of h w1 w2]) (simp_all add: download_and_verify_def seq_def lift_result_def Let_def)
    qed
  qed
qed


section \<open>Confinement\<close>

definition plugin_root :: "'h agent \<Rightarrow> str" where
  "plugin_root ag = join_path (program_data ag) PLUGIN_BIN_SUBDIR"

text \<open>A directory name of the layout, and a file name in it.\<close>

definition plain_segment :: "str \<Rightarrow> bool" where
  "plain_segment n \<longleftrightarrow> n \<noteq> [] \<and> (\<forall>c\<in>set n. \<not> is_separator c) \<and> \<not> contains_sub n ''..''"

definition flat_file :: "str \<Rightarrow> bool" where
  "flat_file f \<longleftrightarrow> f \<noteq> [] \<and> (\<forall>c\<in>set f. \<not> is_separator c) \<and> f \<noteq> ''.'' \<and> f \<noteq> ''..''"

definition plugin_file :: "'h agent \<Rightarrow> str \<Rightarrow> bool" where
  "plugin_file ag p \<longleftrightarrow>
     (\<exists>n v f. plain_segment n \<and> plain_segment v \<and> flat_file f \<and>
        p = join_path (join_path (join_path (plugin_root ag) n) v) f)"

lemma validate_segment_plain: "validate_segment s l = Inr u \<Longrightarrow> plain_segment s"
  by (auto simp: validate_segment_def plain_segment_def list_ex_iff is_separator_def split: if_splits)

lemma validate_filename_flat:
  "validate_filename f = Inr u \<Longrightarrow> flat_file f \<and> flat_file (partial_name f)"
  using file_name_self [of f]
  by (auto simp: validate_filename_def flat_file_def partial_name_def is_separator_def split: if_splits)

lemma plugin_dir_file:
  "plugin_dir ag info = Inr dir \<Longrightarrow> flat_file f \<Longrightarrow> plugin_file ag (join_path dir f)"
  unfolding plugin_file_def plugin_root_def
  by (auto simp: plugin_dir_def split: sum.splits dest!: validate_segment_plain)

lemma download_and_verify_frame:
  assumes "\<And>f. flat_file f \<Longrightarrow> S (join_path dir f)"
  shows "keeps (frame S fs) (download_and_verify ag pkg dir f primary)"
  unfolding download_and_verify_def Let_def
proof (rule keeps_seq_value)
  fix u w w' assume "lift_result (validate_filename f) w = (Inr u, w')"
  then have "validate_filename f = Inr u" by (simp add: lift_Inr)
  with validate_filename_flat have "flat_file f \<and> flat_file (partial_name f)" by blast
  with assms show "keeps (frame S fs) (seq (fetch ag pkg f (join_path dir (partial_name f)) primary)
      (\<lambda>h. seq (verify_sha (ag_env ag) (ag_cng ag) (join_path dir (partial_name f)) h)
        (\<lambda>_. install_file (ag_env ag) (join_path dir (partial_name f)) (join_path dir f))))"
    by (intro keeping) simp_all
qed (rule keeps_lift)

lemma download_all_frame: "keeps (frame (plugin_file ag) fs) (download_all ag pkg info)"
  unfolding download_all_def
proof (rule keeps_seq_value)
  fix dir w w' assume "lift_result (plugin_dir ag info) w = (Inr dir, w')"
  then have "plugin_dir ag info = Inr dir" by (simp add: lift_Inr)
  then show "keeps (frame (plugin_file ag) fs)
      (seq (download_and_verify ag pkg dir (pi_artifact info) True)
        (\<lambda>bin_path. seq (each (\<lambda>extra. download_and_verify ag pkg dir extra False) (pi_extras info))
          (\<lambda>_. give bin_path)))"
    by (intro keeping download_and_verify_frame plugin_dir_file)
qed (rule keeps_lift)

lemma report_frame [keeping]: "keeps (frame S fs) (report ag pkg phase v i e)"
  unfolding report_def report_plugin_status_def by (intro keeping)

lemma plugin_info_for_frame [keeping]: "keeps (frame S fs) (plugin_info_for ag pkg)"
proof -
  have "keeps (frame S fs) (get_plugin_info (ag_env ag) (ag_codec ag) (ag_creds ag) pkg)"
    unfolding get_plugin_info_def by (rule optional_get_keeps) (simp add: frame_def)
  then show ?thesis
    unfolding plugin_info_for_def by (auto intro!: keeping split: option.split)
qed

lemma resolve_exe_keeps [keeping]: "keeps I (resolve_wedr_plugin_exe ag)"
  by (auto simp: keeps_iff resolve_wedr_plugin_exe_def Let_def split: option.splits)

lemma invoke_frame [keeping]: "keeps (frame S fs) (invoke_wedr_plugin ag args)"
  unfolding invoke_wedr_plugin_def by (intro keeping)

lemma invoke_enroll_frame [keeping]: "keeps (frame S fs) (invoke_enroll ag b info)"
  unfolding invoke_enroll_def by (auto intro!: keeping split: option.split)

lemma kill_frame [keeping]: "keeps (frame S fs) (kill_running_plugin_processes env name)"
  unfolding kill_running_plugin_processes_def by (intro keeping)

text \<open>C32. A server cannot write outside the plugin directory: whatever names, versions and file names an
install or an update is given, and whatever fails on the way, the only files that the agent itself
changes (what \<open>wedr-plugin\<close> writes is its own affair) are of the form \<open>plugin_bin/<name>/<version>/<file>\<close>, where name and version have no separator and no
\<open>..\<close>, and the file is a flat name.\<close>

theorem plugin_files_confined:
  assumes "w_files (snd (handle_install ag a w)) p \<noteq> w_files w p \<or>
    w_files (snd (handle_update ag a w)) p \<noteq> w_files w p"
  shows "\<exists>n v f. plain_segment n \<and> plain_segment v \<and> flat_file f \<and>
    p = join_path (join_path (join_path (plugin_root ag) n) v) f"
proof -
  have "keeps (frame (plugin_file ag) (w_files w)) (handle_install ag a)"
    unfolding handle_install_def Let_def by (intro keeping download_all_frame)
  moreover have "keeps (frame (plugin_file ag) (w_files w)) (handle_update ag a)"
    unfolding handle_update_def Let_def by (auto intro!: keeping download_all_frame split: option.split)
  ultimately have "plugin_file ag p"
    using assms by (auto simp: keeps_iff frame_def)
  then show ?thesis by (simp add: plugin_file_def)
qed

section \<open>Order of an installation\<close>

lemma report_done:
  "report ag pkg phase v i e w = (Inr u, w') \<Longrightarrow>
     \<exists>b. cd_write (ag_codec ag) (status_report_json
           \<lparr>sr_phase = phase, sr_version = v, sr_id_local = i, sr_error = e\<rparr>) = Inr b \<and>
       w_history w' = w_history w @ [(Request (post_call (ag_creds ag) (status_url (ag_creds ag) pkg) b), True)]"
  by (auto simp: report_def report_plugin_status_def success_simps dest!: call_reply)

lemma plugin_info_done:
  "plugin_info_for ag pkg w = (Inr info, w') \<Longrightarrow>
     w_history w' = w_history w @
       [(Request (get_call (ag_creds ag) (url (ag_creds ag) (''/api/v1/plugins/'' @ pkg @ ''/info''))), True)]"
  by (auto simp: plugin_info_for_def get_plugin_info_def optional_get_def exchange_def success_simps seq_def
      blame_def lift_result_def give_def throw_def split: prod.splits sum.splits if_splits option.splits)

lemma invoke_done:
  assumes "invoke_wedr_plugin ag args w = (Inr out, w')"
  shows "\<exists>exe r. w_history w' = w_history w @ [(Run_program exe args, True)] \<and>
    en_program (ag_env ag) (w_history w) exe args = Inr r \<and> pe_success r \<and>
    out = from_utf8_lossy (pe_stdout r)"
proof -
  obtain exe w1 where exe: "resolve_wedr_plugin_exe ag w = (Inr exe, w1)" "w1 = w"
    using assms
    by (auto simp: invoke_wedr_plugin_def success_simps resolve_wedr_plugin_exe_def Let_def
        split: option.splits if_splits)
  with assms show ?thesis
    by (auto simp: invoke_wedr_plugin_def success_simps run_program_def split: sum.splits if_splits)
qed

lemma download_all_history: "download_all ag pkg info w = (r, w') \<Longrightarrow> prefix (w_history w) (w_history w')"
proof -
  have fetch: "keeps (extends h) (fetch ag pkg f pp prim)" for h f pp prim
    unfolding fetch_def download_plugin_binary_def download_plugin_extra_def download_to_def
    by (auto intro!: keeping split: option.split)
  have verify: "keeps (extends h) (verify_sha (ag_env ag) (ag_cng ag) p x)" for h p x
    unfolding verify_sha_def by (intro keeping)
  have install: "keeps (extends h) (install_file (ag_env ag) pp fp)" for h pp fp
    unfolding install_file_def by (auto intro!: keeping split: sum.split)
  have "keeps (extends (w_history w)) (download_all ag pkg info)"
    unfolding download_all_def download_and_verify_def Let_def
    by (intro keeping fetch verify install)
  then show "download_all ag pkg info w = (r, w') \<Longrightarrow> prefix (w_history w) (w_history w')"
    by (force simp: keeps_iff extends_def)
qed

text \<open>An installation that succeeds went through its phases in order: the server was told
\<open>installing\<close>, then the description and the files were fetched, then it was told \<open>installed\<close>, then the
tool enrolled the downloaded binary and returned an identifier, and only then was the server told
\<open>started\<close> with that identifier; nothing else was run or sent after the downloads.\<close>

theorem install_order:
  assumes "handle_install ag a w = (Inr u, w')"
  shows "\<exists>info bin_path exe (r :: program_end) plugin_id b1 b2 b3 downloads.
    w_history w' = w_history w @
      [(Request (post_call (ag_creds ag) (status_url (ag_creds ag) (pa_package_id a)) b1), True),
       (Request (get_call (ag_creds ag)
          (url (ag_creds ag) (''/api/v1/plugins/'' @ pa_package_id a @ ''/info''))), True)] @ downloads @
      [(Request (post_call (ag_creds ag) (status_url (ag_creds ag) (pa_package_id a)) b2), True),
       (Run_program exe (enroll_args bin_path info), True),
       (Request (post_call (ag_creds ag) (status_url (ag_creds ag) (pa_package_id a)) b3), True)] \<and>
    cd_write (ag_codec ag) (status_report_json \<lparr>sr_phase = ''installing'', sr_version = pa_version a,
      sr_id_local = None, sr_error = None\<rparr>) = Inr b1 \<and>
    cd_write (ag_codec ag) (status_report_json \<lparr>sr_phase = ''installed'', sr_version = pi_version info,
      sr_id_local = None, sr_error = None\<rparr>) = Inr b2 \<and>
    cd_write (ag_codec ag) (status_report_json \<lparr>sr_phase = ''started'', sr_version = pi_version info,
      sr_id_local = Some plugin_id, sr_error = None\<rparr>) = Inr b3 \<and>
    pe_success r \<and> plugin_id_of (str_lines (from_utf8_lossy (pe_stdout r))) = Some plugin_id"
proof -
  let ?pkg = "pa_package_id a"
  obtain info bin_path plugin_id w1 w2 w3 w4 w5 u1 u4 where run:
      "report ag ?pkg ''installing'' (pa_version a) None None w = (Inr u1, w1)"
      "plugin_info_for ag ?pkg w1 = (Inr info, w2)"
      "download_all ag ?pkg info w2 = (Inr bin_path, w3)"
      "report ag ?pkg ''installed'' (pi_version info) None None w3 = (Inr u4, w4)"
      "invoke_enroll ag bin_path info w4 = (Inr plugin_id, w5)"
      "report ag ?pkg ''started'' (pi_version info) (Some plugin_id) None w5 = (Inr u, w')"
    using assms by (auto simp: handle_install_def Let_def seq_Inr)
  obtain out where out: "plugin_id_of (str_lines out) = Some plugin_id"
      "invoke_wedr_plugin ag (enroll_args bin_path info) w4 = (Inr out, w5)"
    using run(5) by (auto simp: invoke_enroll_def success_simps split: option.splits)
  obtain exe and r :: program_end where x: "w_history w5 = w_history w4 @ [(Run_program exe (enroll_args bin_path info), True)]"
      "pe_success r" "out = from_utf8_lossy (pe_stdout r)"
    using invoke_done [OF out(2)] by blast
  have enroll: "plugin_id_of (str_lines (from_utf8_lossy (pe_stdout r))) = Some plugin_id"
    using out(1) x(3) by simp
  obtain downloads where downloads: "w_history w3 = w_history w2 @ downloads"
    using download_all_history [OF run(3)] by (auto simp: prefix_def)
  from report_done [OF run(1)] report_done [OF run(4)] report_done [OF run(6)] plugin_info_done [OF run(2)]
    x enroll downloads
  show ?thesis
    by (elim exE conjE) (intro exI [of _ info] exI [of _ bin_path] exI [of _ exe] exI [of _ r]
      exI [of _ plugin_id] exI conjI; (assumption | simp))
qed

section \<open>Revocation\<close>

text \<open>The effects of a revocation before its report: it removes files only after the tool revoked and
removed the enrolment.\<close>

lemma invoke_history:
  "invoke_wedr_plugin ag args w = (r, w') \<Longrightarrow>
     w_files w' = w_files w \<and> (\<exists>h. w_history w' = w_history w @ h \<and> (\<forall>(e, ok)\<in>set h. \<exists>exe. e = Run_program exe args))"
  by (auto simp: invoke_wedr_plugin_def seq_def blame_def resolve_wedr_plugin_exe_def run_program_def
      throw_def give_def Let_def split: prod.splits sum.splits option.splits if_splits)

lemma read_manifest_world: "snd (read_manifest_expected_path ag i w) = w"
proof -
  have "keeps (\<lambda>w'. w' = w) (read_manifest_expected_path ag i)"
    unfolding read_manifest_expected_path_def Let_def
    by (auto intro!: keeping split: option.split)
  then show ?thesis by (simp add: keeps_iff)
qed

text \<open>Revocation removes only what belongs to the revoked plugin, and only once the tool has revoked
and removed it: when any file changes, the manifest of that plugin named a path, the changed file lies
below the directory of that path, and \<open>wedr-plugin revoke\<close> and \<open>wedr-plugin remove\<close> had both
succeeded; a revocation without a local identifier changes nothing at all.\<close>

theorem revoke_scope:
  assumes "w_files (snd (handle_revoke ag a w)) p \<noteq> w_files w p"
  shows "\<exists>plugin_id path exe1 exe2 h.
    pa_id_local a = Some plugin_id \<and> read_manifest_expected_path ag plugin_id w = (Inr path, w) \<and>
    tree_of (parent_dir path) p \<and>
    w_history (snd (handle_revoke ag a w)) =
      w_history w @ [(Run_program exe1 [''revoke'', plugin_id], True),
                     (Run_program exe2 [''remove'', plugin_id], True)] @ h"
proof -
  obtain plugin_id where i: "pa_id_local a = Some plugin_id"
    using assms by (cases "pa_id_local a") (auto simp: handle_revoke_def throw_def)
  obtain r0 where r0: "read_manifest_expected_path ag plugin_id w = (r0, w)"
    using read_manifest_world [of ag plugin_id w] by (metis prod.collapse)
  obtain r1 w1 where r1: "invoke_wedr_plugin ag [''revoke'', plugin_id] w = (r1, w1)" by fastforce
  obtain r2 w2 where r2: "invoke_wedr_plugin ag [''remove'', plugin_id] w1 = (r2, w2)" by fastforce
  let ?clean = "case r0 of Inl _ \<Rightarrow> give ()
     | Inr p \<Rightarrow> if parent_dir p = [] then give ()
         else seq (attempt (perform (ag_env ag) (Delete_tree (parent_dir p)))) (\<lambda>_. give ())"
  let ?report = "report ag (pa_package_id a) ''revoked'' (pa_version a) (Some plugin_id) None"
  have f1: "w_files w1 = w_files w" and f2: "w_files w2 = w_files w1"
    using invoke_history [OF r1] invoke_history [OF r2] by simp_all
  obtain u1 where u1: "r1 = Inr u1"
    using assms i r0 r1 f1 by (cases r1) (auto simp: handle_revoke_def seq_def attempt_def blame_def)
  obtain u2 where u2: "r2 = Inr u2"
    using assms i r0 r1 u1 r2 f1 f2
    by (cases r2) (auto simp: handle_revoke_def seq_def attempt_def blame_def)
  have run: "handle_revoke ag a w = seq ?clean (\<lambda>_. ?report) w2"
    using i r0 r1 r2 u1 u2 by (simp add: handle_revoke_def seq_def [of "attempt _"] seq_def [of "blame _ _"]
        attempt_def [of "read_manifest_expected_path _ _"] blame_def)
  obtain r3 w3 where r3: "?clean w2 = (r3, w3)" by fastforce
  have report_files: "w_files (snd (?report w3)) = w_files w3"
    using report_frame [of "\<lambda>_. False" "w_files w3" ag "pa_package_id a" "''revoked''" "pa_version a"
        "Some plugin_id" None]
    by (auto simp: keeps_iff frame_def fun_eq_iff)
  have files: "w_files (snd (handle_revoke ag a w)) = w_files w3"
    using run r3 report_files by (cases r3) (simp_all add: seq_def)
  have ext: "prefix (w_history w2) (w_history (snd (handle_revoke ag a w)))"
  proof -
    have "keeps (extends (w_history w2)) (seq ?clean (\<lambda>_. ?report))"
      unfolding report_def report_plugin_status_def
      by (auto intro!: keeping split: sum.split)
    then show ?thesis unfolding run by (auto simp: keeps_iff extends_def)
  qed
  obtain path where path: "r0 = Inr path" "tree_of (parent_dir path) p"
    using assms files r3 f1 f2
    by (cases r0)
       (auto simp: give_def seq_def attempt_def perform_def split: if_splits option.splits prod.splits)
  obtain exe1 exe2 where "w_history w2 = w_history w @ [(Run_program exe1 [''revoke'', plugin_id], True),
      (Run_program exe2 [''remove'', plugin_id], True)]"
    using invoke_done [OF r1 [unfolded u1]] invoke_done [OF r2 [unfolded u2]] by auto
  with ext i r0 path show ?thesis by (auto simp: prefix_def)
qed

section \<open>Packages in flight\<close>

text \<open>Batches of several callers, interleaved: a batch claims its packages under the lock, runs, and
releases them when it ends (also by a panic, which drops the guard).\<close>

inductive batch_step ::
    "str set \<times> plugin_action list list \<Rightarrow> str set \<times> plugin_action list list \<Rightarrow> bool" where
  claim: "claim_packages actions held = (got, held') \<Longrightarrow> batch_step (held, running) (held', got # running)"
| release: "batch_step (held, xs @ got # ys) (release_packages got held, xs @ ys)"

inductive batch_reach :: "str set \<times> plugin_action list list \<Rightarrow> bool" where
  init: "batch_reach ({}, [])"
| step: "batch_reach st \<Longrightarrow> batch_step st st' \<Longrightarrow> batch_reach st'"

definition package_ids :: "plugin_action list list \<Rightarrow> str list" where
  "package_ids running = map pa_package_id (concat running)"

lemma package_ids_append:
  "package_ids (xs @ ys) = package_ids xs @ package_ids ys"
  "package_ids (got # ys) = map pa_package_id got @ package_ids ys"
  by (simp_all add: package_ids_def)

lemma claim_packages_claims:
  "claim_packages as held = (got, held') \<Longrightarrow>
     distinct (map pa_package_id got) \<and> set (map pa_package_id got) \<inter> held = {} \<and>
     held' = held \<union> set (map pa_package_id got) \<and> set got \<subseteq> set as \<and> pa_package_id ` set as \<subseteq> held'"
proof (induction as held arbitrary: got held' rule: claim_packages.induct)
  case (2 a as held)
  show ?case
  proof (cases "pa_package_id a \<in> held")
    case True
    with 2 show ?thesis by auto
  next
    case False
    obtain g h where g: "claim_packages as (insert (pa_package_id a) held) = (g, h)" by fastforce
    with 2(3) False have "got = a # g" "held' = h" by auto
    with 2(2) [OF False g] False show ?thesis by auto
  qed
qed simp

lemma batch_reach_exact:
  "batch_reach st \<Longrightarrow> distinct (package_ids (snd st)) \<and> fst st = set (package_ids (snd st))"
proof (induction rule: batch_reach.induct)
  case init
  show ?case by (simp add: package_ids_def)
next
  case (step st st')
  from step.hyps(2) show ?case
  proof (cases rule: batch_step.cases)
    case (claim actions held got held' running)
    with step.IH claim_packages_claims [OF claim(3)] show ?thesis
      by (auto simp: package_ids_def)
  next
    case (release held xs got ys)
    have "set (a @ b @ c) - set b = set (a @ c)" if "distinct (a @ b @ c)" for a b c :: "str list"
      using that by auto
    from this [of "package_ids xs" "map pa_package_id got" "package_ids ys"] step.IH release
    show ?thesis by (auto simp: package_ids_append release_packages_def)
  qed
qed


section \<open>Examples\<close>

definition sample_reply :: "http_call \<Rightarrow> reply" where
  "sample_reply c =
     \<lparr>re_status = 200, re_header = (\<lambda>k. if k = ''X-Plugin-SHA256'' then Some ''AB12'' else None),
      re_text = Inr (if ends_with (hc_url c) ''/info'' then ''info'' else ''ok''),
      re_data = [0xab, 0x12], re_broken = None\<rparr>"

definition sample_ctl_env :: env where
  "sample_ctl_env =
     \<lparr>en_reply = (\<lambda>h c. Inr (sample_reply c)), en_failure = (\<lambda>h e. None), en_unreadable = (\<lambda>h p. None),
      en_program = (\<lambda>h p args. Inr \<lparr>pe_code = Some 0, pe_success = True, pe_millis = Some 120,
        pe_stdout = bytes_of_str ''plugin_id : 8f3c'', pe_stderr = []\<rparr>),
      en_pipe = 4096\<rparr>"

definition sample_codec :: codec where
  "sample_codec =
     \<lparr>cd_write = (\<lambda>j. Inr []), cd_pretty = (\<lambda>j. Inr [0x7b]),
      cd_read = (\<lambda>t. if t = ''info'' then Inr (JObj [(''plugin_package_id'', JStr ''p''), (''name'', JStr ''n''),
          (''vendor'', JStr ''v''), (''version'', JStr ''1''), (''artifact_filename'', JStr ''f.exe''),
          (''auto_launch'', JBool True)])
        else if t = ''manifest'' then Inr (JObj [(''expected_path'', JStr (''b'' @ [CHR 0x5C] @ ''f.exe''))])
        else Inl ''bad''),
      cd_shape_error = (\<lambda>j. ''shape'')\<rparr>"

definition sample_creds :: server_creds where
  "sample_creds = \<lparr>cr_server_url = ''http://s'', cr_agent_id = ''a'', cr_token = ''t''\<rparr>"

definition sample_agent :: "bytes agent" where
  "sample_agent = \<lparr>ag_env = sample_ctl_env, ag_codec = sample_codec, ag_creds = sample_creds,
     ag_cng = sample_hasher, ag_var = (\<lambda>v. None)\<rparr>"

definition sample_plugin_action :: plugin_action where
  "sample_plugin_action = \<lparr>pa_package_id = ''p'', pa_version = ''1'', pa_action = ''install'',
     pa_id_local = Some ''8f3c''\<rparr>"

definition sample_world :: world where
  "sample_world = \<lparr>w_files =
     [join_path (join_path (program_data sample_agent) PLUGINS_SUBDIR) ''8f3c.json'' \<mapsto> bytes_of_str ''manifest'',
      ''b'' @ [CHR 0x5C] @ ''f.exe'' \<mapsto> [7]], w_history = []\<rparr>"

definition sample_target :: str where
  "sample_target = join_path (join_path (join_path (plugin_root sample_agent) ''n'') ''1'') ''f.exe''"

definition sample_info :: plugin_info where
  "sample_info = \<lparr>pi_name = ''n'', pi_vendor = ''v'', pi_version = ''1'', pi_artifact = ''f.exe'',
     pi_auto_launch = True, pi_extras = [], pi_env = []\<rparr>"

definition sample_dir_path :: str where
  "sample_dir_path = join_path (join_path (plugin_root sample_agent) ''n'') ''1''"

text \<open>The pieces of the sample run.\<close>

lemma sample_parts:
  "parse_as sample_codec plugin_info_of_json ''info'' = Inr sample_info"
  "plugin_dir sample_agent sample_info = Inr sample_dir_path"
  "validate_filename ''f.exe'' = Inr ()"
  "hex_string [0xab, 0x12] = ''ab12''"
  "eq_ignore_ascii_case ''ab12'' ''AB12''"
  "plugin_id_of (str_lines (from_utf8_lossy (bytes_of_str ''plugin_id : 8f3c''))) = Some ''8f3c''"
  "w_files sample_world sample_target = None"
  "ends_with ''http://s/api/v1/plugins/p/info'' ''/info''"
  by code_simp+

lemma sample_hash: "hash_content sample_hasher [] [0xab, 0x12] = Inr ''ab12''"
  by (simp add: hash_content_def pieces.simps sample_hasher_def sample_parts)

lemma sample_in_time: "pe_millis r = Some 120 \<Longrightarrow> length (pe_stdout r) \<le> 4096 \<Longrightarrow> pe_stderr r = [] \<Longrightarrow>
    in_time sample_ctl_env r"
  by (simp add: in_time_def exits_at_def sample_ctl_env_def poll_exit_in_time WEDR_PLUGIN_TIMEOUT_def)


lemma sample_fields [simp]:
  "ag_env sample_agent = sample_ctl_env" "ag_codec sample_agent = sample_codec"
  "ag_creds sample_agent = sample_creds" "ag_cng sample_agent = sample_hasher" "ag_var sample_agent v = None"
  by (simp_all add: sample_agent_def)

lemma sample_info_fields [simp]:
  "pi_artifact sample_info = ''f.exe''" "pi_version sample_info = ''1''" "pi_extras sample_info = []"
  by (simp_all add: sample_info_def)

lemma sample_agent_perform [simp]:
  "perform sample_ctl_env e w = (Inr (), record_effect e True (w\<lparr>w_files := applied e (w_files w)\<rparr>))"
  by (simp add: perform_def sample_ctl_env_def)

lemma sample_call [simp]:
  "exchange sample_ctl_env c w = (Inr (sample_reply c), record_effect (Request c) True w)"
  "call sample_ctl_env c w = (Inr (sample_reply c), record_effect (Request c) True w)"
  by (simp_all add: call_def exchange_def sample_ctl_env_def sample_reply_def)

lemma sample_report [simp]:
  "report sample_agent p ph v i e w =
     (Inr (), record_effect (Request (post_call sample_creds (status_url sample_creds p) [])) True w)"
  by (simp add: report_def report_plugin_status_def seq_def blame_def lift_result_def give_def sample_codec_def)

lemma sample_plugin_info [simp]:
  "plugin_info_for sample_agent ''p'' w = (Inr sample_info, record_effect
     (Request (get_call sample_creds ''http://s/api/v1/plugins/p/info'')) True w)"
proof -
  have "url sample_creds (''/api/v1/plugins/'' @ ''p'' @ ''/info'') = ''http://s/api/v1/plugins/p/info''"
    by (simp add: url_def sample_creds_def)
  moreover have "re_text (sample_reply (get_call sample_creds ''http://s/api/v1/plugins/p/info'')) = Inr ''info''"
    using sample_parts(8) by (simp add: sample_reply_def get_call_def)
  ultimately show ?thesis
    by (simp add: plugin_info_for_def get_plugin_info_def optional_get_def seq_def blame_def lift_result_def
        give_def sample_parts(1))
qed

lemma sample_download:
  "\<exists>w'. download_and_verify sample_agent ''p'' dir ''f.exe'' True w = (Inr (join_path dir ''f.exe''), w') \<and>
     w_files w' (join_path dir ''f.exe'') = Some [0xab, 0x12]"
proof -
  let ?fp = "join_path dir ''f.exe''" and ?pp = "join_path dir (partial_name ''f.exe'')"
  have reply: "sha_header (sample_reply c) = ''AB12''" "re_data (sample_reply c) = [0xab, 0x12]"
      "re_broken (sample_reply c) = None" for c
    by (simp_all add: sha_header_def sample_reply_def)
  define w1 where "w1 = snd (fetch sample_agent ''p'' ''f.exe'' ?pp True w)"
  have fetch: "fetch sample_agent ''p'' ''f.exe'' ?pp True w = (Inr ''AB12'', w1)" "w_files w1 ?pp = Some [0xab, 0x12]"
    by (simp_all add: w1_def fetch_def download_plugin_binary_def download_to_def seq_def blame_def give_def reply)
  have "sha256_path sample_ctl_env sample_hasher ?pp w1 = (Inr ''ab12'', w1)"
    using fetch(2) sample_hash
    by (simp add: sha256_path_def seq_def blame_def lift_result_def read_file_def sample_ctl_env_def
        sample_hasher_def)
  then have verify: "verify_sha sample_ctl_env sample_hasher ?pp ''AB12'' w1 = (Inr (), w1)"
    by (simp add: verify_sha_def seq_def give_def sample_parts(5))
  have ne: "?pp \<noteq> ?fp" by simp
  obtain r w' where run: "install_file sample_ctl_env ?pp ?fp w1 = (r, w')" by fastforce
  moreover have "r = Inr ?fp"
    using run by (simp add: install_file_def seq_def file_exists_def blame_def give_def attempt_def split: if_splits)
  moreover have "w_files w' ?fp = Some [0xab, 0x12]"
    using install_file_final [OF run ne fetch(2)] \<open>r = Inr ?fp\<close> by simp
  ultimately show ?thesis
    by (simp add: download_and_verify_def seq_def lift_result_def Let_def sample_parts(3) fetch(1) verify)
qed

lemma sample_invoke:
  "\<exists>w'. invoke_wedr_plugin sample_agent args w =
     (Inr (from_utf8_lossy (bytes_of_str ''plugin_id : 8f3c'')), w') \<and> w_files w' = w_files w"
proof -
  let ?r = "\<lparr>pe_code = Some 0, pe_success = True, pe_millis = Some 120,
    pe_stdout = bytes_of_str ''plugin_id : 8f3c'', pe_stderr = []\<rparr>"
  have "in_time sample_ctl_env ?r" by (rule sample_in_time) (simp_all add: bytes_of_str_def)
  moreover have "en_program sample_ctl_env h exe args = Inr ?r" for h exe
    by (simp add: sample_ctl_env_def)
  ultimately show ?thesis
    by (simp add: invoke_wedr_plugin_def resolve_wedr_plugin_exe_def seq_def blame_def run_program_def give_def)
qed

lemma sample_install:
  "\<exists>w'. handle_install sample_agent sample_plugin_action sample_world = (Inr (), w') \<and>
     w_files w' sample_target = Some [0xab, 0x12]"
proof -
  define w2 where "w2 = snd (plugin_info_for sample_agent ''p''
    (snd (report sample_agent ''p'' ''installing'' ''1'' None None sample_world)))"
  obtain w3 where dl: "download_and_verify sample_agent ''p'' sample_dir_path ''f.exe'' True w2 =
      (Inr sample_target, w3)" "w_files w3 sample_target = Some [0xab, 0x12]"
    using sample_download [of sample_dir_path w2] by (auto simp: sample_target_def sample_dir_path_def)
  have all: "download_all sample_agent ''p'' sample_info w2 = (Inr sample_target, w3)"
    using dl(1) by (simp add: download_all_def seq_def lift_result_def sample_parts(2) give_def)
  define w4 where "w4 = snd (report sample_agent ''p'' ''installed'' ''1'' None None w3)"
  obtain w5 where inv: "invoke_wedr_plugin sample_agent (enroll_args sample_target sample_info) w4 =
      (Inr (from_utf8_lossy (bytes_of_str ''plugin_id : 8f3c'')), w5)" "w_files w5 = w_files w4"
    using sample_invoke by blast
  have "invoke_enroll sample_agent sample_target sample_info w4 = (Inr ''8f3c'', w5)"
    using inv(1) by (simp add: invoke_enroll_def seq_def blame_def give_def sample_parts(6))
  with all dl(2) inv(2) show ?thesis
    by (simp add: handle_install_def seq_def Let_def sample_plugin_action_def w2_def w4_def)
qed

lemma sample_paths:
  "parent_dir (''b'' @ [CHR 0x5C] @ ''f.exe'') = ''b''"
  "tree_of ''b'' (''b'' @ [CHR 0x5C] @ ''f.exe'')"
  "w_files sample_world (''b'' @ [CHR 0x5C] @ ''f.exe'') = Some [7]"
  "from_utf8 (bytes_of_str ''manifest'') = Some ''manifest''"
  "w_files sample_world (join_path (join_path (program_data sample_agent) PLUGINS_SUBDIR) (''8f3c'' @ ''.json'')) =
     Some (bytes_of_str ''manifest'')"
  "cd_read sample_codec ''manifest'' = Inr (JObj [(''expected_path'', JStr (''b'' @ [CHR 0x5C] @ ''f.exe''))])"
  by code_simp+

lemma sample_manifest:
  "read_manifest_expected_path sample_agent ''8f3c'' sample_world =
     (Inr (''b'' @ [CHR 0x5C] @ ''f.exe''), sample_world)"
proof -
  let ?p = "join_path (join_path (program_data sample_agent) PLUGINS_SUBDIR) (''8f3c'' @ ''.json'')"
  have "read_file sample_ctl_env ?p sample_world = (Inr (bytes_of_str ''manifest''), sample_world)"
    using sample_paths(5) by (simp only: read_file_def sample_ctl_env_def env.simps option.case)
  moreover have "get_str ''expected_path'' (JObj [(''expected_path'', JStr (''b'' @ [CHR 0x5C] @ ''f.exe''))]) =
      Some (''b'' @ [CHR 0x5C] @ ''f.exe'')" by (simp add: get_str_def)
  ultimately show ?thesis
    unfolding read_manifest_expected_path_def Let_def sample_fields
    by (simp only: seq_def prod.case sum.case sample_paths(4,6) option.case lift_result_def give_def)
qed


theorem plugin_files_confined_witness:
  "\<exists>n v f. plain_segment n \<and> plain_segment v \<and> flat_file f \<and>
     sample_target = join_path (join_path (join_path (plugin_root sample_agent) n) v) f"
proof -
  obtain w' where "handle_install sample_agent sample_plugin_action sample_world = (Inr (), w')"
      "w_files w' sample_target = Some [0xab, 0x12]" using sample_install by blast
  then have "w_files (snd (handle_install sample_agent sample_plugin_action sample_world)) sample_target \<noteq>
      w_files sample_world sample_target" using sample_parts(7) by simp
  then show ?thesis by (intro plugin_files_confined) (rule disjI1)
qed

theorem install_order_witness:
  "\<exists>b. last (w_history (snd (handle_install sample_agent sample_plugin_action sample_world))) =
     (Request (post_call (ag_creds sample_agent)
        (status_url (ag_creds sample_agent) (pa_package_id sample_plugin_action)) b), True)"
proof -
  obtain w' where "handle_install sample_agent sample_plugin_action sample_world = (Inr (), w')"
    using sample_install by blast
  from install_order [OF this] this show ?thesis by auto
qed

theorem revoke_scope_witness:
  "\<exists>plugin_id path. pa_id_local sample_plugin_action = Some plugin_id \<and>
     read_manifest_expected_path sample_agent plugin_id sample_world = (Inr path, sample_world) \<and>
     tree_of (parent_dir path) (''b'' @ [CHR 0x5C] @ ''f.exe'')"
proof -
  have "w_files (snd (handle_revoke sample_agent sample_plugin_action sample_world)) (''b'' @ [CHR 0x5C] @ ''f.exe'')
      \<noteq> w_files sample_world (''b'' @ [CHR 0x5C] @ ''f.exe'')"
  proof -
    obtain w1 where w1: "invoke_wedr_plugin sample_agent [''revoke'', ''8f3c''] sample_world =
        (Inr (from_utf8_lossy (bytes_of_str ''plugin_id : 8f3c'')), w1)" "w_files w1 = w_files sample_world"
      using sample_invoke by blast
    obtain w2 where w2: "invoke_wedr_plugin sample_agent [''remove'', ''8f3c''] w1 =
        (Inr (from_utf8_lossy (bytes_of_str ''plugin_id : 8f3c'')), w2)" "w_files w2 = w_files w1"
      using sample_invoke by blast
    have path: "read_manifest_expected_path sample_agent ''8f3c'' sample_world =
        (Inr (''b'' @ [CHR 0x5C] @ ''f.exe''), sample_world)" by (rule sample_manifest)
    let ?w3 = "record_effect (Delete_tree ''b'') True (w2\<lparr>w_files := applied (Delete_tree ''b'') (w_files w2)\<rparr>)"
    have "handle_revoke sample_agent sample_plugin_action sample_world =
        report sample_agent ''p'' ''revoked'' ''1'' (Some ''8f3c'') None ?w3"
      using path w1(1) w2(1) sample_paths(1)
      by (simp add: handle_revoke_def sample_plugin_action_def seq_def attempt_def blame_def give_def del: sample_report)
    then show ?thesis using sample_paths(2,3) by simp
  qed
  from revoke_scope [OF this] show ?thesis by blast
qed


end
