(* ===== verification/Sync.thy ===== *)
theory Sync
  imports Control
begin

text \<open>
  The synchronisation of the profile (\<open>src/src/control/sync.rs\<close>): pull the metadata and the template,
  persist them, merge the server's configuration, keep the rules that parse and do not collide, write
  them and have the detection engine reload. The parser of the rules belongs to another crate and is
  the argument \<open>sy_parse\<close>, which returns the names of the groups of a source.
\<close>

section \<open>What is persisted\<close>

record persisted_profile =
  pp_profile_id :: str
  pp_version :: int
  pp_hash :: str
  pp_modules_loaded :: "module_ref list"

definition persisted_json :: "persisted_profile \<Rightarrow> json" where
  "persisted_json p =
     JObj [(''profile_id'', JStr (pp_profile_id p)), (''version'', JInt (pp_version p)),
           (''hash'', JStr (pp_hash p)), (''modules_loaded'', JArr (map module_ref_json (pp_modules_loaded p)))]"

definition persisted_of_json :: "json \<Rightarrow> persisted_profile option" where
  "persisted_of_json j =
     (case (get_str ''profile_id'' j, Option.bind (json_get ''version'' j) as_i64, get_str ''hash'' j,
            default_to [] (decode_list module_ref_of_json) ''modules_loaded'' j) of
        (Some i, Some v, Some h, Some ms) \<Rightarrow>
          Some \<lparr>pp_profile_id = i, pp_version = v, pp_hash = h, pp_modules_loaded = ms\<rparr>
      | _ \<Rightarrow> None)"

definition profile_path :: "str \<Rightarrow> str" where "profile_path dir = join_path dir ''profile.json''"
definition template_path :: "str \<Rightarrow> str" where "template_path dir = join_path dir ''profile_template.json''"

definition agent_config_overrides_path :: "str \<Rightarrow> str" where
  "agent_config_overrides_path dir = join_path dir ''agent_config_overrides.json''"

record sync_config =
  sy_env :: env
  sy_codec :: codec
  sy_creds :: server_creds
  sy_dir :: str
  sy_rules_path :: "str option"
  sy_engine :: bool
  sy_parse :: "str \<Rightarrow> str + str list"

definition load_persisted :: "sync_config \<Rightarrow> world \<Rightarrow> profile_state" where
  "load_persisted sy w =
     (case fst (read_file (sy_env sy) (profile_path (sy_dir sy)) w) of
        Inl _ \<Rightarrow> default_profile
      | Inr bs \<Rightarrow>
          (case parse_as (sy_codec sy) persisted_of_json (str_of_bytes bs) of
             Inl _ \<Rightarrow> default_profile
           | Inr p \<Rightarrow> \<lparr>ps_version = pp_version p, ps_modules_loaded = pp_modules_loaded p, ps_rule_errors = []\<rparr>))"

section \<open>The rules of a template\<close>

record rule_view =
  rv_name :: str
  rv_is_enabled :: bool
  rv_waza_source :: str

definition rule_view_of_json :: "json \<Rightarrow> rule_view option" where
  "rule_view_of_json j =
     (case (get_str ''name'' j, default_to True as_bool ''is_enabled'' j, default_to [] as_str ''waza_source'' j) of
        (Some n, Some e, Some s) \<Rightarrow> Some \<lparr>rv_name = n, rv_is_enabled = e, rv_waza_source = s\<rparr>
      | _ \<Rightarrow> None)"

definition template_view_of_json :: "json \<Rightarrow> rule_view list option" where
  "template_view_of_json j =
     (if as_object j = None then None else default_to [] (decode_list rule_view_of_json) ''rules'' j)"

definition refuse :: "rule_view \<Rightarrow> str \<Rightarrow> rule_error" where
  "refuse r msg = \<lparr>rx_rule_name = rv_name r, rx_message = msg\<rparr>"

definition collision_message :: "str \<Rightarrow> str" where
  "collision_message name =
     ''groupe '' @ [CHR 0x27] @ name @
     [CHR 0x27] @ '' d'' @ [CHR 0xC3, CHR 0xA9] @ ''j'' @ [CHR 0xC3, CHR 0xA0] @ '' d'' @
     [CHR 0xC3, CHR 0xA9] @ ''fini par une autre r'' @ [CHR 0xC3, CHR 0xA8] @ ''gle du profil '' @
     [CHR 0xE2, CHR 0x80, CHR 0x94] @ '' renommer pour les concilier''"

text \<open>One turn of the loop over the rules: the accepted rules, the errors and the claimed names.\<close>

type_synonym outcome_so_far = "(str \<times> str) list \<times> rule_error list \<times> str set"

definition consider_rule :: "(str \<Rightarrow> str + str list) \<Rightarrow> rule_view \<Rightarrow> outcome_so_far \<Rightarrow> outcome_so_far" where
  "consider_rule parse r st =
     (case st of (accepted, errors, claimed) \<Rightarrow>
        if \<not> rv_is_enabled r then st
        else if is_blank (rv_waza_source r) then
          (accepted, errors @ [refuse r (''r'' @ [CHR 0xC3, CHR 0xA8] @ ''gle vide'')], claimed)
        else case parse (rv_waza_source r) of
            Inl msg \<Rightarrow> (accepted, errors @ [refuse r msg], claimed)
          | Inr groups \<Rightarrow>
              (case List.find (\<lambda>g. g \<in> claimed) groups of
                 Some name \<Rightarrow> (accepted, errors @ [refuse r (collision_message name)], claimed)
               | None \<Rightarrow>
                   (accepted @ [(rv_name r, rv_waza_source r)], errors, claimed \<union> set groups)))"

definition parse_template_rules ::
    "codec \<Rightarrow> (str \<Rightarrow> str + str list) \<Rightarrow> json \<Rightarrow> str + ((str \<times> str) list \<times> rule_error list)" where
  "parse_template_rules c parse template =
     (case template_view_of_json template of
        None \<Rightarrow> Inl (''decode template view: '' @ cd_shape_error c template)
      | Some rules \<Rightarrow>
          (case fold (consider_rule parse) rules ([], [], {}) of
             (accepted, errors, _) \<Rightarrow> Inr (accepted, errors)))"

section \<open>Files\<close>

definition write_agent_config_overrides :: "sync_config \<Rightarrow> json \<Rightarrow> (world, bool) act" where
  "write_agent_config_overrides sy template =
     (let overrides = (case json_get ''agent_config'' template of Some (JObj m) \<Rightarrow> JObj m | _ \<Rightarrow> JObj []);
          env = sy_env sy;
          path = agent_config_overrides_path (sy_dir sy);
          tmp = with_extension path ''json.tmp'' in
      seq (blame ''serialize agent_config: '' (lift_result (cd_pretty (sy_codec sy) overrides))) (\<lambda>new_body.
      seq (attempt (read_file env path)) (\<lambda>current.
      if current = Inr new_body then give False
      else
        seq (attempt (perform env (Make_dir (parent_dir path)))) (\<lambda>_.
        seq (blame (''write '' @ tmp @ '': '') (perform env (Write_file tmp new_body))) (\<lambda>_.
        seq (blame (''rename '' @ tmp @ '' '' @ arrow @ '' '' @ path @
        '': '') (perform env (Move_file tmp path)))
          (\<lambda>_. give True))))))"

definition rule_text :: "str \<times> str \<Rightarrow> str" where
  "rule_text r =
     ''# --- rule '' @ [CHR 0x27] @ fst r @ [CHR 0x27] @ '' ---'' @ [CHR 0x0A] @ trim_end (snd r) @
     [CHR 0x0A, CHR 0x0A]"

definition rules_file :: "int \<Rightarrow> (str \<times> str) list \<Rightarrow> str" where
  "rules_file version accepted =
     ''# G'' @ [CHR 0xC3, CHR 0xA9] @ ''r'' @ [CHR 0xC3, CHR 0xA9] @ '' par l'' @ [CHR 0x27] @
     ''agent WazabiEDR '' @ [CHR 0xE2, CHR 0x80, CHR 0x94] @ '' NE PAS '' @ [CHR 0xC3, CHR 0x89] @
     ''DITER '' @ [CHR 0xC3, CHR 0x80] @ '' LA MAIN.'' @ [CHR 0x0A] @
     ''# Toute modif sera '' @ [CHR 0xC3, CHR 0xA9] @ ''cras'' @ [CHR 0xC3, CHR 0xA9] @
     ''e au prochain heartbeat avec sync profil.'' @ [CHR 0x0A] @
     ''# Profil version : '' @ dec_int version @ [CHR 0x0A, CHR 0x0A] @ concat (map rule_text accepted)"

definition write_accepted_rules :: "env \<Rightarrow> (str \<times> str) list \<Rightarrow> str \<Rightarrow> int \<Rightarrow> (world, unit) act" where
  "write_accepted_rules env accepted path version =
     (let tmp = with_extension path ''waza.tmp'' in
      seq (blame (''create parent '' @ parent_dir path @
      '': '') (perform env (Make_dir (parent_dir path)))) (\<lambda>_.
      seq (blame (''write '' @ tmp @ '': '')
            (perform env (Write_file tmp (bytes_of_str (rules_file version accepted))))) (\<lambda>_.
      blame (''rename '' @ tmp @ '' '' @ arrow @ '' '' @ path @ '': '') (perform env (Move_file tmp path)))))"

section \<open>The pull\<close>

record control_state =
  cl_profile :: profile_state
  cl_stats :: control_stats
  cl_world :: world

definition on_world :: "(world, 'a) act \<Rightarrow> (control_state, 'a) act" where
  "on_world m st = (case m (cl_world st) of (r, w) \<Rightarrow> (r, st\<lparr>cl_world := w\<rparr>))"

definition server_bundle :: "str \<Rightarrow> rule_error" where
  "server_bundle msg = \<lparr>rx_rule_name = ''__server_bundle__'', rx_message = msg\<rparr>"

text \<open>Write the accepted rules and force the reload; the result is what is added to the errors.\<close>

definition apply_rules :: "sync_config \<Rightarrow> (str \<times> str) list \<Rightarrow> int \<Rightarrow> (world, rule_error list) act" where
  "apply_rules sy accepted version =
     (case sy_rules_path sy of
        None \<Rightarrow> give []
      | Some path \<Rightarrow>
          seq (attempt (write_accepted_rules (sy_env sy) accepted path version)) (\<lambda>r.
          case r of
            Inl e \<Rightarrow>
              give [server_bundle ([CHR 0xC3, CHR 0xA9] @ ''criture de '' @ [CHR 0x60] @ ''server.waza'' @
              [CHR 0x60] @ '' '' @ [CHR 0xC3, CHR 0xA9] @ ''chou'' @ [CHR 0xC3, CHR 0xA9] @ ''e : '' @ e)]
          | Inr _ \<Rightarrow>
              if sy_engine sy then
                seq (attempt (perform (sy_env sy) Reload_rules)) (\<lambda>r.
                case r of
                  Inl e \<Rightarrow>
                    give [server_bundle (''reload du fichier '' @ [CHR 0x60] @ ''server.waza'' @ [CHR 0x60] @
                    '' '' @ [CHR 0xC3, CHR 0xA9] @ ''chou'' @ [CHR 0xC3, CHR 0xA9] @ '' : '' @ e)]
                | Inr _ \<Rightarrow> give [])
              else give []))"

definition persisted_of :: "profile_metadata \<Rightarrow> persisted_profile" where
  "persisted_of meta =
     \<lparr>pp_profile_id = pf_profile_id meta, pp_version = pf_version meta, pp_hash = pf_hash meta,
      pp_modules_loaded = pf_modules_required meta\<rparr>"

text \<open>The files of a new profile: \<open>profile.json\<close>, then the template (best effort) and the configuration
of the server; the result says whether the configuration changed.\<close>

definition persist_template :: "sync_config \<Rightarrow> json \<Rightarrow> (world, bool) act" where
  "persist_template sy template =
     seq (blame ''serialize template: '' (lift_result (cd_pretty (sy_codec sy) template))) (\<lambda>tmpl.
     seq (attempt (perform (sy_env sy) (Write_file (template_path (sy_dir sy)) tmpl))) (\<lambda>_.
     seq (attempt (write_agent_config_overrides sy template)) (\<lambda>r.
     give (case r of Inr changed \<Rightarrow> changed | Inl _ \<Rightarrow> False))))"

definition persist_profile :: "sync_config \<Rightarrow> profile_metadata \<Rightarrow> json \<Rightarrow> (world, bool) act" where
  "persist_profile sy meta template =
     (let env = sy_env sy; c = sy_codec sy; dir = sy_dir sy in
      seq (attempt (perform env (Make_dir (parent_dir (profile_path dir))))) (\<lambda>_.
      seq (blame ''serialize profile.json: '' (lift_result (cd_pretty c (persisted_json (persisted_of meta))))) (\<lambda>json.
      seq (blame ''write profile.json: '' (perform env (Write_file (profile_path dir) json))) (\<lambda>_.
      persist_template sy template))))"

text \<open>The end of a pull: the new state, the counter, and the request to restart.\<close>

definition commit_profile ::
    "profile_metadata \<Rightarrow> rule_error list \<Rightarrow> bool \<Rightarrow> (control_state, unit) act" where
  "commit_profile meta errors config_changed st =
     (let st = st\<lparr>cl_profile := \<lparr>ps_version = pf_version meta, ps_modules_loaded = pf_modules_required meta,
                                ps_rule_errors = errors\<rparr>,
                  cl_stats := bump_profile_sync (cl_stats st)\<rparr> in
      (Inr (), if config_changed then st\<lparr>cl_world := record_effect Request_restart True (cl_world st)\<rparr> else st))"

definition pull :: "sync_config \<Rightarrow> (control_state, unit) act" where
  "pull sy =
     seq (on_world (get_profile_metadata (sy_env sy) (sy_codec sy) (sy_creds sy))) (\<lambda>meta.
     case meta of
       None \<Rightarrow> give ()
     | Some meta \<Rightarrow>
         seq (on_world (get_profile_template (sy_env sy) (sy_codec sy) (sy_creds sy) (pf_profile_id meta))) (\<lambda>template.
         seq (on_world (persist_profile sy meta template)) (\<lambda>config_changed.
         seq (lift_result (parse_template_rules (sy_codec sy) (sy_parse sy) template)) (\<lambda>(accepted, errors).
         seq (on_world (apply_rules sy accepted (pf_version meta))) (\<lambda>more.
         commit_profile meta (errors @ more) config_changed)))))"

section \<open>The rules that are kept\<close>

definition groups_of :: "(str \<Rightarrow> str + str list) \<Rightarrow> str \<times> str \<Rightarrow> str set" where
  "groups_of parse r = (case parse (snd r) of Inl _ \<Rightarrow> {} | Inr gs \<Rightarrow> set gs)"

definition reported_for :: "(str \<Rightarrow> str + str list) \<Rightarrow> str set \<Rightarrow> rule_view \<Rightarrow> rule_error \<Rightarrow> bool" where
  "reported_for parse claimed r e \<longleftrightarrow>
     rv_is_enabled r \<and> rx_rule_name e = rv_name r \<and>
     (is_blank (rv_waza_source r) \<or> parse (rv_waza_source r) = Inl (rx_message e) \<or>
      (\<exists>gs. parse (rv_waza_source r) = Inr gs \<and> set gs \<inter> claimed \<noteq> {}))"

definition kept_well ::
    "(str \<Rightarrow> str + str list) \<Rightarrow> rule_view list \<Rightarrow> (str \<times> str) list \<Rightarrow> rule_error list \<Rightarrow> str set \<Rightarrow> bool" where
  "kept_well parse rules accepted errors claimed \<longleftrightarrow>
     claimed = (\<Union>r\<in>set accepted. groups_of parse r) \<and>
     subseq accepted (map (\<lambda>r. (rv_name r, rv_waza_source r)) (filter rv_is_enabled rules)) \<and>
     length accepted + length errors = length (filter rv_is_enabled rules) \<and>
     (\<forall>r\<in>set accepted. \<exists>gs. parse (snd r) = Inr gs) \<and>
     (\<forall>e\<in>set errors. \<exists>r\<in>set rules. reported_for parse claimed r e) \<and>
     (\<forall>i j. i < j \<longrightarrow> j < length accepted \<longrightarrow>
        groups_of parse (accepted ! i) \<inter> groups_of parse (accepted ! j) = {})"

lemma reported_for_mono: "reported_for parse A r e \<Longrightarrow> A \<subseteq> B \<Longrightarrow> reported_for parse B r e"
  unfolding reported_for_def by blast

lemma kept_well_error:
  assumes "kept_well parse rules accepted errors claimed" and "reported_for parse claimed r e"
  shows "kept_well parse (rules @ [r]) accepted (errors @ [e]) claimed"
  using assms by (auto simp: kept_well_def reported_for_def intro: list_emb_append2)

lemma kept_well_accept:
  assumes "kept_well parse rules accepted errors claimed" and "rv_is_enabled r"
    and "parse (rv_waza_source r) = Inr gs" and "set gs \<inter> claimed = {}"
  shows "kept_well parse (rules @ [r]) (accepted @
  [(rv_name r, rv_waza_source r)]) errors (claimed \<union> set gs)"
proof -
  have new: "groups_of parse (rv_name r, rv_waza_source r) = set gs" using assms(3) by (simp add: groups_of_def)
  have "groups_of parse (accepted ! i) \<inter> set gs = {}" if "i < length accepted" for i
    using that assms(1,4) unfolding kept_well_def by (blast intro: nth_mem)
  then have "\<forall>i j. i < j \<longrightarrow> j < length (accepted @
  [(rv_name r, rv_waza_source r)]) \<longrightarrow>
      groups_of parse ((accepted @ [(rv_name r, rv_waza_source r)]) ! i) \<inter>
      groups_of parse ((accepted @ [(rv_name r, rv_waza_source r)]) ! j) = {}"
    using assms(1) new by (auto simp: kept_well_def nth_append less_Suc_eq)
  moreover have "\<forall>e\<in>set errors. \<exists>r'\<in>set (rules @
  [r]). reported_for parse (claimed \<union> set gs) r' e"
    using assms(1) reported_for_mono [of parse claimed _ _ "claimed \<union> set gs"] unfolding kept_well_def by fastforce
  ultimately show ?thesis
    using assms(1-3) new unfolding kept_well_def by (auto intro!: list_emb_append_mono)
qed

lemma consider_rule_keeps:
  assumes "kept_well parse rules (fst st) (fst (snd st)) (snd (snd st))"
  shows "kept_well parse (rules @ [r]) (fst (consider_rule parse r st)) (fst (snd (consider_rule parse r st)))
    (snd (snd (consider_rule parse r st)))"
proof -
  obtain accepted errors claimed where st: "st = (accepted, errors, claimed)" by (cases st)
  note kept = assms [unfolded st, simplified]
  show ?thesis
  proof (cases "rv_is_enabled r \<and> \<not> is_blank (rv_waza_source r)")
    case False
    with kept kept_well_error [OF kept, of r] show ?thesis
      by (auto simp: consider_rule_def st refuse_def reported_for_def kept_well_def)
  next
    case True
    show ?thesis
    proof (cases "parse (rv_waza_source r)")
      case (Inl msg)
      with True kept_well_error [OF kept, of r] show ?thesis
        by (auto simp: consider_rule_def st refuse_def reported_for_def)
    next
      case (Inr gs)
      show ?thesis
      proof (cases "List.find (\<lambda>g. g \<in> claimed) gs")
        case None
        then have "set gs \<inter> claimed = {}" by (auto simp: find_None_iff)
        with True Inr None kept_well_accept [OF kept] show ?thesis by (simp add: consider_rule_def st)
      next
        case (Some g)
        then have "set gs \<inter> claimed \<noteq> {}" using found [OF Some] by blast
        then have "reported_for parse claimed r (refuse r (collision_message g))"
          using True Inr by (simp add: reported_for_def refuse_def)
        from kept_well_error [OF kept this] Some True Inr show ?thesis by (simp add: consider_rule_def st)
      qed
    qed
  qed
qed

lemma fold_keeps:
  "kept_well parse rs (fst st) (fst (snd st)) (snd (snd st)) \<Longrightarrow>
     kept_well parse (rs @ rules) (fst (fold (consider_rule parse) rules st))
       (fst (snd (fold (consider_rule parse) rules st))) (snd (snd (fold (consider_rule parse) rules st)))"
proof (induction rules arbitrary: rs st)
  case (Cons r rules)
  from Cons.IH [OF consider_rule_keeps [OF Cons.prems], of r] show ?case by simp
qed simp


section \<open>What is left on disk\<close>

lemma join_path_same [simp]: "join_path d a = join_path d b \<longleftrightarrow> a = b"
  by (auto simp: join_path_def)

lemma with_extension_cases: "with_extension p e = p \<or> (\<exists>q. with_extension p e = q @ ''.'' @ e)"
  by (cases "file_name p") (auto simp: with_extension_def Let_def)

lemma join_path_last: "n \<noteq> [] \<Longrightarrow> last (join_path d n) = last n"
  by (auto simp: join_path_def)

text \<open>Neither of the two temporary files is the persisted profile.\<close>

lemma tmp_not_profile:
  assumes "p \<noteq> profile_path d" and "e \<noteq> []" and "last e = CHR ''p''"
  shows "with_extension p e \<noteq> profile_path d"
proof -
  have "last (q @ ''.'' @ e) \<noteq> last (profile_path d)" for q
    using assms(2,3) by (simp add: profile_path_def join_path_last)
  then show ?thesis using with_extension_cases [of p e] assms(1) by metis
qed

definition holds_file :: "str \<Rightarrow> bytes \<Rightarrow> world \<Rightarrow> bool" where "holds_file p b w \<longleftrightarrow> w_files w p = Some b"

lemma perform_holds [keeping]: "\<not> changes e p \<Longrightarrow> keeps (holds_file p b) (perform env e)"
  by (auto simp: keeps_iff holds_file_def perform_def applied_other dest: torn_changes split: option.splits)

lemma overrides_hold: "keeps (holds_file (profile_path (sy_dir sy)) b) (write_agent_config_overrides sy template)"
proof -
  let ?p = "agent_config_overrides_path (sy_dir sy)"
  have p: "?p \<noteq> profile_path (sy_dir sy)" by (simp add: agent_config_overrides_path_def profile_path_def)
  then have "with_extension ?p ''json.tmp'' \<noteq> profile_path (sy_dir sy)" by (rule tmp_not_profile) simp_all
  with p show ?thesis
    unfolding write_agent_config_overrides_def Let_def by (intro keeping) auto
qed

lemma write_rules_hold:
  "path \<noteq> profile_path d \<Longrightarrow> keeps (holds_file (profile_path d) b) (write_accepted_rules env rules path v)"
  using tmp_not_profile [of path d "''waza.tmp''"]
  unfolding write_accepted_rules_def Let_def by (intro keeping) auto

lemma apply_rules_hold:
  assumes "sy_rules_path sy \<noteq> Some (profile_path (sy_dir sy))"
  shows "keeps (holds_file (profile_path (sy_dir sy)) b) (apply_rules sy rules v)"
  using assms unfolding apply_rules_def
  by (auto split: option.split sum.split intro!: keeping write_rules_hold)

lemma persist_template_hold: "keeps (holds_file (profile_path (sy_dir sy)) b) (persist_template sy template)"
  unfolding persist_template_def
  by (intro keeping overrides_hold) (simp add: profile_path_def template_path_def)

lemma persist_profile_written:
  assumes "persist_profile sy meta template w = (Inr changed, w')"
  shows "\<exists>b. cd_pretty (sy_codec sy) (persisted_json (persisted_of meta)) = Inr b \<and>
    holds_file (profile_path (sy_dir sy)) b w'"
proof -
  obtain b w1 w2 where b: "cd_pretty (sy_codec sy) (persisted_json (persisted_of meta)) = Inr b"
      "perform (sy_env sy) (Write_file (profile_path (sy_dir sy)) b) w1 = (Inr (), w2)"
      "persist_template sy template w2 = (Inr changed, w')"
    using assms by (auto simp: persist_profile_def Let_def success_simps)
  from perform_done [OF b(2)] have "holds_file (profile_path (sy_dir sy)) b w2" by (simp add: holds_file_def)
  with persist_template_hold b(1,3) show ?thesis by (metis keeps_iff snd_conv)
qed

text \<open>What the theorems ask of \<open>serde_json\<close>: it reads back a profile that it wrote.\<close>

definition reads_profiles :: "codec \<Rightarrow> bool" where
  "reads_profiles c \<longleftrightarrow>
     (\<forall>p b. cd_pretty c (persisted_json p) = Inr b \<longrightarrow> cd_read c (str_of_bytes b) = Inr (persisted_json p))"

definition readable :: "env \<Rightarrow> str \<Rightarrow> bool" where "readable env p \<longleftrightarrow> (\<forall>h. en_unreadable env h p = None)"

lemma module_refs_roundtrip: "decode_all module_ref_of_json (map module_ref_json ms) = Some ms"
  by (induction ms) (simp_all add: module_ref_of_json_def module_ref_json_def get_str_def)

lemma persisted_roundtrip:
  "- (2 ^ 63) \<le> pp_version p \<Longrightarrow> pp_version p < 2 ^ 63 \<Longrightarrow> persisted_of_json (persisted_json p) = Some p"
  by (simp add: persisted_of_json_def persisted_json_def get_str_def default_to_def decode_list_def
      module_refs_roundtrip)

lemma load_persisted_holds:
  assumes "reads_profiles (sy_codec sy)" and "readable (sy_env sy) (profile_path (sy_dir sy))"
    and "cd_pretty (sy_codec sy) (persisted_json p) = Inr b" and "holds_file (profile_path (sy_dir sy)) b w"
    and "- (2 ^ 63) \<le> pp_version p" "pp_version p < 2 ^ 63"
  shows "load_persisted sy w =
    \<lparr>ps_version = pp_version p, ps_modules_loaded = pp_modules_loaded p, ps_rule_errors = []\<rparr>"
proof -
  have "cd_read (sy_codec sy) (str_of_bytes b) = Inr (persisted_json p)"
    using assms(1,3) by (simp add: reads_profiles_def)
  then show ?thesis
    using assms(2,4-) by (simp add: load_persisted_def read_file_def readable_def holds_file_def parse_as_def
        persisted_roundtrip)
qed

lemma as_i64_range: "as_i64 j = Some v \<Longrightarrow> - (2 ^ 63) \<le> v \<and> v < 2 ^ 63"
  by (cases j) (auto split: if_splits)

lemma parse_as_Inr: "parse_as c decode t = Inr x \<Longrightarrow> \<exists>j. decode j = Some x"
  by (auto simp: parse_as_def split: sum.splits option.splits)

lemma metadata_version_range:
  assumes "get_profile_metadata env c cr w = (Inr (Some meta), w')"
  shows "- (2 ^ 63) \<le> pf_version meta \<and> pf_version meta < 2 ^ 63"
proof -
  obtain j where "profile_metadata_of_json j = Some meta"
    using assms by (auto simp: get_profile_metadata_def optional_get_def success_simps
        split: prod.splits sum.splits http_error.splits if_splits dest!: parse_as_Inr)
  then show ?thesis
    by (auto simp: profile_metadata_of_json_def bind_eq_Some_conv split: option.splits dest: as_i64_range)
qed

lemma on_world_Inr:
  "on_world m st = (Inr x, st') \<longleftrightarrow> (\<exists>w. m (cl_world st) = (Inr x, w) \<and> st' = st\<lparr>cl_world := w\<rparr>)"
  by (auto simp: on_world_def split: prod.splits)

text \<open>What a pull that ends well has done.\<close>

lemma pull_done:
  assumes "pull sy st = (Inr (), st')"
  shows "cl_stats st' = cl_stats st \<or>
    (\<exists>meta template changed accepted errors more w1 w2 w3 w4.
       get_profile_metadata (sy_env sy) (sy_codec sy) (sy_creds sy) (cl_world st) = (Inr (Some meta), w1) \<and>
       persist_profile sy meta template w2 = (Inr changed, w3) \<and>
       parse_template_rules (sy_codec sy) (sy_parse sy) template = Inr (accepted, errors) \<and>
       apply_rules sy accepted (pf_version meta) w3 = (Inr more, w4) \<and>
       commit_profile meta (errors @ more) changed (st\<lparr>cl_world := w4\<rparr>) = (Inr (), st'))"
  using assms
  by (auto simp: pull_def success_simps on_world_Inr split: option.splits)

lemma commit_profile_files:
  "commit_profile meta errors changed st = (Inr (), st') \<Longrightarrow>
     w_files (cl_world st') = w_files (cl_world st) \<and> cl_profile st' =
       \<lparr>ps_version = pf_version meta, ps_modules_loaded = pf_modules_required meta, ps_rule_errors = errors\<rparr>"
  by (auto simp: commit_profile_def Let_def)

text \<open>C18. A restart resumes where the last synchronisation ended: what the agent loads from the disk after
a pull that was counted is the profile it had in memory, version and modules, without the errors.\<close>

theorem restart_resumes:
  assumes "reads_profiles (sy_codec sy)" and "readable (sy_env sy) (profile_path (sy_dir sy))"
    and "sy_rules_path sy \<noteq> Some (profile_path (sy_dir sy))"
    and "pull sy st = (Inr (), st')" and "cl_stats st' \<noteq> cl_stats st"
  shows "load_persisted sy (cl_world st') = (cl_profile st')\<lparr>ps_rule_errors := []\<rparr>"
proof -
  obtain meta template changed accepted errors more w1 w2 w3 w4 where
    meta: "get_profile_metadata (sy_env sy) (sy_codec sy) (sy_creds sy) (cl_world st) = (Inr (Some meta), w1)"
    and persist: "persist_profile sy meta template w2 = (Inr changed, w3)"
    and apply_r: "apply_rules sy accepted (pf_version meta) w3 = (Inr more, w4)"
    and commit: "commit_profile meta (errors @ more) changed (st\<lparr>cl_world := w4\<rparr>) = (Inr (), st')"
    using pull_done [OF assms(4)] assms(5) by blast
  obtain b where b: "cd_pretty (sy_codec sy) (persisted_json (persisted_of meta)) = Inr b"
      "holds_file (profile_path (sy_dir sy)) b w3" using persist_profile_written [OF persist] by blast
  have "holds_file (profile_path (sy_dir sy)) b w4"
    using apply_rules_hold [OF assms(3)] b(2) apply_r by (metis keeps_iff snd_conv)
  then have "holds_file (profile_path (sy_dir sy)) b (cl_world st')"
    using commit_profile_files [OF commit] by (simp add: holds_file_def)
  from load_persisted_holds [OF assms(1,2) b(1) this] metadata_version_range [OF meta]
    commit_profile_files [OF commit] show ?thesis by (simp add: persisted_of_def)
qed

text \<open>C19. A pull that fails on the rules is not undone, although its documentation says that the previous
state is left untouched: \<open>profile.json\<close> already holds the new version, so that after a restart the agent
reports a version whose rules it never applied, and the restart that a changed configuration needs is not
requested.\<close>

theorem failed_pull_is_remembered:
  assumes "reads_profiles (sy_codec sy)" and "readable (sy_env sy) (profile_path (sy_dir sy))"
    and "get_profile_metadata (sy_env sy) (sy_codec sy) (sy_creds sy) (cl_world st) = (Inr (Some meta), w1)"
    and "get_profile_template (sy_env sy) (sy_codec sy) (sy_creds sy) (pf_profile_id meta) w1 = (Inr template, w2)"
    and "persist_profile sy meta template w2 = (Inr changed, w3)"
    and "parse_template_rules (sy_codec sy) (sy_parse sy) template = Inl e"
  shows "pull sy st = (Inl e, st\<lparr>cl_world := w3\<rparr>) \<and> ps_version (load_persisted sy w3) = pf_version meta"
proof -
  obtain b where b: "cd_pretty (sy_codec sy) (persisted_json (persisted_of meta)) = Inr b"
      "holds_file (profile_path (sy_dir sy)) b w3" using persist_profile_written [OF assms(5)] by blast
  have "ps_version (load_persisted sy w3) = pf_version meta"
    using load_persisted_holds [OF assms(1,2) b] metadata_version_range [OF assms(3)] by (simp add: persisted_of_def)
  with assms(3-6) show ?thesis by (simp add: pull_def seq_def on_world_def lift_result_def)
qed

lemma overrides_tmp: "with_extension (agent_config_overrides_path d) ''json.tmp'' \<noteq> agent_config_overrides_path d"
proof -
  let ?n = "''agent_config_overrides.json''"
  have "file_name (agent_config_overrides_path d) = Some ?n"
    unfolding agent_config_overrides_path_def
    by (rule file_name_join) (simp_all add: is_separator_def drive_letter_def)
  then have "\<exists>q. with_extension (agent_config_overrides_path d) ''json.tmp'' = q @ ''json.tmp''"
    by (simp add: with_extension_def Let_def)
  moreover have "last (agent_config_overrides_path d) = CHR ''n''"
    by (simp add: agent_config_overrides_path_def join_path_last)
  ultimately show ?thesis by auto
qed

lemma overrides_written:
  assumes "write_agent_config_overrides sy template w = (Inr changed, w')"
    and "readable (sy_env sy) (agent_config_overrides_path (sy_dir sy))"
  shows "\<exists>body. w_files w' (agent_config_overrides_path (sy_dir sy)) = Some body \<and>
    cd_pretty (sy_codec sy) (case json_get ''agent_config'' template of Some (JObj m) \<Rightarrow> JObj m | _ \<Rightarrow> JObj []) =
      Inr body"
  using assms overrides_tmp [of "sy_dir sy"]
  by (auto simp: write_agent_config_overrides_def Let_def success_simps attempt_def read_file_def readable_def
      dest!: perform_done split: option.splits if_splits)

text \<open>The server's configuration settles: once it was written, or found unchanged, the same template
changes nothing more and asks for no restart, whatever happened to other files in between, so that the agent
does not restart in a loop.\<close>

theorem overrides_settle:
  assumes "readable (sy_env sy) (agent_config_overrides_path (sy_dir sy))"
    and "write_agent_config_overrides sy template w = (Inr changed, w')"
    and "w_files w2 (agent_config_overrides_path (sy_dir sy)) = w_files w' (agent_config_overrides_path (sy_dir sy))"
  shows "write_agent_config_overrides sy template w2 = (Inr False, w2)"
proof -
  from overrides_written [OF assms(2,1)] obtain body
    where "w_files w' (agent_config_overrides_path (sy_dir sy)) = Some body"
      and "cd_pretty (sy_codec sy) (case json_get ''agent_config'' template of Some (JObj m) \<Rightarrow> JObj m | _ \<Rightarrow> JObj []) =
        Inr body" by blast
  with assms(1,3) show ?thesis
    by (simp add: write_agent_config_overrides_def Let_def seq_def blame_def lift_result_def attempt_def
        read_file_def readable_def give_def)
qed

section \<open>Examples\<close>

text \<open>A server with profile 3, whose template either has no rules or cannot be decoded, and a library that
reads and writes just what these exchanges need.\<close>

definition sync_meta :: profile_metadata where
  "sync_meta = \<lparr>pf_profile_id = ''p'', pf_version = 3, pf_hash = ''h'', pf_modules_required = []\<rparr>"

definition sync_template :: "bool \<Rightarrow> json" where
  "sync_template good = JObj [(''rules'', if good then JArr [] else JNull)]"

definition sync_codec :: "bool \<Rightarrow> codec" where
  "sync_codec good =
     \<lparr>cd_write = \<lambda>j. Inr [], cd_pretty = \<lambda>j. if j = persisted_json (persisted_of sync_meta) then Inr []
        else if j = sync_template good \<or> j = JObj [] then Inr [2] else Inl ''e'',
      cd_read = \<lambda>t. if t = [] then Inr (persisted_json (persisted_of sync_meta))
        else if t = ''m'' then Inr (JObj [(''profile_id'', JStr ''p''), (''version'', JInt 3), (''hash'', JStr ''h'')])
        else Inr (sync_template good),
      cd_shape_error = \<lambda>j. ''shape''\<rparr>"

definition sync_creds :: server_creds where
  "sync_creds = \<lparr>cr_server_url = ''s'', cr_agent_id = ''a'', cr_token = ''t''\<rparr>"

definition sync_env :: env where
  "sync_env =
     \<lparr>en_reply = \<lambda>h c. Inr \<lparr>re_status = 200, re_header = \<lambda>k. None,
        re_text = Inr (if hc_url c = ''s/api/v1/agents/a/profile'' then ''m'' else ''t''), re_data = [],
        re_broken = None\<rparr>,
      en_failure = \<lambda>h e. None, en_unreadable = \<lambda>h p. None, en_program = \<lambda>h prog args. Inl [], en_pipe = 0\<rparr>"

definition sample_sync :: "bool \<Rightarrow> sync_config" where
  "sample_sync good =
     \<lparr>sy_env = sync_env, sy_codec = sync_codec good, sy_creds = sync_creds, sy_dir = ''d'', sy_rules_path = None,
      sy_engine = False, sy_parse = \<lambda>s. Inr []\<rparr>"

definition fresh_state :: control_state where
  "fresh_state = \<lparr>cl_profile = default_profile, cl_stats = no_stats, cl_world = \<lparr>w_files = Map.empty, w_history = []\<rparr>\<rparr>"

lemma sample_sync_fields [simp]:
  "sy_env (sample_sync good) = sync_env" "sy_codec (sample_sync good) = sync_codec good"
  "sy_creds (sample_sync good) = sync_creds" "sy_dir (sample_sync good) = ''d''"
  "sy_rules_path (sample_sync good) = None" "sy_parse (sample_sync good) = (\<lambda>s. Inr [])"
  by (simp_all add: sample_sync_def)

lemma sync_reads: "reads_profiles (sync_codec good)" "readable sync_env p"
  by (auto simp: reads_profiles_def sync_codec_def readable_def sync_env_def sync_template_def persisted_json_def
      str_of_bytes_def)

lemma sync_perform: "perform sync_env e w = (Inr (), record_effect e True (w\<lparr>w_files := applied e (w_files w)\<rparr>))"
  by (simp add: perform_def sync_env_def)

lemma sync_unreadable: "en_unreadable sync_env h p = None"
  by (simp add: sync_env_def)

lemma sync_call:
  "exchange sync_env c w = (Inr \<lparr>re_status = 200, re_header = \<lambda>k. None,
     re_text = Inr (if hc_url c = ''s/api/v1/agents/a/profile'' then ''m'' else ''t''), re_data = [],
     re_broken = None\<rparr>, record_effect (Request c) True w)"
  by (simp add: exchange_def sync_env_def)

lemma sync_metadata:
  "\<exists>w'. get_profile_metadata sync_env (sync_codec good) sync_creds w = (Inr (Some sync_meta), w')"
proof -
  have "profile_metadata_of_json (JObj [(''profile_id'', JStr ''p''), (''version'', JInt 3), (''hash'', JStr ''h'')]) =
      Some sync_meta"
    by (simp add: profile_metadata_of_json_def get_str_def default_to_def sync_meta_def)
  then show ?thesis
    by (simp add: get_profile_metadata_def optional_get_def sync_call seq_def blame_def lift_result_def give_def
        get_call_def agent_url_def url_def sync_creds_def parse_as_def sync_codec_def str_of_bytes_def)
qed

lemma sync_template_got:
  "\<exists>w'. get_profile_template sync_env (sync_codec good) sync_creds ''p'' w = (Inr (sync_template good), w')"
  by (simp add: get_profile_template_def call_def sync_call seq_def blame_def lift_result_def get_call_def url_def
      sync_creds_def sync_codec_def str_of_bytes_def)

lemma sync_persist: "\<exists>changed w'. persist_profile (sample_sync good) sync_meta (sync_template good) w = (Inr changed, w')"
proof -
  have pretty: "cd_pretty (sync_codec good) (persisted_json (persisted_of sync_meta)) = Inr []"
      "cd_pretty (sync_codec good) (sync_template good) = Inr [2]"
    by (auto simp: sync_codec_def sync_template_def persisted_json_def)
  show ?thesis
    by (simp add: persist_profile_def persist_template_def Let_def seq_def blame_def lift_result_def attempt_def
        give_def sync_perform pretty case_prod_unfold)
qed

lemma sync_rules:
  "parse_template_rules c parse (sync_template True) = Inr ([], [])"
  "parse_template_rules c parse (sync_template False) = Inl (''decode template view: '' @
  cd_shape_error c (sync_template False))"
  by (simp_all add: parse_template_rules_def template_view_of_json_def sync_template_def default_to_def decode_list_def)


theorem restart_resumes_witness:
  "\<exists>st'. pull (sample_sync True) fresh_state = (Inr (), st') \<and> ps_version (cl_profile st') = 3 \<and>
     load_persisted (sample_sync True) (cl_world st') = (cl_profile st')\<lparr>ps_rule_errors := []\<rparr>"
proof -
  let ?w = "cl_world fresh_state"
  obtain w1 where w1: "get_profile_metadata sync_env (sync_codec True) sync_creds ?w = (Inr (Some sync_meta), w1)"
    using sync_metadata by blast
  obtain w2 where w2: "get_profile_template sync_env (sync_codec True) sync_creds ''p'' w1 = (Inr (sync_template True), w2)"
    using sync_template_got by blast
  obtain changed w3 where w3: "persist_profile (sample_sync True) sync_meta (sync_template True) w2 = (Inr changed, w3)"
    using sync_persist by blast
  obtain st' where st': "commit_profile sync_meta [] changed (fresh_state\<lparr>cl_world := w3\<rparr>) = (Inr (), st')"
    by (simp add: commit_profile_def Let_def)
  then have run: "pull (sample_sync True) fresh_state = (Inr (), st')"
    using w1 w2 w3
    by (simp add: pull_def seq_def on_world_def lift_result_def sync_rules apply_rules_def give_def sync_meta_def)
  have "cs_profile_syncs (cl_stats st') = 1" "ps_version (cl_profile st') = 3"
    using st' by (auto simp: commit_profile_def Let_def bump_profile_sync_def fresh_state_def no_stats_def sync_meta_def
        split: if_splits)
  moreover have "cl_stats st' \<noteq> cl_stats fresh_state"
    using \<open>cs_profile_syncs (cl_stats st') = 1\<close> by (auto simp: fresh_state_def no_stats_def)
  ultimately show ?thesis
    using run restart_resumes [of "sample_sync True" fresh_state st'] sync_reads by simp
qed

theorem failed_pull_is_remembered_witness:
  "\<exists>e st'. pull (sample_sync False) fresh_state = (Inl e, st') \<and> cl_profile st' = default_profile \<and>
     ps_version (load_persisted (sample_sync False) (cl_world st')) = 3"
proof -
  let ?w = "cl_world fresh_state"
  obtain w1 where w1: "get_profile_metadata sync_env (sync_codec False) sync_creds ?w = (Inr (Some sync_meta), w1)"
    using sync_metadata by blast
  obtain w2 where w2: "get_profile_template sync_env (sync_codec False) sync_creds ''p'' w1 = (Inr (sync_template False), w2)"
    using sync_template_got by blast
  obtain changed w3 where w3: "persist_profile (sample_sync False) sync_meta (sync_template False) w2 = (Inr changed, w3)"
    using sync_persist by blast
  have "pull (sample_sync False) fresh_state =
      (Inl (''decode template view: '' @
      cd_shape_error (sync_codec False) (sync_template False)), fresh_state\<lparr>cl_world := w3\<rparr>) \<and>
      ps_version (load_persisted (sample_sync False) w3) = pf_version sync_meta"
    by (rule failed_pull_is_remembered [OF _ _ _ _ w3])
       (use w1 w2 sync_reads in \<open>simp_all add: sync_rules sync_meta_def\<close>)
  then show ?thesis by (simp add: fresh_state_def sync_meta_def)
qed

theorem overrides_settle_witness:
  "\<exists>w'. write_agent_config_overrides (sample_sync True) (sync_template True) (cl_world fresh_state) = (Inr True, w') \<and>
     write_agent_config_overrides (sample_sync True) (sync_template True) w' = (Inr False, w')"
proof -
  have "cd_pretty (sync_codec True) (JObj []) = Inr [2]"
    by (simp add: sync_codec_def persisted_json_def)
  then obtain w' where w': "write_agent_config_overrides (sample_sync True) (sync_template True) (cl_world fresh_state) =
      (Inr True, w')"
    by (simp add: write_agent_config_overrides_def Let_def seq_def blame_def lift_result_def attempt_def give_def
        sync_perform sync_template_def read_file_def fresh_state_def sync_unreadable)
  have "readable (sy_env (sample_sync True)) (agent_config_overrides_path (sy_dir (sample_sync True)))"
    using sync_reads by simp
  from overrides_settle [OF this w' refl] w' show ?thesis by blast
qed

end
