(* ===== verification/Heartbeat.thy ===== *)
theory Heartbeat
  imports Firewall Assignment Sync
begin

text \<open>
  The heartbeat thread (\<open>src/src/control/heartbeat.rs\<close>), which is where the parts of the control plane
  meet: one beat reports the profile, executes and acknowledges the pending commands (theories Executor
  and Firewall), reconciles the plugins (theory Assignment) and pulls the profile when it is behind or
  when a command asks for it (theory Sync). Also the start of the control plane (\<open>spawn_control\<close> of
  \<open>src/src/control/mod.rs\<close>). The alerts thread shares only its counters with this one (theory Alerts).
\<close>

section \<open>One beat\<close>

definition AGENT_VERSION :: str where "AGENT_VERSION = ''0.1.0''"

definition beat_request :: "profile_state \<Rightarrow> heartbeat_request" where
  "beat_request p =
     \<lparr>hb_status = ''healthy'', hb_agent_version = AGENT_VERSION, hb_last_rule_version = 0,
      hb_profile_version = ps_version p, hb_modules_loaded = ps_modules_loaded p,
      hb_rule_errors = ps_rule_errors p, hb_metrics = None\<rparr>"

record beat_state =
  bt_control :: control_state
  bt_in_flight :: "str set"
  bt_interval :: nat

definition run_command :: "exec_host \<Rightarrow> sync_config \<Rightarrow> command \<Rightarrow> control_state \<Rightarrow> control_state" where
  "run_command xh sy cmd st =
     (case Firewall.execute xh cmd (cl_world st) of (outcome, w) \<Rightarrow>
        case ack_command (sy_env sy) (sy_codec sy) (sy_creds sy) (co_id cmd) (xr_status outcome)
               (xr_result outcome) w of
          (Inr _, w) \<Rightarrow> st\<lparr>cl_world := w, cl_stats := bump_command_acked (cl_stats st)\<rparr>
        | (Inl e, w) \<Rightarrow> st\<lparr>cl_world := w\<rparr>)"

definition forces_pull :: "command list \<Rightarrow> bool" where
  "forces_pull cmds \<longleftrightarrow> (\<exists>cmd\<in>set cmds. co_type cmd = ''update_rules'')"

text \<open>What follows an answered heartbeat: the commands, the plugins, the profile.\<close>

definition on_response ::
    "exec_host \<Rightarrow> 'h agent \<Rightarrow> sync_config \<Rightarrow> heartbeat_response \<Rightarrow> control_state \<Rightarrow> str set \<Rightarrow>
     control_state \<times> str set" where
  "on_response xh ag sy resp st in_flight =
     (let st = fold (run_command xh sy) (hr_pending_commands resp) st;
          (in_flight, w) = process_pending_plugins ag (hr_pending_plugins resp) (in_flight, cl_world st);
          st = st\<lparr>cl_world := w\<rparr>;
          st = (if ps_version (cl_profile st) < hr_current_profile_version resp \<or>
                   forces_pull (hr_pending_commands resp)
                then snd (pull sy st) else st)
      in (st, in_flight))"

definition beat :: "exec_host \<Rightarrow> 'h agent \<Rightarrow> sync_config \<Rightarrow> beat_state \<Rightarrow> beat_state" where
  "beat xh ag sy bt =
     (let st = bt_control bt in
      case heartbeat (sy_env sy) (sy_codec sy) (sy_creds sy) (beat_request (cl_profile st)) (cl_world st) of
        (Inl e, w) \<Rightarrow>
          bt\<lparr>bt_control := st\<lparr>cl_world := w, cl_stats := bump_heartbeat_failed (cl_stats st)\<rparr>\<rparr>
      | (Inr resp, w) \<Rightarrow>
          (let (st, in_flight) = on_response xh ag sy resp
             (st\<lparr>cl_world := w, cl_stats := bump_heartbeat_ok (cl_stats st)\<rparr>) (bt_in_flight bt)
           in bt\<lparr>bt_control := st, bt_in_flight := in_flight,
                 bt_interval := if 0 < hr_next_checkin_seconds resp then nat (hr_next_checkin_seconds resp)
                   else bt_interval bt\<rparr>))"

text \<open>The loop, for as many turns as are made before the shutdown.\<close>

primrec heartbeat_run :: "exec_host \<Rightarrow> 'h agent \<Rightarrow> sync_config \<Rightarrow> nat \<Rightarrow> beat_state \<Rightarrow> beat_state" where
  "heartbeat_run xh ag sy 0 bt = bt"
| "heartbeat_run xh ag sy (Suc n) bt = heartbeat_run xh ag sy n (beat xh ag sy bt)"

text \<open>The start: the profile comes from the disk; the second component says whether the alerts thread is
started.\<close>

definition spawn_control :: "sync_config \<Rightarrow> nat \<Rightarrow> bool \<Rightarrow> bool \<Rightarrow> world \<Rightarrow> beat_state \<times> bool" where
  "spawn_control sy interval send_alerts has_receiver w =
     (\<lparr>bt_control = \<lparr>cl_profile = load_persisted sy w, cl_stats = no_stats, cl_world = w\<rparr>,
       bt_in_flight = {}, bt_interval = interval\<rparr>, send_alerts \<and> has_receiver)"

section \<open>The history only grows\<close>

definition grows :: "world \<Rightarrow> world \<Rightarrow> bool" where "grows w w' \<longleftrightarrow> prefix (w_history w) (w_history w')"

lemma grows_refl [simp]: "grows w w" by (simp add: grows_def)

lemma grows_trans: "grows w w' \<Longrightarrow> grows w' w'' \<Longrightarrow> grows w w''"
  unfolding grows_def by (rule prefix_order.trans)

lemma grows_record [simp]: "grows w (record_effect e ok w)" by (simp add: grows_def)

lemma grows_files [simp]: "grows w (w'\<lparr>w_files := fs\<rparr>) = grows w w'" "grows (w\<lparr>w_files := fs\<rparr>) w' = grows w w'"
  by (simp_all add: grows_def)

lemma keeps_grows: "(\<And>h. keeps (extends h) m) \<Longrightarrow> m w = (r, w') \<Longrightarrow> grows w w'"
  by (metis extends_def grows_def keeps_iff prefix_order.refl snd_conv)

lemma perform_grows: "perform env e w = (r, w') \<Longrightarrow> grows w w'"
  by (rule keeps_grows [OF perform_extends])

lemma move_or_copy_grows: "move_or_copy env src dst w = (r, w') \<Longrightarrow> grows w w'"
proof (rule keeps_grows)
  show "keeps (extends h) (move_or_copy env src dst)" for h
    unfolding move_or_copy_def by (auto intro!: keeping split: sum.split)
qed

lemma sha256_same: "sha256_at env q w = (fst (sha256_at env q w), w)"
  using sha256_at_world [of env q w] by (metis prod.collapse)

lemma quarantine_hashed_grows: "quarantine_hashed xh q s v a w = (r, w') \<Longrightarrow> grows w w'"
  by (auto simp: quarantine_hashed_def Let_def split: if_splits prod.splits sum.splits
      dest!: perform_grows move_or_copy_grows intro: grows_trans)

lemma quarantine_grows: "grows w (snd (execute_quarantine_file xh p w))"
proof (cases "get_nonempty ''path'' p")
  case (Some path)
  show ?thesis
    by (subst execute_quarantine_file_def, subst sha256_same)
       (auto simp: Some split: sum.split intro: quarantine_hashed_grows prod.collapse [symmetric])
qed (simp add: execute_quarantine_file_def)

lemma launch_grows: "launch_installer xh u q s v n a w = (r, w') \<Longrightarrow> grows w w'"
  by (auto simp: launch_installer_def Let_def split: if_splits sum.splits
      intro: perform_grows [OF prod.collapse [symmetric]])

lemma download_to_file_grows: "download_to_file xh u q w = (r, w') \<Longrightarrow> grows w w'"
proof (rule keeps_grows)
  fix h
  have "keeps (extends h) (get_raw xh u)"
    by (auto simp: keeps_iff get_raw_def exchange_def extends_def split: sum.split prod.split)
  then show "keeps (extends h) (download_to_file xh u q)"
    unfolding download_to_file_def Let_def by (auto intro!: keeping split: option.split)
qed

lemma update_grows: "grows w (snd (execute_update_agent xh p w))"
proof (cases "get_nonempty ''download_url'' p")
  case (Some u)
  let ?q = "installer_path xh (w_history w)"
  obtain d w1 where d: "download_to_file xh u ?q w = (d, w1)" by fastforce
  note w1 = download_to_file_grows [OF d]
  have "grows w1 (snd (perform (xh_env xh) (Delete_file ?q) w1))"
    by (rule perform_grows [OF prod.collapse [symmetric]])
  moreover have "grows w1 (snd (launch_installer xh u ?q s v n a w1))" for s v n a
    by (rule launch_grows [OF prod.collapse [symmetric]])
  ultimately show ?thesis
    using w1 Some d
    by (subst execute_update_agent_def, subst sha256_same)
       (auto simp: Let_def split: sum.split intro: grows_trans)
qed (simp add: execute_update_agent_def)

lemma invoke_grows: "grows (snd s) (snd (invoke (netsh_invoke xh args) s))"
  using netsh_invoke_report [of xh args "snd s"] by (auto simp: invoke_def grows_def)

lemma isolate_grows: "grows w (snd (execute_isolate xh p w))"
  using isolate_runs [OF prod.collapse [symmetric], of xh p w] by (auto simp: grows_def)

lemma unisolate_grows: "grows w (snd (execute_unisolate xh w))"
proof -
  have marker: "snd (marker entries s) = snd s" "snd (phase n s) = snd s" for entries n s
    by (simp_all add: marker_def phase_def)
  have "grows (snd s) (snd (restore xh s))" for s
  proof -
    define w1 where "w1 = snd (invoke (netsh_invoke xh [''advfirewall'', ''import'', isolation_backup_path xh])
      (marker [(''step'', JStr ''import_backup''), (''path'', JStr (isolation_backup_path xh))] s))"
    have "grows (snd s) w1" using invoke_grows [of "marker _ s"] unfolding w1_def marker .
    moreover have "grows w1 (snd (perform (xh_env xh) (Delete_file (isolation_backup_path xh)) w1))"
      by (rule perform_grows [OF prod.collapse [symmetric]])
    ultimately show ?thesis
      by (auto simp: restore_def Let_def marker w1_def [symmetric] split: prod.split sum.split intro: grows_trans)
  qed
  moreover have "grows (snd s) (snd (fall_back xh s))" for s
    unfolding fall_back_def Let_def marker
    by (rule grows_trans [OF grows_trans [OF _ invoke_grows] invoke_grows]) (metis invoke_grows marker(1))
  ultimately show ?thesis by (auto simp: execute_unisolate_def Let_def case_prod_unfold)
qed

lemma execute_grows: "grows w (snd (Firewall.execute xh cmd w))"
proof -
  have "grows w (snd (execute_kill_process xh p w))" for p
    by (simp add: execute_kill_process_def Let_def split: option.split kill_outcome.split)
  moreover have "grows w (snd (execute_scan_now xh p w))" for p
    by (simp add: execute_scan_now_def Let_def split: prod.split)
  moreover have "grows w (snd (execute_run_shell xh p w))" for p
    by (simp add: execute_run_shell_def Let_def case_prod_unfold split: option.split shell_child.split)
  ultimately show ?thesis
    using quarantine_grows update_grows isolate_grows unisolate_grows
    by (simp add: Firewall.execute_def Let_def no_op_ack_def)
qed

text \<open>The handlers of the plugins.\<close>

lemma optional_get_extends: "keeps (extends h) (optional_get env c cr u reading parsing decode)"
  by (rule optional_get_keeps) (simp add: extends_def)

lemma download_all_extends: "keeps (extends h) (download_all ag pkg info)"
  unfolding keeps_iff extends_def
  by (metis download_all_history prefix_order.trans prod.collapse)

lemma report_extends: "keeps (extends h) (report ag pkg ph v i e)"
  unfolding report_def report_plugin_status_def by (intro keeping)

lemma info_extends: "keeps (extends h) (plugin_info_for ag pkg)"
  unfolding plugin_info_for_def get_plugin_info_def
  by (auto intro!: keeping optional_get_extends split: option.split)

lemma invoke_extends: "keeps (extends h) (invoke_wedr_plugin ag args)"
proof -
  have "keeps (extends h) (resolve_wedr_plugin_exe ag)"
    by (auto simp: keeps_iff resolve_wedr_plugin_exe_def Let_def split: option.split)
  then show ?thesis unfolding invoke_wedr_plugin_def by (intro keeping)
qed

lemma enroll_extends: "keeps (extends h) (invoke_enroll ag p info)"
  unfolding invoke_enroll_def by (auto intro!: keeping invoke_extends split: option.split)

lemmas handler_extends = report_extends info_extends download_all_extends invoke_extends enroll_extends

lemma install_extends: "keeps (extends h) (handle_install ag a)"
  unfolding handle_install_def Let_def by (intro keeping handler_extends)

lemma update_extends: "keeps (extends h) (handle_update ag a)"
  unfolding handle_update_def kill_running_plugin_processes_def Let_def
  by (auto intro!: keeping handler_extends split: option.split)

lemma revoke_extends: "keeps (extends h) (handle_revoke ag a)"
proof -
  have "keeps (extends h) (read_manifest_expected_path ag i)" for i
    unfolding read_manifest_expected_path_def Let_def by (auto intro!: keeping split: option.split)
  then show ?thesis
    unfolding handle_revoke_def by (auto intro!: keeping handler_extends split: option.split sum.split)
qed

lemma process_action_grows: "grows w (process_action ag a w)"
proof -
  have failed: "grows w1 (snd (report ag pkg ph v i e w1))" for w1 pkg ph v i e
    by (rule keeps_grows [OF report_extends prod.collapse [symmetric]])
  have "handler w = (r, w1) \<Longrightarrow> handler \<in> {handle_install ag a, handle_update ag a, handle_revoke ag a} \<Longrightarrow>
      grows w w1" for handler r w1
    using keeps_grows [OF install_extends] keeps_grows [OF update_extends] keeps_grows [OF revoke_extends] by blast
  then show ?thesis
    using grows_trans [OF _ failed] by (auto simp: process_action_def Let_def split: prod.split sum.split)
qed

lemma plugins_grow: "grows w (snd (process_pending_plugins ag as (held, w)))"
proof -
  have "grows w (fold (process_action ag) as w)" for as
    by (induction as arbitrary: w) (auto intro: grows_trans process_action_grows)
  then show ?thesis by (auto simp: process_pending_plugins_def split: prod.split)
qed

text \<open>The pull.\<close>

lemma on_world_extends:
  "keeps (extends h) m \<Longrightarrow> keeps (\<lambda>st. extends h (cl_world st)) (on_world m)"
  by (auto simp: keeps_iff on_world_def split: prod.split)

lemma write_overrides_extends: "keeps (extends h) (write_agent_config_overrides sy t)"
  unfolding write_agent_config_overrides_def Let_def by (intro keeping)

lemma persist_extends: "keeps (extends h) (persist_profile sy meta t)"
  unfolding persist_profile_def persist_template_def Let_def by (intro keeping write_overrides_extends)

lemma apply_rules_extends: "keeps (extends h) (apply_rules sy rules v)"
  unfolding apply_rules_def write_accepted_rules_def Let_def
  by (auto intro!: keeping split: option.split sum.split)

lemma pull_extends: "keeps (\<lambda>st. extends h (cl_world st)) (pull sy)"
proof -
  have "keeps (extends h) (get_profile_metadata env c cr)" for env c cr
    unfolding get_profile_metadata_def by (rule optional_get_extends)
  moreover have "keeps (extends h) (get_profile_template env c cr i)" for env c cr i
    unfolding get_profile_template_def by (intro keeping)
  moreover have "keeps (\<lambda>st. extends h (cl_world st)) (commit_profile meta errors changed)" for meta errors changed
    by (auto simp: keeps_iff commit_profile_def Let_def extends_def)
  ultimately show ?thesis
    unfolding pull_def
    by (auto intro!: keeping on_world_extends persist_extends apply_rules_extends split: option.split prod.split)
qed

lemma pull_grows: "grows (cl_world st) (cl_world (snd (pull sy st)))"
  using pull_extends [of "w_history (cl_world st)" sy] by (simp add: keeps_iff extends_def grows_def)

section \<open>Every command is answered\<close>

definition ack_json :: "execution_result \<Rightarrow> json" where
  "ack_json outcome = JObj [(''status'', JStr (xr_status outcome)), (''result'', xr_result outcome)]"

definition ack_request :: "server_creds \<Rightarrow> (json \<Rightarrow> bytes) \<Rightarrow> command \<Rightarrow> execution_result \<Rightarrow> effect" where
  "ack_request cr ser cmd outcome =
     Request (post_call cr (agent_url cr (''/commands/'' @ co_id cmd @ ''/ack'')) (ser (ack_json outcome)))"

lemma run_command_answers:
  assumes "serialises (sy_codec sy) ser"
  shows "\<exists>outcome w1 ok. Firewall.execute xh cmd (cl_world st) = (outcome, w1) \<and>
    w_history (cl_world (run_command xh sy cmd st)) = w_history w1 @ [(ack_request (sy_creds sy) ser cmd outcome, ok)]"
proof -
  obtain outcome w1 where e: "Firewall.execute xh cmd (cl_world st) = (outcome, w1)" by fastforce
  obtain a w2 where a: "ack_command (sy_env sy) (sy_codec sy) (sy_creds sy) (co_id cmd) (xr_status outcome)
      (xr_result outcome) w1 = (a, w2)" by fastforce
  have "\<exists>ok. w_history w2 = w_history w1 @ [(ack_request (sy_creds sy) ser cmd outcome, ok)]"
    using a assms
    by (auto simp: ack_command_def ack_json_def ack_request_def serialises_def seq_def blame_def lift_result_def
        call_def exchange_def give_def split: sum.splits if_splits)
  with e a show ?thesis by (cases a) (simp_all add: run_command_def)
qed

lemma commands_answered:
  assumes "serialises (sy_codec sy) ser"
  shows "\<exists>outcomes oks. length outcomes = length cmds \<and> length oks = length cmds \<and>
    (\<forall>i<length cmds. \<exists>w. grows (cl_world st) w \<and> outcomes ! i = fst (Firewall.execute xh (cmds ! i) w)) \<and>
    (\<exists>h. w_history (cl_world (fold (run_command xh sy) cmds st)) = w_history (cl_world st) @ h \<and>
       subseq (zip (map2 (ack_request (sy_creds sy) ser) cmds outcomes) oks) h)"
proof (induction cmds arbitrary: st)
  case Nil
  then show ?case by simp
next
  case (Cons cmd cmds)
  let ?st = "run_command xh sy cmd st"
  obtain outcome w1 ok where one: "Firewall.execute xh cmd (cl_world st) = (outcome, w1)"
      "w_history (cl_world ?st) = w_history w1 @ [(ack_request (sy_creds sy) ser cmd outcome, ok)]"
    using run_command_answers [OF assms] by blast
  then obtain h1 where h1: "w_history w1 = w_history (cl_world st) @ h1"
    using execute_grows [of "cl_world st" xh cmd] by (auto simp: grows_def prefix_def)
  obtain outcomes oks h where rest: "length outcomes = length cmds" "length oks = length cmds"
      "\<forall>i<length cmds. \<exists>w. grows (cl_world ?st) w \<and> outcomes ! i = fst (Firewall.execute xh (cmds ! i) w)"
      "w_history (cl_world (fold (run_command xh sy) cmds ?st)) = w_history (cl_world ?st) @ h"
      "subseq (zip (map2 (ack_request (sy_creds sy) ser) cmds outcomes) oks) h"
    using Cons.IH [of ?st] by blast
  have st: "grows (cl_world st) (cl_world ?st)" using one(2) h1 by (simp add: grows_def)
  let ?ack = "(ack_request (sy_creds sy) ser cmd outcome, ok)"
  have "subseq (?ack # zip (map2 (ack_request (sy_creds sy) ser) cmds outcomes) oks) (h1 @ ?ack # h)"
    using rest(5) by (simp add: list_emb_append2)
  moreover have "\<forall>i<length (cmd # cmds). \<exists>w. grows (cl_world st) w \<and>
      (outcome # outcomes) ! i = fst (Firewall.execute xh ((cmd # cmds) ! i) w)"
  proof (intro allI impI)
    fix i assume i: "i < length (cmd # cmds)"
    show "\<exists>w. grows (cl_world st) w \<and> (outcome # outcomes) ! i = fst (Firewall.execute xh ((cmd # cmds) ! i) w)"
    proof (cases i)
      case 0
      with one(1) show ?thesis by (intro exI [of _ "cl_world st"]) simp
    next
      case (Suc j)
      with rest(3) i obtain w where "grows (cl_world ?st) w" "outcomes ! j = fst (Firewall.execute xh (cmds ! j) w)"
        by auto
      with Suc grows_trans [OF st] show ?thesis by auto
    qed
  qed
  ultimately show ?case
    using rest(1,2,4) one(2) h1
    by (intro exI [of _ "outcome # outcomes"] exI [of _ "ok # oks"]) auto
qed


section \<open>When the profile is pulled\<close>

lemma run_command_profile [simp]: "cl_profile (fold (run_command xh sy) cmds st) = cl_profile st"
proof -
  have "cl_profile (run_command xh sy cmd st) = cl_profile st" for cmd st
    by (auto simp: run_command_def split: prod.split sum.split)
  then show ?thesis by (induction cmds arbitrary: st) auto
qed

text \<open>The server never reports a version above the agent's, and sends no \<open>update_rules\<close>.\<close>

definition nothing_newer :: "sync_config \<Rightarrow> int \<Rightarrow> bool" where
  "nothing_newer sy v \<longleftrightarrow>
     (\<forall>req w resp w'. heartbeat (sy_env sy) (sy_codec sy) (sy_creds sy) req w = (Inr resp, w') \<longrightarrow>
        hr_current_profile_version resp \<le> v \<and> \<not> forces_pull (hr_pending_commands resp))"

lemma beat_profile:
  assumes "nothing_newer sy v" and "v \<le> ps_version (cl_profile (bt_control bt))"
  shows "cl_profile (bt_control (beat xh ag sy bt)) = cl_profile (bt_control bt)"
proof (cases "fst (heartbeat (sy_env sy) (sy_codec sy) (sy_creds sy) (beat_request (cl_profile (bt_control bt)))
    (cl_world (bt_control bt)))")
  case (Inl e)
  then show ?thesis by (simp add: beat_def case_prod_unfold Let_def)
next
  case (Inr resp)
  then have "hr_current_profile_version resp \<le> v" "\<not> forces_pull (hr_pending_commands resp)"
    using assms(1) unfolding nothing_newer_def by (metis prod.collapse)+
  with Inr assms(2) show ?thesis
    by (simp add: beat_def on_response_def case_prod_unfold Let_def)
qed

text \<open>A profile version that the agent has on disk is never synchronised again: an agent that starts from
a persisted version stays with what it has through any number of beats, as long as the server reports no
newer version and nobody asks for the rules, even if the pull that wrote this version failed before the rules
were applied.\<close>

theorem persisted_version_is_not_pulled_again:
  assumes "nothing_newer sy (ps_version (load_persisted sy w))"
  shows "cl_profile (bt_control (heartbeat_run xh ag sy n (fst (spawn_control sy interval send_alerts has_receiver w)))) =
    load_persisted sy w"
proof -
  have "cl_profile (bt_control (heartbeat_run xh ag sy n bt)) = load_persisted sy w"
    if "cl_profile (bt_control bt) = load_persisted sy w" for bt
    using that
  proof (induction n arbitrary: bt)
    case (Suc n)
    with beat_profile [OF assms, of bt xh ag] show ?case by simp
  qed simp
  then show ?thesis by (simp add: spawn_control_def)
qed

text \<open>A heartbeat that gets no valid answer has no consequence but its request and its counter: no command
runs, no plugin is touched, the profile and the interval stay, and no file changes.\<close>

theorem failed_heartbeat_is_harmless:
  assumes "heartbeat (sy_env sy) (sy_codec sy) (sy_creds sy) (beat_request (cl_profile (bt_control bt)))
      (cl_world (bt_control bt)) = (Inl e, w)"
  shows "beat xh ag sy bt = bt\<lparr>bt_control := (bt_control bt)\<lparr>cl_world := w,
      cl_stats := bump_heartbeat_failed (cl_stats (bt_control bt))\<rparr>\<rparr> \<and>
    w_files w = w_files (cl_world (bt_control bt))"
proof -
  have "keeps (frame (\<lambda>p. False) fs) (heartbeat env c cr req)" for fs env c cr req
    unfolding heartbeat_def by (intro keeping)
  then have "frame (\<lambda>p. False) (w_files (cl_world (bt_control bt))) w"
    using assms by (auto simp: keeps_iff frame_def) (metis snd_conv)
  then have "w_files w = w_files (cl_world (bt_control bt))" by (auto simp: frame_def)
  with assms show ?thesis by (simp add: beat_def Let_def)
qed

section \<open>Examples\<close>

text \<open>A server that answers every heartbeat with one command.\<close>

definition beat_json :: json where
  "beat_json =
     JObj [(''pending_commands'', JArr [JObj [(''id'', JStr ''c1''), (''type'', JStr ''restart_module'')]]),
           (''next_checkin_seconds'', JInt 60)]"

definition beat_codec :: codec where
  "beat_codec = \<lparr>cd_write = \<lambda>j. Inr [0x7B], cd_pretty = \<lambda>j. Inr [0x7B], cd_read = \<lambda>t. Inr beat_json, cd_shape_error = \<lambda>j. []\<rparr>"

definition beat_sync :: sync_config where
  "beat_sync = (sample_sync True)\<lparr>sy_codec := beat_codec\<rparr>"

definition beat_start :: beat_state where
  "beat_start = \<lparr>bt_control = fresh_state, bt_in_flight = {}, bt_interval = 30\<rparr>"

definition beat_response :: heartbeat_response where
  "beat_response =
     \<lparr>hr_server_time = [], hr_current_profile_version = 0,
      hr_pending_commands = [\<lparr>co_id = ''c1'', co_type = ''restart_module'', co_payload = JNull\<rparr>],
      hr_pending_plugins = [], hr_next_checkin_seconds = 60\<rparr>"

lemma beat_answer:
  "heartbeat (sy_env beat_sync) (sy_codec beat_sync) (sy_creds beat_sync) req w =
     (Inr beat_response, record_effect (Request (post_call sync_creds (agent_url sync_creds ''/heartbeat'') [0x7B])) True w)"
proof -
  have "heartbeat_response_of_json beat_json = Some beat_response"
    by (simp add: heartbeat_response_of_json_def beat_json_def beat_response_def default_to_def decode_list_def
        command_of_json_def get_str_def)
  then show ?thesis
    by (simp add: heartbeat_def beat_sync_def sample_sync_def beat_codec_def seq_def blame_def lift_result_def
        call_def sync_call parse_as_def)
qed

lemma beat_sync_quiet: "nothing_newer beat_sync v \<longleftrightarrow> 0 \<le> v"
  by (auto simp: nothing_newer_def beat_answer beat_response_def forces_pull_def)


theorem persisted_version_is_not_pulled_again_witness:
  "cl_profile (bt_control (heartbeat_run sample_exec_host sample_agent beat_sync 3
     (fst (spawn_control beat_sync 30 True True (cl_world fresh_state))))) = default_profile"
proof -
  have "load_persisted beat_sync (cl_world fresh_state) = default_profile"
    by (simp add: load_persisted_def read_file_def fresh_state_def beat_sync_def sample_sync_def sync_unreadable)
  then show ?thesis
    using persisted_version_is_not_pulled_again [of beat_sync "cl_world fresh_state" sample_exec_host sample_agent 3 30 True True]
    by (simp add: beat_sync_quiet default_profile_def)
qed

theorem failed_heartbeat_is_harmless_witness:
  "bt_interval (beat sample_exec_host sample_agent (beat_sync\<lparr>sy_codec := sy_codec beat_sync\<lparr>cd_read := Inl\<rparr>\<rparr>) beat_start) = 30"
proof -
  let ?sy = "beat_sync\<lparr>sy_codec := sy_codec beat_sync\<lparr>cd_read := Inl\<rparr>\<rparr>"
  obtain e w where "heartbeat (sy_env ?sy) (sy_codec ?sy) (sy_creds ?sy) (beat_request (cl_profile (bt_control beat_start)))
      (cl_world (bt_control beat_start)) = (Inl e, w)"
    by (simp add: heartbeat_def beat_sync_def sample_sync_def beat_codec_def seq_def blame_def lift_result_def
        call_def sync_call parse_as_def)
  from failed_heartbeat_is_harmless [OF this, of sample_exec_host sample_agent] show ?thesis
    by (simp add: beat_start_def)
qed

end
