(* ===== verification/Config.thy ===== *)
theory Config
  imports Credentials Etw Emission_Filter Heartbeat "HOL-Library.Monad_Syntax"
begin

text \<open>
  The configuration (\<open>src/src/config.rs\<close>) and the enrollment it triggers (\<open>src/src/shipper/enroll.rs\<close>):
  the file \<open>agent.json\<close> and its sections, the server's overrides that are merged into it, the resolution of
  each section with its defaults, the skeleton that a first start writes, and the credentials that an
  enrollment stores in the file. Files and requests are those of the theory Effects, \<open>serde_json\<close> is the
  record \<open>codec\<close>, and \<open>ProgramData\<close> is a Unicode text. A path in an error message is written as it is.
\<close>

section \<open>What is resolved\<close>

record agent_config =
  ac_spool_dir :: str
  ac_max_bytes_per_file :: nat
  ac_max_age :: millis
  ac_max_total_bytes :: nat
  ac_channel_capacity :: nat
  ac_zstd_level :: int
  ac_console_output :: bool

record control_config =
  cc_heartbeat_interval :: millis
  cc_send_alerts :: bool

record detection_config =
  dc_rules_path :: str
  dc_server_rules_path :: "str option"
  dc_schema_path :: "str option"
  dc_default_window :: millis
  dc_reload_interval :: millis

record polling_config =
  po_services :: bool
  po_scheduled_tasks :: bool
  po_interval :: millis
  po_silent_first_snapshot :: bool

record app_config =
  app_agent :: agent_config
  app_shipper :: "shipper_config option"
  app_filter :: "filter_section option"
  app_detection :: "detection_config option"
  app_control :: "control_config option"
  app_etw :: "etw_config option"
  app_polling :: "polling_config option"

text \<open>The host: the file system and the network, the library, two variables and the DPAPI call.\<close>

record config_host =
  ch_env :: env
  ch_codec :: codec
  ch_program_data :: "str option"
  ch_computername :: "str option"
  ch_dpapi :: "bytes \<Rightarrow> str + bytes"

definition base_dir :: "config_host \<Rightarrow> str" where
  "base_dir h = (case ch_program_data h of Some d \<Rightarrow> d | None \<Rightarrow> ''C:'' @ [CHR 0x5C] @ ''ProgramData'')"

definition default_path :: "config_host \<Rightarrow> str" where
  "default_path h = join_path (base_dir h) (''WazabiEDR'' @ [CHR 0x5C] @ ''agent.json'')"

definition default_spool_dir :: "config_host \<Rightarrow> str" where
  "default_spool_dir h = join_path (join_path (base_dir h) ''WazabiEDR'') ''spool''"

definition default_rules_path :: "config_host \<Rightarrow> str" where
  "default_rules_path h = join_path (join_path (join_path (base_dir h) ''WazabiEDR'') ''rules'') ''main.waza''"

definition default_server_rules_path :: "config_host \<Rightarrow> str" where
  "default_server_rules_path h =
     join_path (join_path (join_path (base_dir h) ''WazabiEDR'') ''rules'') ''server.waza''"

definition default_agent :: "config_host \<Rightarrow> agent_config" where
  "default_agent h = \<lparr>ac_spool_dir = default_spool_dir h, ac_max_bytes_per_file = 1024 * 1024,
     ac_max_age = 10000, ac_max_total_bytes = 256 * 1024 * 1024, ac_channel_capacity = 1024,
     ac_zstd_level = 3, ac_console_output = False\<rparr>"

definition default_control :: control_config where
  "default_control = \<lparr>cc_heartbeat_interval = 60000, cc_send_alerts = True\<rparr>"

definition default_detection :: "config_host \<Rightarrow> detection_config" where
  "default_detection h = \<lparr>dc_rules_path = default_rules_path h,
     dc_server_rules_path = Some (default_server_rules_path h), dc_schema_path = None,
     dc_default_window = 5000, dc_reload_interval = 5000\<rparr>"

definition default_polling :: polling_config where
  "default_polling = \<lparr>po_services = True, po_scheduled_tasks = True, po_interval = 30000,
     po_silent_first_snapshot = True\<rparr>"

section \<open>What is in the file\<close>

record agent_section =
  ra_console_output :: "bool option"
  ra_spool_dir :: "str option"
  ra_max_bytes_per_file :: "nat option"
  ra_max_age_secs :: "nat option"
  ra_max_total_bytes :: "nat option"
  ra_channel_capacity :: "nat option"
  ra_zstd_level :: "int option"

record etw_section =
  rw_enabled :: "bool option"
  rw_dns :: "bool option"
  rw_tcp :: "bool option"
  rw_powershell :: "bool option"
  rw_wmi :: "bool option"
  rw_schannel :: "bool option"
  rw_amsi :: "bool option"

record polling_section =
  rp_enabled :: "bool option"
  rp_services :: "bool option"
  rp_scheduled_tasks :: "bool option"
  rp_interval_secs :: "nat option"
  rp_silent_first_snapshot :: "bool option"

record control_section =
  rc_enabled :: "bool option"
  rc_heartbeat_interval_secs :: "nat option"
  rc_send_alerts :: "bool option"

record detection_section =
  rd_enabled :: "bool option"
  rd_rules_path :: "str option"
  rd_server_rules_path :: "str option"
  rd_schema_path :: "str option"
  rd_default_window_secs :: "nat option"
  rd_reload_interval_secs :: "nat option"

record config_file =
  cf_agent :: "agent_section option"
  cf_shipper :: "shipper_section option"
  cf_filter :: "filter_section option"
  cf_detection :: "detection_section option"
  cf_control :: "control_section option"
  cf_etw :: "etw_section option"
  cf_polling :: "polling_section option"

text \<open>A field of type \<open>Option\<close>: absent and null are \<open>None\<close>, another type is an error.\<close>

definition optional :: "(json \<Rightarrow> 'a option) \<Rightarrow> str \<Rightarrow> json \<Rightarrow> 'a option option" where
  "optional decode k j =
     (case json_get k j of
        None \<Rightarrow> Some None
      | Some v \<Rightarrow> if v = JNull then Some None else map_option Some (decode v))"

definition as_i32 :: "json \<Rightarrow> int option" where
  "as_i32 j = (case j of JInt i \<Rightarrow> if - (2 ^ 31) \<le> i \<and> i < 2 ^ 31 then Some i else None | _ \<Rightarrow> None)"

definition agent_section_of_json :: "json \<Rightarrow> agent_section option" where
  "agent_section_of_json j = do {
     _ \<leftarrow> as_object j;
     a \<leftarrow> optional as_bool ''console_output'' j; b \<leftarrow> optional as_str ''spool_dir'' j;
     c \<leftarrow> optional as_u64 ''max_bytes_per_file'' j; d \<leftarrow> optional as_u64 ''max_age_secs'' j;
     e \<leftarrow> optional as_u64 ''max_total_bytes'' j; f \<leftarrow> optional as_u64 ''channel_capacity'' j;
     g \<leftarrow> optional as_i32 ''zstd_level'' j;
     Some \<lparr>ra_console_output = a, ra_spool_dir = b, ra_max_bytes_per_file = c, ra_max_age_secs = d,
           ra_max_total_bytes = e, ra_channel_capacity = f, ra_zstd_level = g\<rparr> }"

definition etw_section_of_json :: "json \<Rightarrow> etw_section option" where
  "etw_section_of_json j = do {
     _ \<leftarrow> as_object j;
     a \<leftarrow> optional as_bool ''enabled'' j; b \<leftarrow> optional as_bool ''dns'' j;
     c \<leftarrow> optional as_bool ''tcp'' j; d \<leftarrow> optional as_bool ''powershell'' j;
     e \<leftarrow> optional as_bool ''wmi'' j; f \<leftarrow> optional as_bool ''schannel'' j;
     g \<leftarrow> optional as_bool ''amsi'' j;
     Some \<lparr>rw_enabled = a, rw_dns = b, rw_tcp = c, rw_powershell = d, rw_wmi = e, rw_schannel = f,
           rw_amsi = g\<rparr> }"

definition polling_section_of_json :: "json \<Rightarrow> polling_section option" where
  "polling_section_of_json j = do {
     _ \<leftarrow> as_object j;
     a \<leftarrow> optional as_bool ''enabled'' j; b \<leftarrow> optional as_bool ''services'' j;
     c \<leftarrow> optional as_bool ''scheduled_tasks'' j; d \<leftarrow> optional as_u64 ''interval_secs'' j;
     e \<leftarrow> optional as_bool ''silent_first_snapshot'' j;
     Some \<lparr>rp_enabled = a, rp_services = b, rp_scheduled_tasks = c, rp_interval_secs = d,
           rp_silent_first_snapshot = e\<rparr> }"

definition control_section_of_json :: "json \<Rightarrow> control_section option" where
  "control_section_of_json j = do {
     _ \<leftarrow> as_object j;
     a \<leftarrow> optional as_bool ''enabled'' j; b \<leftarrow> optional as_u64 ''heartbeat_interval_secs'' j;
     c \<leftarrow> optional as_bool ''send_alerts'' j;
     Some \<lparr>rc_enabled = a, rc_heartbeat_interval_secs = b, rc_send_alerts = c\<rparr> }"

definition detection_section_of_json :: "json \<Rightarrow> detection_section option" where
  "detection_section_of_json j = do {
     _ \<leftarrow> as_object j;
     a \<leftarrow> optional as_bool ''enabled'' j; b \<leftarrow> optional as_str ''rules_path'' j;
     c \<leftarrow> optional as_str ''server_rules_path'' j; d \<leftarrow> optional as_str ''schema_path'' j;
     e \<leftarrow> optional as_u64 ''default_window_secs'' j; f \<leftarrow> optional as_u64 ''reload_interval_secs'' j;
     Some \<lparr>rd_enabled = a, rd_rules_path = b, rd_server_rules_path = c, rd_schema_path = d,
           rd_default_window_secs = e, rd_reload_interval_secs = f\<rparr> }"

definition filter_section_of_json :: "json \<Rightarrow> filter_section option" where
  "filter_section_of_json j = do {
     _ \<leftarrow> as_object j;
     a \<leftarrow> default_to [] (decode_list as_str) ''modules'' j;
     b \<leftarrow> default_to [] (decode_list as_str) ''event_types'' j;
     Some \<lparr>sec_modules = a, sec_event_types = b\<rparr> }"

definition shipper_section_of_json :: "json \<Rightarrow> shipper_section option" where
  "shipper_section_of_json j = do {
     _ \<leftarrow> as_object j;
     a \<leftarrow> default_to True as_bool ''enabled'' j; b \<leftarrow> optional as_str ''server_url'' j;
     c \<leftarrow> optional as_str ''agent_id'' j; d \<leftarrow> optional as_str ''tenant_id'' j;
     e \<leftarrow> default_env ''tags'' j; f \<leftarrow> optional as_str ''token_encrypted_b64'' j;
     g \<leftarrow> optional as_str ''token_plain'' j; i \<leftarrow> optional as_str ''enrollment_token'' j;
     k \<leftarrow> default_to True as_bool ''verify_tls'' j;
     l \<leftarrow> default_to default_timeout_secs as_u64 ''timeout_secs'' j;
     m \<leftarrow> default_to default_poll_interval_secs as_u64 ''poll_interval_secs'' j;
     n \<leftarrow> default_to default_max_backoff_secs as_u64 ''max_backoff_secs'' j;
     Some \<lparr>ss_enabled = a, ss_server_url = b, ss_agent_id = c, ss_tenant_id = d, ss_tags = e,
           ss_token_encrypted_b64 = f, ss_token_plain = g, ss_enrollment_token = i, ss_verify_tls = k,
           ss_timeout_secs = l, ss_poll_interval_secs = m, ss_max_backoff_secs = n\<rparr> }"

definition config_file_of_json :: "json \<Rightarrow> config_file option" where
  "config_file_of_json j = do {
     _ \<leftarrow> as_object j;
     a \<leftarrow> optional agent_section_of_json ''agent'' j;
     s \<leftarrow> optional shipper_section_of_json ''shipper'' j;
     f \<leftarrow> optional filter_section_of_json ''filter'' j;
     d \<leftarrow> optional detection_section_of_json ''detection'' j;
     c \<leftarrow> optional control_section_of_json ''control'' j;
     e \<leftarrow> optional etw_section_of_json ''etw'' j;
     p \<leftarrow> optional polling_section_of_json ''polling'' j;
     Some \<lparr>cf_agent = a, cf_shipper = s, cf_filter = f, cf_detection = d, cf_control = c, cf_etw = e,
           cf_polling = p\<rparr> }"

section \<open>Resolution\<close>

definition or_default :: "'a option \<Rightarrow> 'a \<Rightarrow> 'a" where
  "or_default v d = (case v of Some x \<Rightarrow> x | None \<Rightarrow> d)"

lemma or_default_simps [simp]: "or_default (Some x) d = x" "or_default None d = d"
  by (simp_all add: or_default_def)

definition resolve_agent :: "config_host \<Rightarrow> agent_section \<Rightarrow> agent_config" where
  "resolve_agent h s =
     (let d = default_agent h in
      \<lparr>ac_spool_dir = or_default (ra_spool_dir s) (ac_spool_dir d),
       ac_max_bytes_per_file = or_default (ra_max_bytes_per_file s) (ac_max_bytes_per_file d),
       ac_max_age = or_default (map_option (\<lambda>n. 1000 * n) (ra_max_age_secs s)) (ac_max_age d),
       ac_max_total_bytes = or_default (ra_max_total_bytes s) (ac_max_total_bytes d),
       ac_channel_capacity = or_default (ra_channel_capacity s) (ac_channel_capacity d),
       ac_zstd_level = or_default (ra_zstd_level s) (ac_zstd_level d),
       ac_console_output = or_default (ra_console_output s) (ac_console_output d)\<rparr>)"

definition resolve_etw :: "etw_section \<Rightarrow> etw_config" where
  "resolve_etw s =
     (let d = default_etw in
      \<lparr>ec_dns = or_default (rw_dns s) (ec_dns d), ec_tcp = or_default (rw_tcp s) (ec_tcp d),
       ec_powershell = or_default (rw_powershell s) (ec_powershell d),
       ec_wmi = or_default (rw_wmi s) (ec_wmi d), ec_schannel = or_default (rw_schannel s) (ec_schannel d),
       ec_amsi = or_default (rw_amsi s) (ec_amsi d)\<rparr>)"

definition resolve_polling :: "polling_section \<Rightarrow> polling_config" where
  "resolve_polling s =
     (let d = default_polling in
      \<lparr>po_services = or_default (rp_services s) (po_services d),
       po_scheduled_tasks = or_default (rp_scheduled_tasks s) (po_scheduled_tasks d),
       po_interval = or_default (map_option (\<lambda>n. 1000 * max n 5) (rp_interval_secs s)) (po_interval d),
       po_silent_first_snapshot = or_default (rp_silent_first_snapshot s) (po_silent_first_snapshot d)\<rparr>)"

definition resolve_control :: "control_section \<Rightarrow> control_config" where
  "resolve_control s =
     (let d = default_control in
      \<lparr>cc_heartbeat_interval =
         or_default (map_option (\<lambda>n. 1000 * max n 1) (rc_heartbeat_interval_secs s)) (cc_heartbeat_interval d),
       cc_send_alerts = or_default (rc_send_alerts s) (cc_send_alerts d)\<rparr>)"

text \<open>\<open>not_blank\<close> is the closure \<open>non_empty\<close>.\<close>

definition resolve_detection :: "config_host \<Rightarrow> detection_section \<Rightarrow> detection_config" where
  "resolve_detection h s =
     (let d = default_detection h in
      \<lparr>dc_rules_path = or_default (not_blank (rd_rules_path s)) (dc_rules_path d),
       dc_server_rules_path =
         (case rd_server_rules_path s of
            None \<Rightarrow> dc_server_rules_path d
          | Some p \<Rightarrow> if is_blank p then None else Some p),
       dc_schema_path = not_blank (rd_schema_path s),
       dc_default_window = or_default (map_option (\<lambda>n. 1000 * n) (rd_default_window_secs s)) (dc_default_window d),
       dc_reload_interval =
         or_default (map_option (\<lambda>n. 1000 * n) (rd_reload_interval_secs s)) (dc_reload_interval d)\<rparr>)"

section \<open>The overrides of the server\<close>

record agent_config_overrides =
  ov_heartbeat_interval_secs :: "nat option"
  ov_send_alerts :: "bool option"
  ov_detection_enabled :: "bool option"
  ov_detection_default_window_secs :: "nat option"
  ov_detection_reload_interval_secs :: "nat option"
  ov_etw_dns :: "bool option"
  ov_etw_tcp :: "bool option"
  ov_etw_powershell :: "bool option"
  ov_etw_wmi :: "bool option"
  ov_etw_schannel :: "bool option"
  ov_etw_amsi :: "bool option"
  ov_console_output :: "bool option"

definition overrides_of_json :: "json \<Rightarrow> agent_config_overrides option" where
  "overrides_of_json j = do {
     _ \<leftarrow> as_object j;
     a \<leftarrow> optional as_u64 ''heartbeat_interval_secs'' j; b \<leftarrow> optional as_bool ''send_alerts'' j;
     c \<leftarrow> optional as_bool ''detection_enabled'' j;
     d \<leftarrow> optional as_u64 ''detection_default_window_secs'' j;
     e \<leftarrow> optional as_u64 ''detection_reload_interval_secs'' j;
     f \<leftarrow> optional as_bool ''etw_dns'' j; g \<leftarrow> optional as_bool ''etw_tcp'' j;
     i \<leftarrow> optional as_bool ''etw_powershell'' j; k \<leftarrow> optional as_bool ''etw_wmi'' j;
     l \<leftarrow> optional as_bool ''etw_schannel'' j; m \<leftarrow> optional as_bool ''etw_amsi'' j;
     n \<leftarrow> optional as_bool ''console_output'' j;
     Some \<lparr>ov_heartbeat_interval_secs = a, ov_send_alerts = b, ov_detection_enabled = c,
           ov_detection_default_window_secs = d, ov_detection_reload_interval_secs = e, ov_etw_dns = f,
           ov_etw_tcp = g, ov_etw_powershell = i, ov_etw_wmi = k, ov_etw_schannel = l, ov_etw_amsi = m,
           ov_console_output = n\<rparr> }"

text \<open>The sections that \<open>#[derive(Default)]\<close> makes.\<close>

definition empty_control :: control_section where
  "empty_control = \<lparr>rc_enabled = None, rc_heartbeat_interval_secs = None, rc_send_alerts = None\<rparr>"

definition empty_detection :: detection_section where
  "empty_detection = \<lparr>rd_enabled = None, rd_rules_path = None, rd_server_rules_path = None,
     rd_schema_path = None, rd_default_window_secs = None, rd_reload_interval_secs = None\<rparr>"

definition empty_etw :: etw_section where
  "empty_etw = \<lparr>rw_enabled = None, rw_dns = None, rw_tcp = None, rw_powershell = None, rw_wmi = None,
     rw_schannel = None, rw_amsi = None\<rparr>"

definition empty_agent :: agent_section where
  "empty_agent = \<lparr>ra_console_output = None, ra_spool_dir = None, ra_max_bytes_per_file = None,
     ra_max_age_secs = None, ra_max_total_bytes = None, ra_channel_capacity = None, ra_zstd_level = None\<rparr>"

definition override :: "'a option \<Rightarrow> 'a option \<Rightarrow> 'a option" where
  "override v old = (case v of Some x \<Rightarrow> Some x | None \<Rightarrow> old)"

definition override_control :: "agent_config_overrides \<Rightarrow> control_section \<Rightarrow> control_section" where
  "override_control ov c =
     c\<lparr>rc_heartbeat_interval_secs := override (ov_heartbeat_interval_secs ov) (rc_heartbeat_interval_secs c),
       rc_send_alerts := override (ov_send_alerts ov) (rc_send_alerts c)\<rparr>"

definition override_detection :: "agent_config_overrides \<Rightarrow> detection_section \<Rightarrow> detection_section" where
  "override_detection ov d =
     d\<lparr>rd_enabled := override (ov_detection_enabled ov) (rd_enabled d),
       rd_default_window_secs := override (ov_detection_default_window_secs ov) (rd_default_window_secs d),
       rd_reload_interval_secs := override (ov_detection_reload_interval_secs ov) (rd_reload_interval_secs d)\<rparr>"

definition override_etw :: "agent_config_overrides \<Rightarrow> etw_section \<Rightarrow> etw_section" where
  "override_etw ov e =
     e\<lparr>rw_dns := override (ov_etw_dns ov) (rw_dns e), rw_tcp := override (ov_etw_tcp ov) (rw_tcp e),
       rw_powershell := override (ov_etw_powershell ov) (rw_powershell e),
       rw_wmi := override (ov_etw_wmi ov) (rw_wmi e),
       rw_schannel := override (ov_etw_schannel ov) (rw_schannel e),
       rw_amsi := override (ov_etw_amsi ov) (rw_amsi e)\<rparr>"

definition override_agent :: "agent_config_overrides \<Rightarrow> agent_section \<Rightarrow> agent_section" where
  "override_agent ov a = a\<lparr>ra_console_output := override (ov_console_output ov) (ra_console_output a)\<rparr>"

text \<open>A section that was absent is made (\<open>get_or_insert_with\<close>), whatever the overrides hold.\<close>

definition apply_overrides :: "agent_config_overrides \<Rightarrow> config_file \<Rightarrow> config_file" where
  "apply_overrides ov parsed =
     parsed\<lparr>cf_control := Some (override_control ov (or_default (cf_control parsed) empty_control)),
            cf_detection := Some (override_detection ov (or_default (cf_detection parsed) empty_detection)),
            cf_etw := Some (override_etw ov (or_default (cf_etw parsed) empty_etw)),
            cf_agent := Some (override_agent ov (or_default (cf_agent parsed) empty_agent))\<rparr>"

definition merge_server_overrides :: "config_host \<Rightarrow> str \<Rightarrow> config_file \<Rightarrow> (world, config_file) act" where
  "merge_server_overrides h agent_json_path parsed =
     seq (attempt (read_file (ch_env h) (join_path (parent_dir agent_json_path) ''agent_config_overrides.json'')))
       (\<lambda>r. case r of
          Inl _ \<Rightarrow> give parsed
        | Inr bytes \<Rightarrow>
            (case parse_as (ch_codec h) overrides_of_json (str_of_bytes bytes) of
               Inl _ \<Rightarrow> give parsed
             | Inr ov \<Rightarrow> give (apply_overrides ov parsed)))"

section \<open>Enrollment\<close>

definition hostname :: "config_host \<Rightarrow> str" where
  "hostname h = (case ch_computername h of Some n \<Rightarrow> n | None \<Rightarrow> ''unknown'')"

definition enroll_request_json :: "config_host \<Rightarrow> str \<Rightarrow> json" where
  "enroll_request_json h enrollment_token =
     JObj [(''enrollment_token'', JStr enrollment_token), (''agent_version'', JStr AGENT_VERSION),
           (''host'', JObj [(''hostname'', JStr (hostname h)), (''os'', JStr ''windows''),
                            (''os_version'', JStr ''unknown''), (''ip'', JNull)])]"

definition enroll_response_of_json :: "json \<Rightarrow> (str \<times> str) option" where
  "enroll_response_of_json j =
     (case (get_str ''agent_id'' j, get_str ''agent_token'' j) of
        (Some a, Some t) \<Rightarrow> Some (a, t)
      | _ \<Rightarrow> None)"

definition enroll_call :: "str \<Rightarrow> bytes \<Rightarrow> http_call" where
  "enroll_call server_url body =
     \<lparr>hc_method = ''POST'', hc_url = server_url @ ''/api/v1/agents/enroll'',
      hc_headers = [(''Content-Type'', ''application/json'')], hc_body = body\<rparr>"

fun enroll_error :: "http_error \<Rightarrow> str" where
  "enroll_error (Status code response) =
     ''enroll rejected by server: HTTP '' @ dec code @ '' '' @ em_dash @ '' '' @
     (case re_text response of Inl _ \<Rightarrow> [] | Inr body \<Rightarrow> body)"
| "enroll_error (Transport_failure t) = ''enroll transport error: '' @ t"

definition post_enroll :: "config_host \<Rightarrow> http_call \<Rightarrow> (world, reply) act" where
  "post_enroll h c w =
     (case exchange (ch_env h) c w of
        (Inl e, w') \<Rightarrow> (Inl (enroll_error e), w')
      | (Inr r, w') \<Rightarrow> (Inr r, w'))"

definition enroll_perform :: "config_host \<Rightarrow> str \<Rightarrow> str \<Rightarrow> (world, str \<times> str) act" where
  "enroll_perform h server_url enrollment_token =
     seq (blame ''serialize enroll body: ''
           (lift_result (cd_write (ch_codec h) (enroll_request_json h enrollment_token)))) (\<lambda>body.
     seq (post_enroll h (enroll_call server_url body)) (\<lambda>resp.
     seq (blame ''read enroll response body: '' (lift_result (re_text resp))) (\<lambda>body.
     seq (blame ''parse enroll response: ''
           (lift_result (parse_as (ch_codec h) enroll_response_of_json body))) (\<lambda>(agent_id, agent_token).
     if is_blank agent_id \<or> is_blank agent_token
     then throw ''enroll response missing agent_id or agent_token''
     else give (agent_id, agent_token)))))"

definition remove_key :: "str \<Rightarrow> (str \<times> json) list \<Rightarrow> (str \<times> json) list" where
  "remove_key k m = filter (\<lambda>e. fst e \<noteq> k) m"

definition patch_shipper :: "str \<Rightarrow> str \<Rightarrow> (str \<times> json) list \<Rightarrow> (str \<times> json) list" where
  "patch_shipper agent_id agent_token shipper =
     (let shipper = put ''agent_id'' (JStr agent_id) shipper;
          shipper = put ''token_plain'' (JStr agent_token) shipper;
          shipper = remove_key ''enrollment_token'' shipper
      in if get_str ''token_encrypted_b64'' (JObj shipper) = Some []
         then remove_key ''token_encrypted_b64'' shipper else shipper)"

definition patched_root :: "str \<Rightarrow> str \<Rightarrow> json \<Rightarrow> json option" where
  "patched_root agent_id agent_token root =
     (case root of
        JObj m \<Rightarrow>
          (case map_of m ''shipper'' of
             Some (JObj shipper) \<Rightarrow>
               Some (JObj (put ''shipper'' (JObj (patch_shipper agent_id agent_token shipper)) m))
           | _ \<Rightarrow> None)
      | _ \<Rightarrow> None)"

text \<open>Both writers of the file end it with a line feed.\<close>

definition write_pretty :: "config_host \<Rightarrow> str \<Rightarrow> str \<Rightarrow> json \<Rightarrow> (world, unit) act" where
  "write_pretty h msg path root =
     seq (blame msg (lift_result (cd_pretty (ch_codec h) root))) (\<lambda>content.
     blame (''write '' @ path @ '': '') (perform (ch_env h) (Write_file path (content @ [10]))))"

definition persist_enrollment :: "config_host \<Rightarrow> str \<Rightarrow> str \<Rightarrow> str \<Rightarrow> (world, unit) act" where
  "persist_enrollment h path agent_id agent_token =
     seq (blame (''re-read '' @ path @ '': '') (read_file (ch_env h) path)) (\<lambda>bytes.
     seq (blame (''re-parse '' @ path @ '': '') (lift_result (cd_read (ch_codec h) (str_of_bytes bytes)))) (\<lambda>root.
     case patched_root agent_id agent_token root of
       None \<Rightarrow> throw ''shipper section disappeared during enroll''
     | Some root \<Rightarrow> write_pretty h ''re-serialize config: '' path root))"

definition autoenroll_and_persist ::
    "config_host \<Rightarrow> str \<Rightarrow> shipper_section \<Rightarrow> (world, shipper_section) act" where
  "autoenroll_and_persist h path s =
     (case ss_server_url s of
        None \<Rightarrow> throw ''shipper.server_url is required for auto-enroll''
      | Some server_url \<Rightarrow>
          (case ss_enrollment_token s of
             None \<Rightarrow> throw ''shipper.enrollment_token is required for auto-enroll''
           | Some enrollment_token \<Rightarrow>
               seq (blame ''auto-enroll failed: '' (enroll_perform h server_url enrollment_token))
                 (\<lambda>(agent_id, agent_token).
               seq (persist_enrollment h path agent_id agent_token) (\<lambda>_.
               give (fill_from_enroll agent_id agent_token s)))))"

section \<open>Loading\<close>

text \<open>The skeleton that is written when the file is missing.\<close>

definition skeleton :: "config_host \<Rightarrow> json" where
  "skeleton h =
     (let d = default_agent h; cc = default_control; dc = default_detection h in
      JObj
       [(''agent'', JObj
          [(''console_output'', JBool (ac_console_output d)), (''spool_dir'', JStr (ac_spool_dir d)),
           (''max_bytes_per_file'', JInt (int (ac_max_bytes_per_file d))),
           (''max_age_secs'', JInt (int (ac_max_age d div 1000))),
           (''max_total_bytes'', JInt (int (ac_max_total_bytes d))),
           (''channel_capacity'', JInt (int (ac_channel_capacity d))),
           (''zstd_level'', JInt (ac_zstd_level d))]),
        (''shipper'', JObj
          [(''enabled'', JBool False), (''server_url'', JStr ''http://127.0.0.1:8080''),
           (''enrollment_token'', JStr ''''), (''agent_id'', JStr ''''), (''token_plain'', JStr ''''),
           (''verify_tls'', JBool True), (''timeout_secs'', JInt 30), (''poll_interval_secs'', JInt 5),
           (''max_backoff_secs'', JInt 300)]),
        (''control'', JObj
          [(''enabled'', JBool True),
           (''heartbeat_interval_secs'', JInt (int (cc_heartbeat_interval cc div 1000))),
           (''send_alerts'', JBool (cc_send_alerts cc))]),
        (''detection'', JObj
          [(''enabled'', JBool True), (''rules_path'', JStr (dc_rules_path dc)),
           (''server_rules_path'', JStr (or_default (dc_server_rules_path dc) '''')),
           (''schema_path'', JStr ''''),
           (''default_window_secs'', JInt (int (dc_default_window dc div 1000))),
           (''reload_interval_secs'', JInt (int (dc_reload_interval dc div 1000)))]),
        (''etw'', JObj
          [(''enabled'', JBool True), (''dns'', JBool True), (''tcp'', JBool True),
           (''powershell'', JBool True), (''wmi'', JBool True), (''schannel'', JBool True),
           (''amsi'', JBool True)]),
        (''polling'', JObj
          [(''enabled'', JBool True), (''services'', JBool True), (''scheduled_tasks'', JBool True),
           (''interval_secs'', JInt 30), (''silent_first_snapshot'', JBool True)])])"

definition write_default_config :: "config_host \<Rightarrow> str \<Rightarrow> (world, unit) act" where
  "write_default_config h path =
     seq (blame (''create_dir_all '' @ parent_dir path @ '': '') (perform (ch_env h) (Make_dir (parent_dir path))))
       (\<lambda>_. write_pretty h ''serialize default config: '' path (skeleton h))"

definition first_config :: "config_host \<Rightarrow> app_config" where
  "first_config h = \<lparr>app_agent = default_agent h, app_shipper = None, app_filter = None,
     app_detection = None, app_control = None, app_etw = None, app_polling = None\<rparr>"

text \<open>The DPAPI call returns a result; \<open>resolve_shipper_result\<close> below shows that nothing else happens.\<close>

definition dpapi_outcome :: "config_host \<Rightarrow> bytes \<Rightarrow> bytes outcome" where
  "dpapi_outcome h b = (case ch_dpapi h b of Inl e \<Rightarrow> Err e | Inr x \<Rightarrow> Ok x)"

definition result_of :: "'a outcome \<Rightarrow> str + 'a" where
  "result_of r = (case r of Ok x \<Rightarrow> Inr x | Err e \<Rightarrow> Inl e | Undefined \<Rightarrow> Inl [] | Panicked \<Rightarrow> Inl [])"

definition resolved :: "config_host \<Rightarrow> shipper_section \<Rightarrow> str + shipper_config" where
  "resolved h s = result_of (resolve_shipper (dpapi_outcome h) (ch_computername h) s)"

definition load_shipper ::
    "config_host \<Rightarrow> str \<Rightarrow> shipper_section option \<Rightarrow> (world, shipper_config option) act" where
  "load_shipper h path section =
     (case section of
        None \<Rightarrow> give None
      | Some s \<Rightarrow>
          if \<not> ss_enabled s then give None
          else seq (if needs_autoenroll s then autoenroll_and_persist h path s else give s) (\<lambda>s.
               seq (lift_result (resolved h s)) (\<lambda>cfg. give (Some cfg))))"

text \<open>A section that is enabled: \<open>Some(s) if s.enabled.unwrap_or(dflt) => Some(resolve(s))\<close>.\<close>

definition when_enabled :: "('s \<Rightarrow> bool option) \<Rightarrow> bool \<Rightarrow> ('s \<Rightarrow> 'c) \<Rightarrow> 's option \<Rightarrow> 'c option" where
  "when_enabled enabled dflt resolve section =
     (case section of
        None \<Rightarrow> None
      | Some s \<Rightarrow> if or_default (enabled s) dflt then Some (resolve s) else None)"

definition app_of :: "config_host \<Rightarrow> config_file \<Rightarrow> shipper_config option \<Rightarrow> app_config" where
  "app_of h parsed shipper =
     \<lparr>app_agent = resolve_agent h (or_default (cf_agent parsed) empty_agent),
      app_shipper = shipper,
      app_filter = cf_filter parsed,
      app_detection = when_enabled rd_enabled True (resolve_detection h) (cf_detection parsed),
      app_control = when_enabled rc_enabled False resolve_control (cf_control parsed),
      app_etw = when_enabled rw_enabled False resolve_etw (cf_etw parsed),
      app_polling = when_enabled rp_enabled False resolve_polling (cf_polling parsed)\<rparr>"

definition not_found :: "config_host \<Rightarrow> str \<Rightarrow> world \<Rightarrow> bool" where
  "not_found h path w \<longleftrightarrow> en_unreadable (ch_env h) (w_history w) path = None \<and> w_files w path = None"

definition load_existing :: "config_host \<Rightarrow> str \<Rightarrow> (world, app_config) act" where
  "load_existing h path =
     seq (blame (''read '' @ path @ '': '') (read_file (ch_env h) path)) (\<lambda>bytes.
     seq (blame (''parse '' @ path @ '': '')
           (lift_result (parse_as (ch_codec h) config_file_of_json (str_of_bytes bytes)))) (\<lambda>parsed.
     seq (merge_server_overrides h path parsed) (\<lambda>parsed.
     seq (load_shipper h path (cf_shipper parsed)) (\<lambda>shipper.
     give (app_of h parsed shipper)))))"

definition load :: "config_host \<Rightarrow> str \<Rightarrow> (world, app_config) act" where
  "load h path w =
     (if not_found h path w
      then seq (attempt (write_default_config h path)) (\<lambda>_. give (first_config h)) w
      else load_existing h path w)"

section \<open>Resolved sections\<close>

lemma result_of_Inr: "result_of r = Inr x \<longleftrightarrow> r = Ok x"
  by (cases r) (auto simp: result_of_def)

lemma when_enabled_Some:
  "when_enabled en d f s = Some x \<longleftrightarrow> (\<exists>y. s = Some y \<and> or_default (en y) d \<and> x = f y)"
  by (auto simp: when_enabled_def split: option.splits)

lemma map_or_default: "P d \<Longrightarrow> (\<And>n. P (f n)) \<Longrightarrow> P (or_default (map_option f v) d)"
  by (cases v) (simp_all add: or_default_def)

lemma resolve_control_bound: "1000 \<le> cc_heartbeat_interval (resolve_control s)"
  by (simp add: resolve_control_def Let_def default_control_def, rule map_or_default) simp_all

lemma resolve_polling_bound: "5000 \<le> po_interval (resolve_polling s)"
  by (simp add: resolve_polling_def Let_def default_polling_def, rule map_or_default) simp_all

lemma not_blank_Some: "not_blank v = Some p \<longleftrightarrow> v = Some p \<and> \<not> is_blank p"
  by (auto simp: not_blank_def split: option.splits)

section \<open>The overrides on the resolved configuration\<close>

text \<open>What the overrides mean: they tune the values of a layer, and switch only detection.\<close>

definition tune_control :: "agent_config_overrides \<Rightarrow> control_config \<Rightarrow> control_config" where
  "tune_control ov c =
     \<lparr>cc_heartbeat_interval =
        (case ov_heartbeat_interval_secs ov of Some n \<Rightarrow> 1000 * max n 1 | None \<Rightarrow> cc_heartbeat_interval c),
      cc_send_alerts = or_default (ov_send_alerts ov) (cc_send_alerts c)\<rparr>"

definition tune_etw :: "agent_config_overrides \<Rightarrow> etw_config \<Rightarrow> etw_config" where
  "tune_etw ov c =
     \<lparr>ec_dns = or_default (ov_etw_dns ov) (ec_dns c), ec_tcp = or_default (ov_etw_tcp ov) (ec_tcp c),
      ec_powershell = or_default (ov_etw_powershell ov) (ec_powershell c),
      ec_wmi = or_default (ov_etw_wmi ov) (ec_wmi c),
      ec_schannel = or_default (ov_etw_schannel ov) (ec_schannel c),
      ec_amsi = or_default (ov_etw_amsi ov) (ec_amsi c)\<rparr>"

definition tune_agent :: "agent_config_overrides \<Rightarrow> agent_config \<Rightarrow> agent_config" where
  "tune_agent ov c = c\<lparr>ac_console_output := or_default (ov_console_output ov) (ac_console_output c)\<rparr>"

definition tune_detection :: "agent_config_overrides \<Rightarrow> detection_config \<Rightarrow> detection_config" where
  "tune_detection ov c =
     c\<lparr>dc_default_window :=
         or_default (map_option (\<lambda>n. 1000 * n) (ov_detection_default_window_secs ov)) (dc_default_window c),
       dc_reload_interval :=
         or_default (map_option (\<lambda>n. 1000 * n) (ov_detection_reload_interval_secs ov)) (dc_reload_interval c)\<rparr>"

lemma or_default_override: "or_default (override v old) d = or_default v (or_default old d)"
  by (simp add: or_default_def override_def split: option.splits)

lemma map_override: "map_option f (override v old) = override (map_option f v) (map_option f old)"
  by (simp add: override_def split: option.splits)

lemmas tuning = or_default_override map_override

lemma resolve_override_control: "resolve_control (override_control ov c) = tune_control ov (resolve_control c)"
  by (simp add: resolve_control_def override_control_def tune_control_def tuning Let_def)
     (simp add: or_default_def split: option.splits)

lemma resolve_override_etw: "resolve_etw (override_etw ov e) = tune_etw ov (resolve_etw e)"
  by (simp add: resolve_etw_def override_etw_def tune_etw_def tuning Let_def)

lemma resolve_override_agent: "resolve_agent h (override_agent ov a) = tune_agent ov (resolve_agent h a)"
  by (simp add: resolve_agent_def override_agent_def tune_agent_def tuning Let_def)

lemma resolve_override_detection:
  "resolve_detection h (override_detection ov d) = tune_detection ov (resolve_detection h d)"
  by (simp add: resolve_detection_def override_detection_def tune_detection_def tuning Let_def)

text \<open>C24. The overrides of the server are a function of the resolved configuration: they tune the control
plane, ETW and the console where these are on, and they switch nothing but detection. Although the code says
that an override can turn a whole section on, ETW for instance, no override ever turns ETW or the control plane
on; but the presence of any overrides, even none, turns detection on when the file has no section for it.\<close>

theorem overrides_switch_detection_only:
  "app_of h (apply_overrides ov parsed) shipper =
     (app_of h parsed shipper)
       \<lparr>app_agent := tune_agent ov (app_agent (app_of h parsed shipper)),
        app_control := map_option (tune_control ov) (app_control (app_of h parsed shipper)),
        app_etw := map_option (tune_etw ov) (app_etw (app_of h parsed shipper)),
        app_detection :=
          (let d = or_default (cf_detection parsed) empty_detection in
           if or_default (ov_detection_enabled ov) (or_default (rd_enabled d) True)
           then Some (tune_detection ov (resolve_detection h d)) else None)\<rparr>"
proof -
  have "when_enabled rc_enabled False resolve_control (cf_control (apply_overrides ov parsed)) =
      map_option (tune_control ov) (when_enabled rc_enabled False resolve_control (cf_control parsed))"
    by (cases "cf_control parsed")
       (simp_all add: apply_overrides_def when_enabled_def or_default_def empty_control_def
          override_control_def resolve_override_control [unfolded override_control_def])
  moreover have "when_enabled rw_enabled False resolve_etw (cf_etw (apply_overrides ov parsed)) =
      map_option (tune_etw ov) (when_enabled rw_enabled False resolve_etw (cf_etw parsed))"
    by (cases "cf_etw parsed")
       (simp_all add: apply_overrides_def when_enabled_def or_default_def empty_etw_def
          override_etw_def resolve_override_etw [unfolded override_etw_def])
  moreover have "rd_enabled (override_detection ov d) = override (ov_detection_enabled ov) (rd_enabled d)" for d
    by (simp add: override_detection_def)
  ultimately show ?thesis
    by (simp add: app_of_def apply_overrides_def when_enabled_def [of rd_enabled] resolve_override_agent
        resolve_override_detection or_default_override Let_def)
qed

section \<open>Bounds of a loaded configuration\<close>

lemma load_shipper_Some:
  assumes "load_shipper h path section w = (Inr (Some cfg), w')"
  shows "\<exists>s. resolved h s = Inr cfg"
  using assms by (auto simp: load_shipper_def success_simps split: option.splits if_splits)

lemma load_cases:
  assumes "load h path w = (Inr app, w')"
  shows "app = first_config h \<or>
    (\<exists>parsed shipper w1. load_shipper h path (cf_shipper parsed) w1 = (Inr shipper, w') \<and>
       app = app_of h parsed shipper)"
  using assms by (auto simp: load_def load_existing_def success_simps split: if_splits)

text \<open>Whatever the file and the server's overrides say, a configuration that loads makes the agent wait at
least a second between heartbeats and five seconds between scans; a shipper has a URL without a final slash, an
agent identifier without white space, delays of a second or more, and a token; a path of the detection layer
that may be absent is never blank.\<close>

theorem loaded_config_bounds:
  assumes "load h path w = (Inr app, w')"
  shows "(\<forall>c. app_control app = Some c \<longrightarrow> 1000 \<le> cc_heartbeat_interval c) \<and>
    (\<forall>p. app_polling app = Some p \<longrightarrow> 5000 \<le> po_interval p) \<and>
    (\<forall>s. app_shipper app = Some s \<longrightarrow>
       1000 \<le> sc_timeout s \<and> 1000 \<le> sc_poll_interval s \<and> 1000 \<le> sc_max_backoff s \<and>
       \<not> is_blank (sc_agent_id s) \<and> \<not> has_space_or_control (sc_agent_id s) \<and>
       (sc_server_url s = [] \<or> last (sc_server_url s) \<noteq> CHR 0x2F)) \<and>
    (\<forall>d p. app_detection app = Some d \<longrightarrow> dc_schema_path d = Some p \<longrightarrow> \<not> is_blank p)"
proof -
  have "app = first_config h \<or> (\<exists>parsed shipper w1.
      load_shipper h path (cf_shipper parsed) w1 = (Inr shipper, w') \<and> app = app_of h parsed shipper)"
    by (rule load_cases [OF assms])
  then show ?thesis
  proof
    assume "\<exists>parsed shipper w1. load_shipper h path (cf_shipper parsed) w1 = (Inr shipper, w') \<and>
      app = app_of h parsed shipper"
    then obtain parsed shipper w1
      where sh: "load_shipper h path (cf_shipper parsed) w1 = (Inr shipper, w')"
        and app: "app = app_of h parsed shipper" by blast
    have "\<exists>s. resolve_shipper (dpapi_outcome h) (ch_computername h) s = Ok cfg" if "shipper = Some cfg" for cfg
      using load_shipper_Some sh that by (fastforce simp: resolved_def result_of_Inr)
    then show ?thesis
      by (auto simp: app app_of_def when_enabled_Some resolve_control_bound resolve_polling_bound
          resolve_detection_def Let_def not_blank_Some dest!: resolved_shipper_ok)
  qed (simp add: first_config_def)
qed

section \<open>What loading does to the host\<close>

text \<open>The effects of an enrollment.\<close>

definition enrollment :: "str \<Rightarrow> history \<Rightarrow> bool" where
  "enrollment path t \<longleftrightarrow>
     (\<exists>server_url body ok. t = [(Request (enroll_call server_url body), ok)]) \<or>
     (\<exists>server_url body b ok.
        t = [(Request (enroll_call server_url body), True), (Write_file path b, ok)])"

lemma enrollment_intros:
  "enrollment path [(Request (enroll_call u body), ok)]"
  "enrollment path [(Request (enroll_call u body), True), (Write_file path b, ok)]"
  unfolding enrollment_def by blast+

lemma post_enroll_effects:
  "\<exists>ok. w_history (snd (post_enroll h c w)) = w_history w @ [(Request c, ok)] \<and>
        w_files (snd (post_enroll h c w)) = w_files w \<and>
        (\<forall>r. fst (post_enroll h c w) = Inr r \<longrightarrow> ok)"
  by (auto simp: post_enroll_def exchange_def split: sum.splits)

lemma enroll_perform_effects:
  assumes "enroll_perform h u tok w = (r, w')"
  shows "w_files w' = w_files w \<and>
    (w_history w' = w_history w \<and> (\<forall>x. r \<noteq> Inr x) \<or>
     (\<exists>body ok. w_history w' = w_history w @ [(Request (enroll_call u body), ok)] \<and>
        ((\<exists>x. r = Inr x) \<longrightarrow> ok)))"
proof (cases "cd_write (ch_codec h) (enroll_request_json h tok)")
  case (Inl e)
  with assms show ?thesis by (auto simp: enroll_perform_def seq_def blame_def lift_result_def)
next
  case (Inr body)
  obtain q w1 where q: "post_enroll h (enroll_call u body) w = (q, w1)" by fastforce
  with post_enroll_effects [of h "enroll_call u body" w]
  obtain ok where ok: "w_history w1 = w_history w @ [(Request (enroll_call u body), ok)]"
    "w_files w1 = w_files w" "\<forall>x. q = Inr x \<longrightarrow> ok" by auto
  have "w' = w1 \<and> ((\<exists>x. r = Inr x) \<longrightarrow> (\<exists>x. q = Inr x))"
    using assms Inr q
    by (cases q) (auto simp: enroll_perform_def seq_def blame_def lift_result_def throw_def give_def
        split: sum.splits if_splits prod.splits)
  with ok show ?thesis by auto
qed

lemma write_pretty_effects:
  assumes "write_pretty h msg path j w = (r, w')"
  shows "w_history w' = w_history w \<and> w_files w' = w_files w \<and> (\<forall>x. r \<noteq> Inr x) \<or>
    (\<exists>b ok. w_history w' = w_history w @ [(Write_file path b, ok)] \<and>
       (\<forall>p. p \<noteq> path \<longrightarrow> w_files w' p = w_files w p))"
proof (cases "cd_pretty (ch_codec h) j")
  case (Inl e)
  with assms show ?thesis by (auto simp: write_pretty_def seq_def blame_def lift_result_def)
next
  case (Inr content)
  obtain q where q: "perform (ch_env h) (Write_file path (content @ [10])) w = (q, w')"
    using assms Inr
    by (auto simp: write_pretty_def seq_def blame_def lift_result_def split: prod.splits sum.splits)
  have "\<exists>ok. w_history w' = w_history w @ [(Write_file path (content @ [10]), ok)]"
    using q by (auto simp: perform_def split: option.splits)
  moreover have "\<forall>p. p \<noteq> path \<longrightarrow> w_files w' p = w_files w p"
    using q by (auto simp: perform_def split: option.splits)
  ultimately show ?thesis by blast
qed

lemma persist_enrollment_effects:
  assumes "persist_enrollment h path a t w = (r, w')"
  shows "w_history w' = w_history w \<and> w_files w' = w_files w \<and> (\<forall>x. r \<noteq> Inr x) \<or>
    (\<exists>b ok. w_history w' = w_history w @ [(Write_file path b, ok)] \<and>
       (\<forall>p. p \<noteq> path \<longrightarrow> w_files w' p = w_files w p))"
proof -
  have "(\<exists>e. r = Inl e) \<and> w' = w \<or> (\<exists>root. write_pretty h ''re-serialize config: '' path root w = (r, w'))"
    using assms
    by (auto simp: persist_enrollment_def seq_def blame_def lift_result_def read_file_def throw_def
        split: sum.splits option.splits)
  then show ?thesis using write_pretty_effects by blast
qed

lemma autoenroll_effects:
  assumes "autoenroll_and_persist h path s w = (r, w')"
  shows "\<exists>t. w_history w' = w_history w @ t \<and> (t = [] \<or> enrollment path t) \<and>
    (\<forall>p. p \<noteq> path \<or> length t < 2 \<longrightarrow> w_files w' p = w_files w p) \<and> ((\<exists>x. r = Inr x) \<longrightarrow> length t = 2)"
proof (cases "ss_server_url s")
  case None
  with assms show ?thesis by (auto simp: autoenroll_and_persist_def throw_def)
next
  case u: (Some u)
  show ?thesis
  proof (cases "ss_enrollment_token s")
    case None
    with assms u show ?thesis by (auto simp: autoenroll_and_persist_def throw_def)
  next
    case (Some tok)
    obtain q w1 where q: "enroll_perform h u tok w = (q, w1)" by fastforce
    note first = enroll_perform_effects [OF q]
    show ?thesis
    proof (cases q)
      case (Inl e)
      then have "w' = w1" "\<forall>x. r \<noteq> Inr x"
        using assms u Some q by (auto simp: autoenroll_and_persist_def seq_def blame_def)
      with first show ?thesis by (auto simp: enrollment_intros)
    next
      case (Inr ids)
      obtain a t where ids: "ids = (a, t)" by force
      obtain q2 where q2: "persist_enrollment h path a t w1 = (q2, w')" "(\<exists>x. r = Inr x) \<longrightarrow> (\<exists>x. q2 = Inr x)"
        using assms u Some q Inr ids
        by (auto simp: autoenroll_and_persist_def seq_def blame_def give_def split: prod.splits sum.splits)
      obtain body where one: "w_history w1 = w_history w @ [(Request (enroll_call u body), True)]"
        "w_files w1 = w_files w" using first Inr by auto
      from persist_enrollment_effects [OF q2(1)] show ?thesis
      proof
        assume "w_history w' = w_history w1 \<and> w_files w' = w_files w1 \<and> (\<forall>x. q2 \<noteq> Inr x)"
        with one q2(2) show ?thesis by (auto simp: enrollment_intros)
      next
        assume "\<exists>b ok. w_history w' = w_history w1 @ [(Write_file path b, ok)] \<and>
          (\<forall>p. p \<noteq> path \<longrightarrow> w_files w' p = w_files w1 p)"
        with one show ?thesis by (auto simp: enrollment_intros)
      qed
    qed
  qed
qed

text \<open>Loading a configuration that exists touches nothing but itself, whether it succeeds or fails: it does
nothing at all, or it enrolls, which is one request to the enrollment address and, only after it succeeded, one
write of the configuration file; before that write no file has changed, and a failed enrollment is an error.\<close>

theorem load_only_enrolls:
  assumes "\<not> not_found h path w" and "load h path w = (r, w')"
  shows "\<exists>t. w_history w' = w_history w @ t \<and> (t = [] \<or> enrollment path t) \<and>
    (\<forall>p. p \<noteq> path \<or> length t < 2 \<longrightarrow> w_files w' p = w_files w p) \<and>
    ((\<exists>app. r = Inr app) \<longrightarrow> t = [] \<or> length t = 2)"
proof -
  have "w' = w \<or> (\<exists>s q. autoenroll_and_persist h path s w = (q, w') \<and>
      ((\<exists>app. r = Inr app) \<longrightarrow> (\<exists>x. q = Inr x)))"
    using assms
    by (auto simp: load_def load_existing_def seq_def blame_def lift_result_def merge_server_overrides_def
        attempt_def read_file_def give_def load_shipper_def
        split: if_splits prod.splits sum.splits option.splits)
  then show ?thesis using autoenroll_effects by fastforce
qed


section \<open>The second start\<close>

text \<open>What the theorems ask of \<open>serde_json\<close>: it reads back what it wrote, with a line feed at the end.\<close>

definition reads_pretty :: "codec \<Rightarrow> bool" where
  "reads_pretty c \<longleftrightarrow> (\<forall>j b. cd_pretty c j = Inr b \<longrightarrow> cd_read c (str_of_bytes (b @ [10])) = Inr j)"

lemma map_of_remove: "map_of (remove_key k m) k' = (if k' = k then None else map_of m k')"
  by (induction m) (auto simp: remove_key_def)

lemma as_str_Some: "as_str v = Some x \<longleftrightarrow> v = JStr x"
  by (cases v) auto

lemma map_of_patch:
  "map_of (patch_shipper a t m) k =
     (if k = ''agent_id'' then Some (JStr a) else if k = ''token_plain'' then Some (JStr t)
      else if k = ''enrollment_token'' then None
      else if k = ''token_encrypted_b64'' \<and> map_of m k = Some (JStr []) then None else map_of m k)"
  by (simp add: patch_shipper_def Let_def map_of_remove get_str_def bind_eq_Some_conv as_str_Some)

text \<open>The section that is decoded from a patched file.\<close>

definition patched_section :: "str \<Rightarrow> str \<Rightarrow> shipper_section \<Rightarrow> shipper_section" where
  "patched_section a t s =
     s\<lparr>ss_agent_id := Some a, ss_token_plain := Some t, ss_enrollment_token := None,
       ss_token_encrypted_b64 :=
         (if ss_token_encrypted_b64 s = Some [] then None else ss_token_encrypted_b64 s)\<rparr>"

lemma optional_str_empty: "optional as_str k j = Some v \<Longrightarrow> json_get k j = Some (JStr []) \<longleftrightarrow> v = Some []"
  by (auto simp: optional_def elim!: as_str.elims split: option.splits if_splits)

lemma optional_cong: "json_get k i = json_get k j \<Longrightarrow> optional d k i = optional d k j"
  by (simp add: optional_def)

lemma default_to_cong: "json_get k i = json_get k j \<Longrightarrow> default_to x d k i = default_to x d k j"
  by (simp add: default_to_def)

lemma default_env_cong: "json_get k i = json_get k j \<Longrightarrow> default_env k i = default_env k j"
  by (simp add: default_env_def)

lemma decode_patched_section:
  assumes "shipper_section_of_json (JObj m) = Some s"
  shows "shipper_section_of_json (JObj (patch_shipper a t m)) = Some (patched_section a t s)"
proof -
  let ?i = "JObj (patch_shipper a t m)" and ?j = "JObj m"
  have opt: "optional as_str k ?i = optional as_str k ?j"
    if "k \<notin> {''agent_id'', ''token_plain'', ''enrollment_token'', ''token_encrypted_b64''}" for k
    using that by (intro optional_cong) (simp add: map_of_patch)
  have dflt: "default_to x d k ?i = default_to x d k ?j"
    if "k \<notin> {''agent_id'', ''token_plain'', ''enrollment_token'', ''token_encrypted_b64''}"
    for k x and d :: "json \<Rightarrow> 'b option"
    using that by (intro default_to_cong) (simp add: map_of_patch)
  have tags: "default_env ''tags'' ?i = default_env ''tags'' ?j"
    by (intro default_env_cong) (simp add: map_of_patch)
  have fields: "optional as_str ''agent_id'' ?i = Some (Some a)" "optional as_str ''token_plain'' ?i = Some (Some t)"
    "optional as_str ''enrollment_token'' ?i = Some None"
    by (simp_all add: optional_def map_of_patch)
  obtain enc where enc: "optional as_str ''token_encrypted_b64'' ?j = Some enc" "ss_token_encrypted_b64 s = enc"
    using assms by (auto simp: shipper_section_of_json_def bind_eq_Some_conv)
  have "optional as_str ''token_encrypted_b64'' ?i = Some (if enc = Some [] then None else enc)"
    using enc(1) optional_str_empty [OF enc(1)] by (auto simp: optional_def map_of_patch)
  then show ?thesis
    using assms enc(1) by (auto simp: shipper_section_of_json_def bind_eq_Some_conv opt dflt tags fields
        patched_section_def)
qed

lemma decode_patched_file:
  assumes "config_file_of_json root = Some parsed" and "cf_shipper parsed = Some s"
    and "patched_root a t root = Some root'"
  shows "config_file_of_json root' = Some (parsed\<lparr>cf_shipper := Some (patched_section a t s)\<rparr>)"
proof -
  obtain m sh where root: "root = JObj m" "map_of m ''shipper'' = Some (JObj sh)"
    "root' = JObj (put ''shipper'' (JObj (patch_shipper a t sh)) m)"
    using assms(3) by (auto simp: patched_root_def split: json.splits option.splits)
  have "shipper_section_of_json (JObj sh) = Some s"
    using assms(1,2) root(1,2)
    by (auto simp: config_file_of_json_def bind_eq_Some_conv optional_def split: if_splits)
  then have sec: "optional shipper_section_of_json ''shipper'' root' = Some (Some (patched_section a t s))"
    by (simp add: root optional_def decode_patched_section)
  have opt: "optional d k root' = optional d k root" if "k \<noteq> ''shipper''"
    for k and d :: "json \<Rightarrow> 'b option"
    using that by (intro optional_cong) (simp add: root)
  show ?thesis
    using assms(1,2) sec unfolding config_file_of_json_def
    by (auto simp: bind_eq_Some_conv opt) (simp add: root)
qed


lemma patched_is_filled:
  "ss_token_encrypted_b64 s \<in> {None, Some []} \<Longrightarrow> patched_section a t s = fill_from_enroll a t s"
  by (auto simp: patched_section_def fill_from_enroll_def)

text \<open>The overrides that a load finds.\<close>

definition overrides_path :: "str \<Rightarrow> str" where
  "overrides_path path = join_path (parent_dir path) ''agent_config_overrides.json''"

definition overrides_found :: "config_host \<Rightarrow> str \<Rightarrow> world \<Rightarrow> agent_config_overrides option" where
  "overrides_found h path w =
     (case fst (read_file (ch_env h) (overrides_path path) w) of
        Inl _ \<Rightarrow> None
      | Inr b \<Rightarrow> (case parse_as (ch_codec h) overrides_of_json (str_of_bytes b) of
                  Inl _ \<Rightarrow> None | Inr ov \<Rightarrow> Some ov))"

definition merged :: "agent_config_overrides option \<Rightarrow> config_file \<Rightarrow> config_file" where
  "merged ov parsed = (case ov of None \<Rightarrow> parsed | Some ov \<Rightarrow> apply_overrides ov parsed)"

lemma merge_eq: "merge_server_overrides h path parsed w = (Inr (merged (overrides_found h path w) parsed), w)"
proof -
  have "snd (read_file (ch_env h) (overrides_path path) w) = w"
    by (auto simp: read_file_def split: option.splits)
  then obtain q where "read_file (ch_env h) (overrides_path path) w = (q, w)" by (metis prod.collapse)
  then show ?thesis
    by (auto simp: merge_server_overrides_def overrides_path_def seq_def attempt_def give_def
        overrides_found_def merged_def split: sum.splits)
qed

lemma merged_shipper [simp]:
  "cf_shipper (merged ov parsed) = cf_shipper parsed"
  "app_of h (merged ov (parsed\<lparr>cf_shipper := x\<rparr>)) s = app_of h (merged ov parsed) s"
  by (auto simp: merged_def apply_overrides_def app_of_def split: option.splits)

lemma readable_at: "readable env p \<Longrightarrow> read_file env p w =
    (case w_files w p of None \<Rightarrow> (Inl ''not found'', w) | Some b \<Rightarrow> (Inr b, w))"
  by (simp add: readable_def read_file_def)

lemma overrides_found_cong:
  assumes "readable (ch_env h) (overrides_path path)"
    and "w_files w' (overrides_path path) = w_files w (overrides_path path)"
  shows "overrides_found h path w' = overrides_found h path w"
  using assms by (simp add: overrides_found_def readable_at split: option.splits)

text \<open>A load of a file that is there and can be read.\<close>

lemma load_found:
  assumes "readable (ch_env h) path" and "w_files w path = Some bytes"
    and "parse_as (ch_codec h) config_file_of_json (str_of_bytes bytes) = Inr parsed"
  shows "load h path w =
    seq (load_shipper h path (cf_shipper parsed))
      (\<lambda>shipper. give (app_of h (merged (overrides_found h path w) parsed) shipper)) w"
  using assms
  by (simp add: load_def not_found_def load_existing_def seq_def blame_def readable_at lift_result_def
      merge_eq)

lemma parse_as_Inr_iff: "parse_as c d t = Inr x \<longleftrightarrow> (\<exists>j. cd_read c t = Inr j \<and> d j = Some x)"
  by (auto simp: parse_as_def split: sum.splits option.splits)

text \<open>An enrollment that succeeds leaves a file that holds the section it returns.\<close>

lemma autoenroll_stores:
  assumes "autoenroll_and_persist h path s w = (Inr s', w')" and "reads_pretty (ch_codec h)"
    and "readable (ch_env h) path" and "w_files w path = Some bytes"
    and "parse_as (ch_codec h) config_file_of_json (str_of_bytes bytes) = Inr parsed"
    and "cf_shipper parsed = Some s" and "ss_token_encrypted_b64 s \<in> {None, Some []}"
  shows "\<exists>b. w_files w' path = Some b \<and>
    parse_as (ch_codec h) config_file_of_json (str_of_bytes b) = Inr (parsed\<lparr>cf_shipper := Some s'\<rparr>) \<and>
    (\<exists>a t. s' = fill_from_enroll a t s)"
proof -
  obtain u tok a t w1 where perf: "enroll_perform h u tok w = (Inr (a, t), w1)"
    and pers: "persist_enrollment h path a t w1 = (Inr (), w')" and s': "s' = fill_from_enroll a t s"
    using assms(1) by (auto simp: autoenroll_and_persist_def success_simps throw_def split: option.splits)
  have same: "w_files w1 = w_files w" using enroll_perform_effects [OF perf] by blast
  obtain root where root: "cd_read (ch_codec h) (str_of_bytes bytes) = Inr root"
    "config_file_of_json root = Some parsed" using assms(5) by (auto simp: parse_as_Inr_iff)
  obtain root' where root': "patched_root a t root = Some root'"
    "write_pretty h ''re-serialize config: '' path root' w1 = (Inr (), w')"
    using pers assms(3,4) same root(1)
    by (auto simp: persist_enrollment_def success_simps readable_at throw_def split: option.splits)
  obtain b where b: "cd_pretty (ch_codec h) root' = Inr b" "w_files w' path = Some (b @ [10])"
    using root'(2) by (auto simp: write_pretty_def success_simps perform_def split: option.splits)
  have "parse_as (ch_codec h) config_file_of_json (str_of_bytes (b @ [10])) =
      Inr (parsed\<lparr>cf_shipper := Some (patched_section a t s)\<rparr>)"
    using assms(2) b(1) decode_patched_file [OF root(2) assms(6) root'(1)]
    by (auto simp: parse_as_Inr_iff reads_pretty_def)
  with b(2) assms(7) show ?thesis by (auto simp: s' patched_is_filled)
qed

lemma overrides_path_default: "overrides_path (default_path h) \<noteq> default_path h"
proof -
  obtain x where x: "\<And>n. join_path (base_dir h) n = x @ n"
    by (metis append_assoc append_Nil2 join_path_def)
  have "parent_dir (default_path h) = x @ ''WazabiEDR''"
    by (simp add: default_path_def x parent_dir_def is_separator_def)
  then show ?thesis by (simp add: overrides_path_def default_path_def x join_path_def is_separator_def)
qed



section \<open>The first start\<close>

lemma in_join_path: "c \<in> set n \<Longrightarrow> c \<in> set (join_path d n)"
  by (simp add: join_path_def)

lemma default_rules_visible:
  "\<not> is_blank (default_rules_path h)" "\<not> is_blank (default_server_rules_path h)"
  by (rule visible_not_blank [of "CHR ''a''"];
      simp add: default_rules_path_def default_server_rules_path_def in_join_path is_ascii_def ascii_white_def)+

text \<open>What the agent reads from the skeleton.\<close>

definition skeleton_config :: "config_host \<Rightarrow> app_config" where
  "skeleton_config h =
     (first_config h)\<lparr>app_detection := Some (default_detection h), app_control := Some default_control,
       app_etw := Some default_etw, app_polling := Some default_polling\<rparr>"

lemma decode_skeleton:
  "\<exists>parsed s. config_file_of_json (skeleton h) = Some parsed \<and> cf_shipper parsed = Some s \<and> \<not> ss_enabled s \<and>
     app_of h parsed None = skeleton_config h"
proof -
  have agent: "\<exists>s. optional agent_section_of_json ''agent'' (skeleton h) = Some (Some s) \<and>
      resolve_agent h s = default_agent h"
    by (simp add: skeleton_def Let_def optional_def agent_section_of_json_def as_i32_def resolve_agent_def
        default_agent_def)
  have shipper: "\<exists>s. optional shipper_section_of_json ''shipper'' (skeleton h) = Some (Some s) \<and> \<not> ss_enabled s"
    by (simp add: skeleton_def Let_def optional_def shipper_section_of_json_def default_to_def default_env_def)
  have sec_filter: "optional filter_section_of_json ''filter'' (skeleton h) = Some None"
    by (simp add: skeleton_def Let_def optional_def)
  have detection: "\<exists>s. optional detection_section_of_json ''detection'' (skeleton h) = Some (Some s) \<and>
      rd_enabled s = Some True \<and> resolve_detection h s = default_detection h"
    by (simp add: skeleton_def Let_def optional_def detection_section_of_json_def resolve_detection_def
        default_detection_def not_blank_def default_rules_visible)
  have control: "\<exists>s. optional control_section_of_json ''control'' (skeleton h) = Some (Some s) \<and>
      rc_enabled s = Some True \<and> resolve_control s = default_control"
    by (simp add: skeleton_def Let_def optional_def control_section_of_json_def resolve_control_def
        default_control_def)
  have etw: "\<exists>s. optional etw_section_of_json ''etw'' (skeleton h) = Some (Some s) \<and>
      rw_enabled s = Some True \<and> resolve_etw s = default_etw"
    by (simp add: skeleton_def Let_def optional_def etw_section_of_json_def resolve_etw_def default_etw_def)
  have polling: "\<exists>s. optional polling_section_of_json ''polling'' (skeleton h) = Some (Some s) \<and>
      rp_enabled s = Some True \<and> resolve_polling s = default_polling"
    by (simp add: skeleton_def Let_def optional_def polling_section_of_json_def resolve_polling_def
        default_polling_def)
  have "as_object (skeleton h) \<noteq> None" by (simp add: skeleton_def Let_def)
  with agent shipper sec_filter detection control etw polling show ?thesis
    by (auto simp: config_file_of_json_def app_of_def when_enabled_def skeleton_config_def first_config_def)
qed

lemma first_then_skeleton:
  assumes "w_files w (default_path h) = None" and "w_files w (overrides_path (default_path h)) = None"
    and "\<And>p. readable (ch_env h) p" and "\<And>t e. en_failure (ch_env h) t e = None"
    and "cd_pretty (ch_codec h) (skeleton h) = Inr b" and "reads_pretty (ch_codec h)"
  shows "\<exists>w'. load h (default_path h) w = (Inr (first_config h), w') \<and>
    load h (default_path h) w' = (Inr (skeleton_config h), w')"
proof -
  let ?path = "default_path h"
  define w' where "w' = snd (write_default_config h ?path w)"
  have "not_found h ?path w" using assms(1,3) by (simp add: not_found_def readable_def)
  then have first: "load h ?path w = (Inr (first_config h), w')"
    by (simp add: load_def seq_def attempt_def give_def w'_def case_prod_unfold)
  have files: "w_files w' = (w_files w)(?path := Some (b @ [10]))"
    using assms(4,5) by (simp add: w'_def write_default_config_def write_pretty_def seq_def blame_def
        lift_result_def perform_def)
  obtain parsed s where parsed: "config_file_of_json (skeleton h) = Some parsed" "cf_shipper parsed = Some s"
    "\<not> ss_enabled s" "app_of h parsed None = skeleton_config h" using decode_skeleton by blast
  have "parse_as (ch_codec h) config_file_of_json (str_of_bytes (b @ [10])) = Inr parsed"
    using assms(5,6) parsed(1) by (auto simp: parse_as_Inr_iff reads_pretty_def)
  moreover have "overrides_found h ?path w' = None"
    using assms(2,3) overrides_path_default [of h] by (simp add: overrides_found_def readable_at files)
  ultimately have "load h ?path w' = (Inr (skeleton_config h), w')"
    using parsed(2-) by (simp add: load_found [OF assms(3)] files load_shipper_def seq_def give_def merged_def)
  with first show ?thesis by blast
qed

text \<open>The first start and the second are not the same agent: without a file the agent runs with nothing but
the kernel events and the spool (no detection, no control plane, no ETW, no polling) and writes a skeleton; at
the next start the skeleton turns all four on, detection too, although the comment on it says that detection is
off.\<close>

theorem first_start_then_skeleton:
  assumes "w_files w (default_path h) = None" and "w_files w (overrides_path (default_path h)) = None"
    and "\<And>p. readable (ch_env h) p" and "\<And>t e. en_failure (ch_env h) t e = None"
    and "cd_pretty (ch_codec h) (skeleton h) = Inr b" and "reads_pretty (ch_codec h)"
  shows "\<exists>w'. load h (default_path h) w = (Inr (first_config h), w') \<and>
    load h (default_path h) w' = (Inr (skeleton_config h), w')"
  by (rule first_then_skeleton [OF assms])

section \<open>From the server to the next start\<close>

text \<open>What the server pushes is what the next start applies: after a synchronisation has handled the
configuration of a template, the next load of the agent's file runs with those overrides, whatever the template
was before.\<close>

theorem pushed_overrides_apply:
  assumes "write_agent_config_overrides sy template w = (Inr changed, w')"
    and "json_get ''agent_config'' template = Some (JObj m)" and "overrides_of_json (JObj m) = Some ov"
    and "sy_env sy = ch_env h" "sy_codec sy = ch_codec h" "sy_dir sy = parent_dir (default_path h)"
    and "\<And>p. readable (ch_env h) p"
    and "\<And>j b. cd_pretty (ch_codec h) j = Inr b \<Longrightarrow> cd_read (ch_codec h) (str_of_bytes b) = Inr j"
    and "w_files w' (default_path h) = Some bytes"
    and "parse_as (ch_codec h) config_file_of_json (str_of_bytes bytes) = Inr parsed"
    and "load h (default_path h) w' = (Inr app, w'')"
  shows "\<exists>shipper. app = app_of h (apply_overrides ov parsed) shipper"
proof -
  let ?path = "default_path h"
  have path: "agent_config_overrides_path (sy_dir sy) = overrides_path ?path"
    by (simp add: agent_config_overrides_path_def overrides_path_def assms(6))
  obtain body where body: "w_files w' (overrides_path ?path) = Some body"
    "cd_pretty (ch_codec h) (JObj m) = Inr body"
    using overrides_written [OF assms(1)] assms(2,4,5,7) by (auto simp: path)
  have "overrides_found h ?path w' = Some ov"
    using assms(8) [OF body(2)] assms(3,7) body(1)
    by (simp add: overrides_found_def readable_at parse_as_def)
  with assms(11) show ?thesis
    unfolding load_found [OF assms(7,9,10)] by (auto simp: success_simps merged_def)
qed


section \<open>Examples\<close>

text \<open>A file with an enrollment token, a server that answers it, and a library that reads and writes just
these documents.\<close>

definition token_root :: json where
  "token_root = JObj [(''shipper'', JObj [(''server_url'', JStr ''https://w''), (''enrollment_token'', JStr ''e'')])]"

definition enrolled_root :: json where
  "enrolled_root = JObj [(''shipper'', JObj [(''server_url'', JStr ''https://w''), (''agent_id'', JStr ''i''),
     (''token_plain'', JStr ''t'')])]"

definition enroll_codec :: codec where
  "enroll_codec =
     \<lparr>cd_write = \<lambda>j. Inr [], cd_pretty = \<lambda>j. if j = enrolled_root then Inr [1] else Inl ''e'',
      cd_read = \<lambda>t. if t = ''f'' then Inr token_root
        else if t = ''r'' then Inr (JObj [(''agent_id'', JStr ''i''), (''agent_token'', JStr ''t'')])
        else Inr enrolled_root,
      cd_shape_error = \<lambda>j. ''shape''\<rparr>"

definition enroll_host :: config_host where
  "enroll_host =
     \<lparr>ch_env =
        \<lparr>en_reply = \<lambda>h c. Inr \<lparr>re_status = 200, re_header = \<lambda>k. None, re_text = Inr ''r'', re_data = [],
           re_broken = None\<rparr>,
         en_failure = \<lambda>h e. None, en_unreadable = \<lambda>h p. None, en_program = \<lambda>h prog args. Inl [], en_pipe = 0\<rparr>,
      ch_codec = enroll_codec, ch_program_data = Some ''d'', ch_computername = None, ch_dpapi = \<lambda>b. Inl []\<rparr>"

definition bare_section :: shipper_section where
  "bare_section = empty_section\<lparr>ss_server_url := Some ''https://w'', ss_enrollment_token := Some ''e''\<rparr>"

definition bare_file :: config_file where
  "bare_file = \<lparr>cf_agent = None, cf_shipper = Some bare_section, cf_filter = None, cf_detection = None,
     cf_control = None, cf_etw = None, cf_polling = None\<rparr>"

definition token_world :: world where
  "token_world = \<lparr>w_files = [default_path enroll_host \<mapsto> [102]], w_history = []\<rparr>"

definition enrolled_shipper :: shipper_config where
  "enrolled_shipper = \<lparr>sc_server_url = ''https://w'', sc_agent_id = ''i'', sc_tenant_id = None, sc_tags = [],
     sc_token = ''t'', sc_verify_tls = True, sc_timeout = 30000, sc_poll_interval = 5000,
     sc_max_backoff = 300000\<rparr>"

definition enrolled_world :: world where
  "enrolled_world = \<lparr>w_files = [default_path enroll_host \<mapsto> [1, 10]],
     w_history = [(Request (enroll_call ''https://w'' []), True),
                  (Write_file (default_path enroll_host) [1, 10], True)]\<rparr>"

lemma visible_samples: "is_blank ''e'' = False" "is_blank ''i'' = False" "is_blank ''t'' = False"
  by (simp_all add: visible_not_blank [of "CHR ''e''"] visible_not_blank [of "CHR ''i''"]
      visible_not_blank [of "CHR ''t''"] is_ascii_def ascii_white_def)

lemma enroll_host_fields [simp]:
  "ch_codec enroll_host = enroll_codec" "en_failure (ch_env enroll_host) t e = None"
  "ch_computername enroll_host = None" "readable (ch_env enroll_host) p"
  "exchange (ch_env enroll_host) c w = (Inr \<lparr>re_status = 200, re_header = \<lambda>k. None, re_text = Inr ''r'', re_data = [],
     re_broken = None\<rparr>, record_effect (Request c) True w)"
  by (simp_all add: enroll_host_def readable_def exchange_def)

lemma sample_texts [simp]:
  "str_of_bytes [102] = ''f''" "str_of_bytes [1, 10] = [CHR 0x01, CHR 0x0A]"
  by code_simp+

lemma decode_bare: "parse_as enroll_codec config_file_of_json (str_of_bytes [102]) = Inr bare_file"
  by (simp add: parse_as_def enroll_codec_def token_root_def config_file_of_json_def optional_def
      shipper_section_of_json_def default_to_def default_env_def bare_file_def bare_section_def empty_section_def)

lemma token_world_files: "w_files token_world (default_path enroll_host) = Some [102]"
  by (simp add: token_world_def)

lemma sample_load:
  "load enroll_host (default_path enroll_host) token_world =
     (Inr (app_of enroll_host bare_file (Some enrolled_shipper)), enrolled_world)"
proof -
  have perf: "enroll_perform enroll_host ''https://w'' ''e'' w =
      (Inr (''i'', ''t''), record_effect (Request (enroll_call ''https://w'' [])) True w)" for w
    by (simp add: enroll_perform_def seq_def blame_def lift_result_def post_enroll_def enroll_codec_def
        parse_as_def enroll_response_of_json_def get_str_def visible_samples give_def)
  have patched: "patched_root ''i'' ''t'' token_root = Some enrolled_root"
    by (simp add: patched_root_def token_root_def enrolled_root_def patch_shipper_def remove_key_def get_str_def)
  have "autoenroll_and_persist enroll_host (default_path enroll_host) bare_section token_world =
      (Inr (fill_from_enroll ''i'' ''t'' bare_section), enrolled_world)"
    by (simp add: autoenroll_and_persist_def bare_section_def perf seq_def blame_def persist_enrollment_def
        readable_at token_world_def lift_result_def patched write_pretty_def enroll_codec_def
        perform_def give_def record_effect_def enrolled_world_def)
  moreover have "needs_autoenroll bare_section"
    by (simp add: needs_autoenroll_def present_def bare_section_def empty_section_def visible_samples)
  moreover have "has_space_or_control ''i'' = False" by (simp add: is_ascii_def)
  then have "resolved enroll_host (fill_from_enroll ''i'' ''t'' bare_section) = Inr enrolled_shipper"
    by (simp add: resolved_def resolve_shipper_def resolve_token_def fill_from_enroll_def bare_section_def
        empty_section_def starts_with_def strip_slashes_def not_blank_def visible_samples
        default_timeout_secs_def default_poll_interval_secs_def default_max_backoff_secs_def result_of_def
        enrolled_shipper_def)
  moreover have "overrides_found enroll_host (default_path enroll_host) token_world = None"
    by (simp add: overrides_found_def readable_at token_world_def overrides_path_default)
  moreover have "cf_shipper bare_file = Some bare_section" "ss_enabled bare_section"
    by (simp_all add: bare_file_def bare_section_def empty_section_def)
  moreover have "parse_as (ch_codec enroll_host) config_file_of_json (str_of_bytes [102]) = Inr bare_file"
    using decode_bare by simp
  then have "load enroll_host (default_path enroll_host) token_world =
      seq (load_shipper enroll_host (default_path enroll_host) (cf_shipper bare_file))
        (\<lambda>shipper. give (app_of enroll_host (merged (overrides_found enroll_host (default_path enroll_host)
           token_world) bare_file) shipper)) token_world"
    by (rule load_found [OF enroll_host_fields(4) token_world_files])
  ultimately show ?thesis
    by (simp add: load_shipper_def seq_def lift_result_def give_def merged_def)
qed

theorem loaded_config_bounds_witness:
  "app_shipper (app_of enroll_host bare_file (Some enrolled_shipper)) = Some enrolled_shipper \<and>
   \<not> has_space_or_control (sc_agent_id enrolled_shipper)"
  using loaded_config_bounds [OF sample_load] by (simp add: app_of_def)

theorem load_only_enrolls_witness:
  "\<exists>t. w_history enrolled_world = w_history token_world @ t \<and> enrollment (default_path enroll_host) t"
proof -
  have "\<not> not_found enroll_host (default_path enroll_host) token_world"
    by (simp add: not_found_def token_world_def)
  from load_only_enrolls [OF this sample_load] show ?thesis
    by (auto simp: token_world_def enrolled_world_def)
qed


text \<open>A host without a file, whose library writes and reads the skeleton.\<close>

definition fresh_codec :: "json \<Rightarrow> codec" where
  "fresh_codec j =
     \<lparr>cd_write = \<lambda>i. Inr [], cd_pretty = \<lambda>i. if i = j then Inr [1] else Inl ''e'', cd_read = \<lambda>t. Inr j,
      cd_shape_error = \<lambda>i. ''shape''\<rparr>"

definition fresh_host :: config_host where
  "fresh_host = enroll_host\<lparr>ch_codec := fresh_codec (skeleton enroll_host)\<rparr>"

lemma fresh_host_fields [simp]:
  "skeleton fresh_host = skeleton enroll_host" "ch_codec fresh_host = fresh_codec (skeleton enroll_host)"
  "ch_env fresh_host = ch_env enroll_host"
  by (simp_all add: fresh_host_def skeleton_def default_agent_def default_spool_dir_def base_dir_def
      default_detection_def default_rules_path_def default_server_rules_path_def)

theorem first_start_then_skeleton_witness:
  "\<exists>w'. load fresh_host (default_path fresh_host) \<lparr>w_files = Map.empty, w_history = []\<rparr> =
     (Inr (first_config fresh_host), w') \<and>
   load fresh_host (default_path fresh_host) w' = (Inr (skeleton_config fresh_host), w')"
  by (rule first_start_then_skeleton) (simp_all add: fresh_codec_def reads_pretty_def)

text \<open>A server that asks for a heartbeat every five seconds.\<close>

definition pushed_root :: json where
  "pushed_root = JObj [(''heartbeat_interval_secs'', JInt 5)]"

definition pushed_host :: config_host where
  "pushed_host = enroll_host\<lparr>ch_codec := fresh_codec pushed_root\<rparr>"


definition pushed_world :: world where
  "pushed_world = \<lparr>w_files = [default_path pushed_host \<mapsto> [], overrides_path (default_path pushed_host) \<mapsto> [1]],
     w_history = []\<rparr>"

definition pushed_sync :: sync_config where
  "pushed_sync = \<lparr>sy_env = ch_env pushed_host, sy_codec = ch_codec pushed_host, sy_creds = sync_creds,
     sy_dir = parent_dir (default_path pushed_host), sy_rules_path = None, sy_engine = False,
     sy_parse = \<lambda>s. Inr []\<rparr>"

definition pushed_file :: config_file where
  "pushed_file = \<lparr>cf_agent = None, cf_shipper = None, cf_filter = None, cf_detection = None,
     cf_control = None, cf_etw = None, cf_polling = None\<rparr>"

lemma pushed_host_fields [simp]:
  "ch_codec pushed_host = fresh_codec pushed_root" "ch_env pushed_host = ch_env enroll_host"
  by (simp_all add: pushed_host_def)

theorem pushed_overrides_apply_witness:
  "\<exists>app w''. load pushed_host (default_path pushed_host) pushed_world = (Inr app, w'') \<and>
     app_detection app \<noteq> None"
proof -
  have template: "json_get ''agent_config'' (JObj [(''agent_config'', pushed_root)]) =
      Some (JObj [(''heartbeat_interval_secs'', JInt 5)])"
    by (simp add: pushed_root_def)
  obtain ov where ov: "overrides_of_json (JObj [(''heartbeat_interval_secs'', JInt 5)]) = Some ov"
    "ov_detection_enabled ov = None"
    by (simp add: overrides_of_json_def optional_def)
  have wrote: "write_agent_config_overrides pushed_sync (JObj [(''agent_config'', pushed_root)]) pushed_world =
      (Inr False, pushed_world)"
    using template
    by (simp add: write_agent_config_overrides_def Let_def seq_def blame_def lift_result_def attempt_def
        pushed_sync_def readable_at pushed_world_def agent_config_overrides_path_def overrides_path_def
        fresh_codec_def give_def pushed_root_def)
  have files: "w_files pushed_world (default_path pushed_host) = Some []"
    using overrides_path_default [of pushed_host] by (simp add: pushed_world_def)
  have parsed: "parse_as (ch_codec pushed_host) config_file_of_json (str_of_bytes []) = Inr pushed_file"
    by (simp add: parse_as_def fresh_codec_def config_file_of_json_def optional_def pushed_root_def
        pushed_file_def)
  obtain app w'' where loaded: "load pushed_host (default_path pushed_host) pushed_world = (Inr app, w'')"
    using load_found [OF _ files parsed] by (simp add: pushed_file_def load_shipper_def seq_def give_def)
  have "\<exists>shipper. app = app_of pushed_host (apply_overrides ov pushed_file) shipper"
    by (rule pushed_overrides_apply [OF wrote template ov(1) _ _ _ _ _ files parsed loaded])
       (simp_all add: pushed_sync_def fresh_codec_def pushed_root_def split: if_splits)
  then have "app_detection app \<noteq> None"
    using ov(2) by (auto simp: app_of_def apply_overrides_def pushed_file_def when_enabled_def override_detection_def
        empty_detection_def override_def)
  with loaded show ?thesis by blast
qed

end
