(* ===== verification/Startup.thy ===== *)
theory Startup
  imports Config Detection
begin

text \<open>
  The start of the agent (\<open>run_agent\<close> of \<open>src/src/main.rs\<close> up to the pump), with the loading of the rules
  (\<open>src/src/detection/mod.rs\<close>): which parts run for which configuration, what each is given, and which
  failures end the agent. Whether a thread, the device, the trace or a spool can be opened is the record
  \<open>boot\<close>; the rule language belongs to another crate and is the record \<open>rule_library\<close>, whose parser reads the
  files of the world itself.
\<close>

section \<open>Loading the rules\<close>

record ('rules, 'schema) rule_library =
  rl_parse :: "(str \<Rightarrow> bytes option) \<Rightarrow> str \<Rightarrow> millis \<Rightarrow> str + 'rules"
  rl_fields :: "'rules \<Rightarrow> (str \<times> (str \<times> str \<times> str) list) list"
  rl_declare :: "json \<Rightarrow> 'schema option"
  rl_no_schema :: 'schema
  rl_is_empty :: "'schema \<Rightarrow> bool"
  rl_known :: "'schema \<Rightarrow> str \<Rightarrow> str \<Rightarrow> str \<Rightarrow> bool"

definition bootstrap_text :: str where
  "bootstrap_text =
     ''# Fichier ma'' @ [CHR 0xC3, CHR 0xAE] @ ''tre des r'' @ [CHR 0xC3, CHR 0xA8] @ ''gles '' @
      [CHR 0xE2, CHR 0x80, CHR 0x94] @ '' auto-g'' @ [CHR 0xC3, CHR 0xA9] @ ''n'' @
      [CHR 0xC3, CHR 0xA9] @ ''r'' @ [CHR 0xC3, CHR 0xA9] @ '' au premier d'' @ [CHR 0xC3, CHR 0xA9] @
      ''marrage.'' @ [CHR 0x0A] @
     ''# Les r'' @ [CHR 0xC3, CHR 0xA8] @ ''gles pouss'' @ [CHR 0xC3, CHR 0xA9] @
      ''es par le serveur arrivent dans ./server.waza et'' @ [CHR 0x0A] @
     ''# sont charg'' @ [CHR 0xC3, CHR 0xA9] @ ''es via l'' @ [CHR 0x27] @
      ''include ci-dessous. Ajoute ici tes r'' @ [CHR 0xC3, CHR 0xA8] @ ''gles locales.'' @ [CHR 0x0A] @
     [CHR 0x0A] @
     ''- Detection:'' @ [CHR 0x0A] @
     ''  - _bootstrap:'' @ [CHR 0x0A] @
     ''      - kernel_callback.process_create.pid > 0'' @ [CHR 0x0A] @
     ''  - include '' @ [CHR 0x22] @ ''./server.waza'' @ [CHR 0x22] @ [CHR 0x0A] @
     [CHR 0x0A] @
     ''- Action:'' @ [CHR 0x0A] @
     ''  - _bootstrap:'' @ [CHR 0x0A] @
     ''    - log'' @ [CHR 0x0A]"

definition server_sibling :: "str \<Rightarrow> str" where
  "server_sibling rules_path = join_path (parent_dir rules_path) ''server.waza''"

definition bootstrap_rules_file :: "env \<Rightarrow> str \<Rightarrow> (world, unit) act" where
  "bootstrap_rules_file env rules_path =
     seq (perform env (Make_dir (parent_dir rules_path))) (\<lambda>_.
     seq (file_exists (server_sibling rules_path)) (\<lambda>there.
     seq (if there then give () else perform env (Write_file (server_sibling rules_path) [])) (\<lambda>_.
     perform env (Write_file rules_path (bytes_of_str bootstrap_text)))))"

definition load_schema_into ::
    "env \<Rightarrow> codec \<Rightarrow> ('rules, 'schema) rule_library \<Rightarrow> str \<Rightarrow> (world, 'schema) act" where
  "load_schema_into env c lib path =
     seq (attempt (read_file env path)) (\<lambda>r.
     case r of
       Inl _ \<Rightarrow> give (rl_no_schema lib)
     | Inr bytes \<Rightarrow>
         (case parse_as c (rl_declare lib) (str_of_bytes bytes) of
            Inl _ \<Rightarrow> give (rl_no_schema lib)
          | Inr schema \<Rightarrow> give schema))"

definition unknown_field :: "str \<Rightarrow> str \<times> str \<times> str \<Rightarrow> str" where
  "unknown_field rule p =
     (case p of (m, t, f) \<Rightarrow>
        ''[waza] rule '' @ [CHR 0x27] @ rule @ [CHR 0x27] @ '' references unknown field '' @ [CHR 0x27] @ m @
        ''.'' @ t @ ''.'' @ f @ [CHR 0x27] @ '' (not in schema '' @ em_dash @ '' check for a typo)'')"

text \<open>The warnings about the fields that the schema does not have.\<close>

definition validate_rules :: "('rules, 'schema) rule_library \<Rightarrow> 'schema \<Rightarrow> 'rules \<Rightarrow> str list" where
  "validate_rules lib schema rules =
     (if rl_is_empty lib schema then []
      else concat (map (\<lambda>(rule, paths).
        map (unknown_field rule) (filter (\<lambda>(m, t, f). \<not> rl_known lib schema m t f) paths)) (rl_fields lib rules)))"

text \<open>\<open>DetectionEngine::load\<close>: the rules and the warnings. A schema that cannot be read, or a bootstrap that
fails, is not an error; rules that do not parse are.\<close>

definition load_rules ::
    "env \<Rightarrow> codec \<Rightarrow> ('rules, 'schema) rule_library \<Rightarrow> str \<Rightarrow> str option \<Rightarrow> millis \<Rightarrow> (world, 'rules \<times> str list) act" where
  "load_rules env c lib rules_path schema_path window =
     seq (case schema_path of None \<Rightarrow> give (rl_no_schema lib) | Some sp \<Rightarrow> load_schema_into env c lib sp) (\<lambda>schema.
     seq (file_exists rules_path) (\<lambda>there.
     seq (if there then give (Inr ()) else attempt (bootstrap_rules_file env rules_path)) (\<lambda>_ w.
       case rl_parse lib (w_files w) rules_path window of
         Inl e \<Rightarrow> (Inl e, w)
       | Inr rules \<Rightarrow> (Inr (rules, validate_rules lib schema rules), w))))"

section \<open>The parts of a running agent\<close>

record boot =
  bt_service :: bool
  bt_argument :: bool
  bt_device :: "str + int"
  bt_kernel_spool :: "str option"
  bt_plugin_spool :: "str option"
  bt_server :: "str option"
  bt_reload :: bool
  bt_shipper :: "str option"
  bt_trace :: "provider list \<Rightarrow> bool"
  bt_poll_services :: bool
  bt_poll_tasks :: bool
  bt_control :: "str option"

record control_setup =
  cn_creds :: server_creds
  cn_heartbeat_interval :: millis
  cn_send_alerts :: bool
  cn_state_dir :: str
  cn_remote_rules_path :: "str option"
  cn_engine :: bool
  cn_receiver :: bool

record 'rules running =
  rn_device :: int
  rn_filter :: "event_filter option"
  rn_rules :: "'rules option"
  rn_alert_sink :: bool
  rn_reload :: bool
  rn_kernel_dir :: str
  rn_plugin_dir :: "str option"
  rn_server :: bool
  rn_supervisor :: bool
  rn_shipper :: "(shipper_config \<times> str list) option"
  rn_etw :: "provider list option"
  rn_polling :: "(bool \<times> bool) option"
  rn_control :: "control_setup option"

text \<open>How the process ends when it does not come to run: with status 0, status 2, or an error of \<open>main\<close>.\<close>

datatype boot_end = Help_shown | Config_error str | Io_error str

definition PLUGIN_SPOOL_SUBDIR :: str where "PLUGIN_SPOOL_SUBDIR = ''plugins''"

definition creds_of :: "shipper_config \<Rightarrow> server_creds" where
  "creds_of sc = \<lparr>cr_server_url = sc_server_url sc, cr_agent_id = sc_agent_id sc, cr_token = sc_token sc\<rparr>"

text \<open>Alerts are wired only when the control plane, the detection and the sending are all on.\<close>

definition wants_alerts :: "app_config \<Rightarrow> bool" where
  "wants_alerts cfg \<longleftrightarrow>
     app_control cfg \<noteq> None \<and> app_shipper cfg \<noteq> None \<and> app_detection cfg \<noteq> None \<and>
     (case app_control cfg of Some c \<Rightarrow> cc_send_alerts c | None \<Rightarrow> False)"

definition start_detection ::
    "config_host \<Rightarrow> ('rules, 'schema) rule_library \<Rightarrow> app_config \<Rightarrow> world \<Rightarrow> 'rules option \<times> world" where
  "start_detection h lib cfg w =
     (case app_detection cfg of
        None \<Rightarrow> (None, w)
      | Some d \<Rightarrow>
          (case load_rules (ch_env h) (ch_codec h) lib (dc_rules_path d) (dc_schema_path d) (dc_default_window d) w of
             (Inl e, w') \<Rightarrow> (None, w')
           | (Inr (rules, warnings), w') \<Rightarrow> (Some rules, w')))"

definition polling_spawn :: "boot \<Rightarrow> polling_config \<Rightarrow> (bool \<times> bool) option" where
  "polling_spawn b p =
     (if \<not> po_services p \<and> \<not> po_scheduled_tasks p then None
      else Some (po_services p \<and> bt_poll_services b, po_scheduled_tasks p \<and> bt_poll_tasks b))"

definition start_control :: "boot \<Rightarrow> config_host \<Rightarrow> app_config \<Rightarrow> bool \<Rightarrow> control_setup option" where
  "start_control b h cfg engine =
     (case (app_control cfg, app_shipper cfg) of
        (Some cc, Some sc) \<Rightarrow>
          if bt_control b \<noteq> None then None
          else Some \<lparr>cn_creds = creds_of sc, cn_heartbeat_interval = cc_heartbeat_interval cc,
                 cn_send_alerts = cc_send_alerts cc, cn_state_dir = parent_dir (default_path h),
                 cn_remote_rules_path = Option.bind (app_detection cfg) dc_server_rules_path,
                 cn_engine = engine, cn_receiver = wants_alerts cfg\<rparr>
      | _ \<Rightarrow> None)"

text \<open>The parts that are started once the device and the spool of the kernel events are open.\<close>

definition parts_of :: "boot \<Rightarrow> config_host \<Rightarrow> app_config \<Rightarrow> event_filter option \<Rightarrow> int \<Rightarrow> 'rules option \<Rightarrow> 'rules running" where
  "parts_of b h cfg cell device rules =
     (let kernel_dir = ac_spool_dir (app_agent cfg); plugin_dir = join_path kernel_dir PLUGIN_SPOOL_SUBDIR in
      \<lparr>rn_device = device,
       rn_filter = filter_init (app_filter cfg) cell,
       rn_rules = rules,
       rn_alert_sink = (rules \<noteq> None \<and> wants_alerts cfg),
       rn_reload = (rules \<noteq> None \<and> bt_reload b),
       rn_kernel_dir = kernel_dir,
       rn_plugin_dir = (if bt_plugin_spool b = None then Some plugin_dir else None),
       rn_server = (bt_server b = None),
       rn_supervisor = (bt_server b = None),
       rn_shipper = (case app_shipper cfg of
                       Some sc \<Rightarrow> if bt_shipper b = None then Some (sc, [kernel_dir, plugin_dir]) else None
                     | None \<Rightarrow> None),
       rn_etw = Option.bind (app_etw cfg) (etw_spawn (bt_trace b)),
       rn_polling = Option.bind (app_polling cfg) (polling_spawn b),
       rn_control = start_control b h cfg (rules \<noteq> None)\<rparr>)"

definition run_agent ::
    "boot \<Rightarrow> config_host \<Rightarrow> ('rules, 'schema) rule_library \<Rightarrow> event_filter option \<Rightarrow> world \<Rightarrow>
     (boot_end + 'rules running) \<times> world" where
  "run_agent b h lib cell w =
     (if \<not> bt_service b \<and> bt_argument b then (Inl Help_shown, w)
      else case load h (default_path h) w of
        (Inl e, w') \<Rightarrow> (Inl (Config_error e), w')
      | (Inr cfg, w') \<Rightarrow>
          (case bt_device b of
             Inl e \<Rightarrow> (Inl (Io_error e), w')
           | Inr device \<Rightarrow>
               (case start_detection h lib cfg w' of
                  (rules, w'') \<Rightarrow>
                    (case bt_kernel_spool b of
                       Some e \<Rightarrow> (Inl (Io_error e), w'')
                     | None \<Rightarrow> (Inr (parts_of b h cfg cell device rules), w'')))))"

section \<open>Which failures end the agent\<close>


section \<open>How the parts are wired\<close>

lemma run_agent_parts:
  assumes "run_agent b h lib cell w = (Inr a, w'')"
  shows "\<exists>cfg w' device rules. load h (default_path h) w = (Inr cfg, w') \<and>
    start_detection h lib cfg w' = (rules, w'') \<and> a = parts_of b h cfg cell device rules"
  using assms by (auto simp: run_agent_def split: sum.splits option.splits prod.splits if_splits)

lemma start_detection_off: "app_detection cfg = None \<Longrightarrow> start_detection h lib cfg w = (None, w)"
  by (simp add: start_detection_def)

lemma join_path_longer: "n \<noteq> [] \<Longrightarrow> join_path d n \<noteq> d"
  by (auto simp: join_path_def)

text \<open>C30. The parts of a running agent fit together: the control plane talks to the server of the shipper with its
credentials; the detection layer sends alerts only to a receiver that exists unless the control plane itself did
not start, and the receiver exists exactly when alerts are wanted; plugins are launched only when there is a
server to connect to; and the shipper watches the directories of both spools, which are different.\<close>

theorem parts_fit:
  assumes "run_agent b h lib cell w = (Inr a, w'')"
  shows "(\<forall>c. rn_control a = Some c \<longrightarrow>
      (\<exists>cfg w' sc. load h (default_path h) w = (Inr cfg, w') \<and> app_shipper cfg = Some sc \<and>
         cn_creds c = creds_of sc \<and> (cn_receiver c \<longleftrightarrow> app_detection cfg \<noteq> None \<and> cn_send_alerts c))) \<and>
    (rn_alert_sink a \<longrightarrow> rn_rules a \<noteq> None \<and>
       (bt_control b = None \<longrightarrow> (\<exists>c. rn_control a = Some c \<and> cn_receiver c))) \<and>
    (rn_supervisor a \<longrightarrow> rn_server a) \<and>
    (\<forall>sc dirs. rn_shipper a = Some (sc, dirs) \<longrightarrow> distinct dirs \<and> rn_kernel_dir a \<in> set dirs \<and>
       (\<forall>d. rn_plugin_dir a = Some d \<longrightarrow> d \<in> set dirs))"
proof -
  obtain cfg w' device rules where l: "load h (default_path h) w = (Inr cfg, w')"
    and a: "a = parts_of b h cfg cell device rules" using run_agent_parts [OF assms] by blast
  have control: "\<exists>sc. app_shipper cfg = Some sc \<and> cn_creds c = creds_of sc \<and>
      (cn_receiver c \<longleftrightarrow> app_detection cfg \<noteq> None \<and> cn_send_alerts c)" if "rn_control a = Some c" for c
    using that by (auto simp: a parts_of_def Let_def start_control_def wants_alerts_def
        split: option.splits if_splits)
  have sink: "\<exists>c. rn_control a = Some c \<and> cn_receiver c" if "rn_alert_sink a" "bt_control b = None"
    using that by (auto simp: a parts_of_def Let_def start_control_def wants_alerts_def split: option.splits)
  have rest: "rn_alert_sink a \<longrightarrow> rn_rules a \<noteq> None" "rn_supervisor a \<longrightarrow> rn_server a"
    by (simp_all add: a parts_of_def Let_def)
  have dirs: "distinct dirs \<and> rn_kernel_dir a \<in> set dirs \<and> (\<forall>d. rn_plugin_dir a = Some d \<longrightarrow> d \<in> set dirs)"
    if "rn_shipper a = Some (sc, dirs)" for sc dirs
    using that join_path_longer [of PLUGIN_SPOOL_SUBDIR "ac_spool_dir (app_agent cfg)"]
    by (auto simp: a parts_of_def Let_def PLUGIN_SPOOL_SUBDIR_def split: option.splits if_splits)
  show ?thesis using control sink rest dirs l by blast
qed

section \<open>The first boot of the rules\<close>

lemma applied_perform: "en_failure env t e = None \<Longrightarrow> w_history w = t \<Longrightarrow>
    perform env e w = (Inr (), record_effect e True (w\<lparr>w_files := applied e (w_files w)\<rparr>))"
  by (simp add: perform_def)

definition keeps_or_empties :: "(str \<Rightarrow> bytes option) \<Rightarrow> str \<Rightarrow> bytes option" where
  "keeps_or_empties fs p = (case fs p of None \<Rightarrow> Some [] | Some b \<Rightarrow> Some b)"

lemma bootstrap_writes:
  assumes "\<And>t e. en_failure env t e = None" and "server_sibling p \<noteq> p"
  shows "\<exists>w'. bootstrap_rules_file env p w = (Inr (), w') \<and>
    w_files w' p = Some (bytes_of_str bootstrap_text) \<and>
    w_files w' (server_sibling p) = keeps_or_empties (w_files w) (server_sibling p)"
  using assms
  by (simp add: bootstrap_rules_file_def seq_def perform_def file_exists_def give_def keeps_or_empties_def
      split: option.split)

lemma default_rules_siblings:
  "server_sibling (default_rules_path h) = default_server_rules_path h"
  "default_server_rules_path h \<noteq> default_rules_path h"
proof -
  define d where "d = join_path (join_path (base_dir h) ''WazabiEDR'') ''rules''"
  have "d \<noteq> []" by (simp add: d_def join_path_def)
  have "last d = CHR ''s''" by (simp add: d_def join_path_last)
  then have "\<not> is_separator (last d)" by (simp add: is_separator_def)
  with \<open>d \<noteq> []\<close> have "parent_dir (default_rules_path h) = d"
    by (simp add: default_rules_path_def d_def [symmetric] parent_join is_separator_def)
  then show "server_sibling (default_rules_path h) = default_server_rules_path h"
    by (simp add: server_sibling_def default_server_rules_path_def d_def)
  show "default_server_rules_path h \<noteq> default_rules_path h"
    by (simp add: default_server_rules_path_def default_rules_path_def)
qed

text \<open>On a machine without rules the detection layer starts from files that take the server's rules in: with
the default paths the rules file is written, the file it includes is the one that a synchronisation writes to,
that file exists (a content that the server pushed before is kept), and these are the files that are parsed.\<close>

theorem bootstrap_includes_pushed_rules:
  assumes "\<And>t e. en_failure (ch_env h) t e = None" and "w_files w (default_rules_path h) = None"
    and "app_detection cfg = Some (default_detection h)"
  shows "\<exists>w'. w_files w' (default_rules_path h) = Some (bytes_of_str bootstrap_text) \<and>
    dc_server_rules_path (default_detection h) = Some (server_sibling (default_rules_path h)) \<and>
    w_files w' (server_sibling (default_rules_path h)) =
      keeps_or_empties (w_files w) (server_sibling (default_rules_path h)) \<and>
    start_detection h lib cfg w =
      (case rl_parse lib (w_files w') (default_rules_path h) 5000 of Inl e \<Rightarrow> None | Inr rules \<Rightarrow> Some rules, w')"
proof -
  let ?p = "default_rules_path h"
  have "server_sibling ?p \<noteq> ?p" by (simp add: default_rules_siblings)
  from bootstrap_writes [of "ch_env h", OF assms(1) this]
  obtain w' where w': "bootstrap_rules_file (ch_env h) ?p w = (Inr (), w')"
    "w_files w' ?p = Some (bytes_of_str bootstrap_text)"
    "w_files w' (server_sibling ?p) = keeps_or_empties (w_files w) (server_sibling ?p)" by blast
  have "start_detection h lib cfg w =
      (case rl_parse lib (w_files w') ?p 5000 of Inl e \<Rightarrow> None | Inr rules \<Rightarrow> Some rules, w')"
    using assms(2,3) w'(1)
    by (simp add: start_detection_def default_detection_def load_rules_def seq_def give_def file_exists_def
        attempt_def split: sum.split)
  with w'(2,3) show ?thesis by (auto simp: default_detection_def default_rules_siblings)
qed

section \<open>The first two starts\<close>

text \<open>On a fresh machine where everything can be started, the agent's first run is the kernel pump, the
spools and the plugin server alone, although the file it writes then says otherwise: the second run, with no
change to the file, adds the rules, all six providers of ETW and both pollers. Neither has a control plane, which
the skeleton turns on, because that needs the shipper, which the skeleton turns off.\<close>

theorem second_start_adds_layers:
  assumes "w_files w (default_path h) = None" and "w_files w (overrides_path (default_path h)) = None"
    and "\<And>p. readable (ch_env h) p" and "\<And>t e. en_failure (ch_env h) t e = None"
    and "cd_pretty (ch_codec h) (skeleton h) = Inr bs" and "reads_pretty (ch_codec h)"
    and "bt_argument b = False" and "bt_device b = Inr device" and "bt_kernel_spool b = None"
    and "bt_trace b = (\<lambda>ps. True)" and "bt_poll_services b" and "bt_poll_tasks b"
    and "\<And>fs p n. rl_parse lib fs p n = Inr rules"
  shows "\<exists>a1 a2 w1 w2. run_agent b h lib cell w = (Inr a1, w1) \<and> run_agent b h lib cell w1 = (Inr a2, w2) \<and>
    rn_rules a1 = None \<and> rn_etw a1 = None \<and> rn_polling a1 = None \<and> rn_control a1 = None \<and>
    rn_rules a2 = Some rules \<and> rn_etw a2 = Some [Dns, Tcp, Powershell, Wmi, Schannel, Amsi] \<and>
    rn_polling a2 = Some (True, True) \<and> rn_control a2 = None"
proof -
  obtain w1 where w1: "load h (default_path h) w = (Inr (first_config h), w1)"
    "load h (default_path h) w1 = (Inr (skeleton_config h), w1)"
    using first_then_skeleton [OF assms(1-6)] by blast
  have first: "run_agent b h lib cell w = (Inr (parts_of b h (first_config h) cell device None), w1)"
    using w1(1) assms(7-9) by (simp add: run_agent_def start_detection_def first_config_def)
  obtain w2 where d: "start_detection h lib (skeleton_config h) w1 = (Some rules, w2)"
    using assms(13)
    by (cases "w_files w1 (default_rules_path h)"; cases "bootstrap_rules_file (ch_env h) (default_rules_path h) w1")
       (auto simp: start_detection_def skeleton_config_def load_rules_def seq_def give_def file_exists_def
        default_detection_def attempt_def)
  have second: "run_agent b h lib cell w1 = (Inr (parts_of b h (skeleton_config h) cell device (Some rules)), w2)"
    using w1(2) d assms(7-9) by (simp add: run_agent_def)
  show ?thesis
    using first second assms(10-12)
    by (auto simp: parts_of_def Let_def first_config_def skeleton_config_def start_control_def etw_spawn_def
        enabled_providers_def default_etw_def polling_spawn_def default_polling_def)
qed

section \<open>Examples\<close>

text \<open>A host where everything can be started, and rules that always parse.\<close>

definition open_boot :: boot where
  "open_boot = \<lparr>bt_service = True, bt_argument = False, bt_device = Inr 7, bt_kernel_spool = None,
     bt_plugin_spool = None, bt_server = None, bt_reload = True, bt_shipper = None, bt_trace = \<lambda>ps. True,
     bt_poll_services = True, bt_poll_tasks = True, bt_control = None\<rparr>"

definition any_rules :: "(unit, unit) rule_library" where
  "any_rules = \<lparr>rl_parse = \<lambda>fs p n. Inr (), rl_fields = \<lambda>r. [], rl_declare = \<lambda>j. None, rl_no_schema = (),
     rl_is_empty = \<lambda>s. True, rl_known = \<lambda>s m t f. True\<rparr>"

theorem parts_fit_witness:
  "\<exists>a w'' sc d1 d2. run_agent open_boot enroll_host any_rules None token_world = (Inr a, w'') \<and>
     rn_shipper a = Some (sc, [d1, d2]) \<and> d1 \<noteq> d2"
proof -
  define cfg where "cfg = app_of enroll_host bare_file (Some enrolled_shipper)"
  have "app_detection cfg = None"
    by (simp add: cfg_def app_of_def bare_file_def when_enabled_def)
  then have run: "run_agent open_boot enroll_host any_rules None token_world =
      (Inr (parts_of open_boot enroll_host cfg None 7 None), enrolled_world)"
    using sample_load by (simp add: run_agent_def open_boot_def start_detection_def cfg_def)
  have "app_shipper cfg = Some enrolled_shipper" by (simp add: cfg_def app_of_def)
  then obtain d1 d2 where "rn_shipper (parts_of open_boot enroll_host cfg None 7 (None :: unit option)) =
      Some (enrolled_shipper, [d1, d2])"
    by (simp add: parts_of_def Let_def open_boot_def)
  with parts_fit [OF run] run show ?thesis by fastforce
qed

theorem bootstrap_includes_pushed_rules_witness:
  "\<exists>w'. start_detection enroll_host any_rules (skeleton_config enroll_host) \<lparr>w_files = Map.empty, w_history = []\<rparr> =
      (Some (), w') \<and> w_files w' (default_server_rules_path enroll_host) = Some []"
proof -
  have d: "app_detection (skeleton_config enroll_host) = Some (default_detection enroll_host)"
    by (simp add: skeleton_config_def)
  obtain w' where
    "w_files w' (server_sibling (default_rules_path enroll_host)) =
       keeps_or_empties (w_files \<lparr>w_files = Map.empty, w_history = []\<rparr>) (server_sibling (default_rules_path enroll_host))"
    "start_detection enroll_host any_rules (skeleton_config enroll_host) \<lparr>w_files = Map.empty, w_history = []\<rparr> =
       (case rl_parse any_rules (w_files w') (default_rules_path enroll_host) 5000 of Inl e \<Rightarrow> None | Inr rules \<Rightarrow> Some rules, w')"
    using bootstrap_includes_pushed_rules [OF enroll_host_fields(2) _ d, of "\<lparr>w_files = Map.empty, w_history = []\<rparr>" any_rules]
    by auto
  then show ?thesis by (simp add: any_rules_def keeps_or_empties_def default_rules_siblings)
qed

theorem second_start_adds_layers_witness:
  "\<exists>a1 a2 w1 w2.
     run_agent open_boot fresh_host any_rules None \<lparr>w_files = Map.empty, w_history = []\<rparr> = (Inr a1, w1) \<and>
     run_agent open_boot fresh_host any_rules None w1 = (Inr a2, w2) \<and>
     rn_etw a1 = None \<and> rn_etw a2 = Some [Dns, Tcp, Powershell, Wmi, Schannel, Amsi]"
proof -
  have *: "cd_pretty (ch_codec fresh_host) (skeleton fresh_host) = Inr [1]" "reads_pretty (ch_codec fresh_host)"
    by (auto simp: fresh_codec_def reads_pretty_def split: if_splits)
  have boot: "bt_argument open_boot = False" "bt_device open_boot = Inr 7" "bt_kernel_spool open_boot = None"
    "bt_trace open_boot = (\<lambda>ps. True)" "bt_poll_services open_boot" "bt_poll_tasks open_boot"
    by (simp_all add: open_boot_def)
  have lib: "rl_parse any_rules fs p n = Inr ()" for fs p n by (simp add: any_rules_def)
  show ?thesis
    using second_start_adds_layers [OF _ _ _ _ * boot lib, of "\<lparr>w_files = Map.empty, w_history = []\<rparr>" None]
    by simp blast
qed

end
