(* ===== verification/Kernel_Text.thy ===== *)
theory Kernel_Text
  imports Kernel_Decode
begin

text \<open>
  \<open>src/src/ipc/parser.rs\<close>: the console line of each kernel event. A printer returns the line it
  gives to \<open>println!\<close>. The decoder is written twice in the source, here and in \<open>ipc/json.rs\<close>;
  that the two agree on which buffers are events is a theorem.
\<close>

definition quote :: char where "quote = CHR 0x22"

record event_ctx =
  cx_timestamp :: u64
  cx_drop_marker :: str
  cx_trunc_marker :: str

definition decode_packed_path :: "nat \<Rightarrow> u16 list \<Rightarrow> u16 \<Rightarrow> str" where
  "decode_packed_path N arr len =
     (if unat len = 0 \<or> N < unat len then ''<unknown>''
      else from_utf16_lossy (take (unat len) arr))"

definition stamp :: "platform \<Rightarrow> event_ctx \<Rightarrow> str" where
  "stamp p ctx = ''['' @ format_timestamp p (cx_timestamp ctx) @ ''] ''"

definition markers :: "event_ctx \<Rightarrow> str" where
  "markers ctx = cx_drop_marker ctx @ cx_trunc_marker ctx"

definition num :: "('a::len) word \<Rightarrow> str" where
  "num w = dec (unat w)"

definition quoted :: "str \<Rightarrow> str" where
  "quoted s = quote # s @ [quote]"

section \<open>Labels\<close>

definition integrity_label :: "u32 \<Rightarrow> str" where
  "integrity_label rid =
     (if rid = 0x0000 then ''untrusted'' else if rid = 0x1000 then ''low''
      else if rid = 0x2000 then ''medium'' else if rid = 0x2100 then ''medium+''
      else if rid = 0x3000 then ''high'' else if rid = 0x4000 then ''system''
      else if rid = 0x5000 then ''protected'' else if rid = 0xFFFFFFFF then ''?''
      else ''?(0x'' @ hex (unat rid) @ '')'')"

definition registry_op_label :: "u16 \<Rightarrow> str" where
  "registry_op_label op =
     (if op = REGISTRY_OP_SET_VALUE then ''SetValue   ''
      else if op = REGISTRY_OP_DELETE_VALUE then ''DeleteValue''
      else if op = REGISTRY_OP_DELETE_KEY then ''DeleteKey  ''
      else if op = REGISTRY_OP_RENAME_KEY then ''RenameKey  ''
      else if op = REGISTRY_OP_CREATE_KEY then ''CreateKey  '' else ''Op?        '')"

definition REG_SZ :: u32 where "REG_SZ = 1"
definition REG_EXPAND_SZ :: u32 where "REG_EXPAND_SZ = 2"
definition REG_DWORD :: u32 where "REG_DWORD = 4"
definition REG_MULTI_SZ :: u32 where "REG_MULTI_SZ = 7"
definition REG_QWORD :: u32 where "REG_QWORD = 11"

definition HEX_LIMIT :: nat where "HEX_LIMIT = 32"

text \<open>\<open>chunks_exact(2)\<close> drops an odd last byte.\<close>

fun units_of :: "bytes \<Rightarrow> u16 list" where
  "units_of (a # b # bs) = word_of_nat (le_nat [a, b]) # units_of bs"
| "units_of _ = []"

fun join :: "str \<Rightarrow> str list \<Rightarrow> str" where
  "join sep [] = []"
| "join sep [x] = x"
| "join sep (x # y # ys) = x @ sep @ join sep (y # ys)"

definition render_data_preview :: "u32 \<Rightarrow> bytes \<Rightarrow> str" where
  "render_data_preview value_type preview =
     (if value_type = REG_SZ \<or> value_type = REG_EXPAND_SZ \<or> value_type = REG_MULTI_SZ then
        (if length preview < 2 then quoted []
         else let units = units_of preview;
                  trimmed = rev (dropWhile (\<lambda>u. u = 0) (rev units));
                  s = map (\<lambda>c. if c = CHR 0x00 then CHR ''|'' else c) (from_utf16_lossy trimmed)
              in quoted s)
      else if value_type = REG_DWORD \<and> 4 \<le> length preview then
        (let v = le_nat (take 4 preview)
         in ''0x'' @ pad0 8 (hex v) @ '' ('' @ dec v @ '')'')
      else if value_type = REG_QWORD \<and> 8 \<le> length preview then
        (let v = le_nat (take 8 preview)
         in ''0x'' @ pad0 16 (hex v) @ '' ('' @ dec v @ '')'')
      else
        join '' '' (map hex_byte (take (min (length preview) HEX_LIMIT) preview)) @
        (if HEX_LIMIT < length preview then [CHR '' '', CHR 0xE2, CHR 0x80, CHR 0xA6] else []))"

section \<open>Access masks\<close>

definition known_access :: "(u32 \<times> str) list" where
  "known_access =
     [(0x0001, ''TERMINATE''), (0x0002, ''CREATE_THREAD''), (0x0008, ''VM_OPERATION''),
      (0x0010, ''VM_READ''), (0x0020, ''VM_WRITE''), (0x0040, ''DUP_HANDLE''),
      (0x0080, ''CREATE_PROCESS''), (0x0400, ''QUERY_INFORMATION''),
      (0x0800, ''SUSPEND_RESUME''), (0x1000, ''QUERY_LIMITED_INFORMATION''),
      (0x00100000, ''SYNCHRONIZE'')]"

text \<open>The loop over the table, with its two mutable variables.\<close>

fun access_loop :: "u32 \<Rightarrow> (u32 \<times> str) list \<Rightarrow> str list \<times> u32 \<Rightarrow> str list \<times> u32" where
  "access_loop msk [] (parts, leftover) = (parts, leftover)"
| "access_loop msk ((b, name) # known) (parts, leftover) =
     (if msk AND b \<noteq> 0 then access_loop msk known (parts @ [name], leftover AND NOT b)
      else access_loop msk known (parts, leftover))"

definition decode_process_access :: "u32 \<Rightarrow> str" where
  "decode_process_access msk =
     (let (parts, leftover) = access_loop msk known_access ([], msk) in
      if leftover \<noteq> 0 then
        (let extra = ''0x'' @ hex (unat leftover); out = join ''|'' parts
         in (if out = [] then out else out @ ''|'') @ extra)
      else if parts = [] then ''0'' else join ''|'' parts)"

section \<open>Printers\<close>

definition print_process_create :: "platform \<Rightarrow> bytes \<Rightarrow> u32 \<Rightarrow> event_ctx \<Rightarrow> str outcome" where
  "print_process_create p buf h_size ctx =
     map_ok (\<lambda>evt.
       stamp p ctx @ ''ProcessCreate pid='' @ num (pc_process_id evt) @
       '' ppid='' @ num (pc_parent_process_id evt) @
       '' creator='' @ num (pc_creating_process_id evt) @
       '' user='' @ quoted (decode_packed_path USER_SID_MAX (pc_user_sid evt) (pc_user_sid_len evt)) @
       '' il='' @ integrity_label (pc_integrity_level evt) @
       '' parent='' @ quoted (decode_packed_path IMAGE_PATH_MAX (pc_parent_image_path evt)
                                (pc_parent_image_path_len evt)) @
       '' path='' @ quoted (decode_packed_path IMAGE_PATH_MAX (pc_image_path evt)
                              (pc_image_path_len evt)) @
       '' cmd='' @ quoted (decode_packed_path COMMAND_LINE_MAX (pc_command_line evt)
                             (pc_command_line_len evt)) @
       markers ctx)
     (read_packed size_of_process_create rd_process_create buf h_size ''ProcessCreate'')"

definition print_process_exit :: "platform \<Rightarrow> bytes \<Rightarrow> u32 \<Rightarrow> event_ctx \<Rightarrow> str outcome" where
  "print_process_exit p buf h_size ctx =
     map_ok (\<lambda>evt.
       stamp p ctx @ ''ProcessExit  pid='' @ num (pe_process_id evt) @
       '' exit=0x'' @ hex (unat (pe_exit_code evt)) @
       '' ('' @ dec_int (sint (pe_exit_code evt)) @ '')'' @ markers ctx)
     (read_packed size_of_process_exit rd_process_exit buf h_size ''ProcessExit'')"

definition print_image_load :: "platform \<Rightarrow> bytes \<Rightarrow> u32 \<Rightarrow> event_ctx \<Rightarrow> str outcome" where
  "print_image_load p buf h_size ctx =
     map_ok (\<lambda>evt.
       stamp p ctx @ ''ImageLoad    pid='' @ num (il_process_id evt) @
       '' ('' @ (if il_process_id evt = 0 then ''kernel'' else ''user'') @
       '') base=0x'' @ hex (unat (il_image_base evt)) @
       '' size=0x'' @ hex (unat (il_image_size evt)) @
       '' path='' @ quoted (decode_packed_path IMAGE_PATH_MAX (il_image_path evt)
                              (il_image_path_len evt)) @ markers ctx)
     (read_packed size_of_image_load rd_image_load buf h_size ''ImageLoad'')"

definition print_registry_modify :: "platform \<Rightarrow> bytes \<Rightarrow> u32 \<Rightarrow> event_ctx \<Rightarrow> str outcome" where
  "print_registry_modify p buf h_size ctx =
     map_ok (\<lambda>evt.
       let op = rg_operation evt;
           prev_len = unat (rg_data_preview_len evt);
           key_path = decode_packed_path REGISTRY_KEY_PATH_MAX (rg_key_path evt) (rg_key_path_len evt);
           value_name =
             (if unat (rg_value_name_len evt) = 0 then ''(default)''
              else decode_packed_path REGISTRY_VALUE_NAME_MAX (rg_value_name evt)
                     (rg_value_name_len evt));
           head = stamp p ctx @ ''Registry '' @ registry_op_label op @
                  '' pid='' @ num (rg_process_id evt) @ '' key='' @ quoted key_path
       in if op = REGISTRY_OP_SET_VALUE then
            let preview = take (min prev_len REGISTRY_DATA_PREVIEW_MAX) (rg_data_preview evt);
                truncated =
                  (if prev_len < unat (rg_data_size evt)
                   then '' (truncated, real size='' @ num (rg_data_size evt) @ '' bytes)'' else [])
            in head @ '' value='' @ quoted value_name @ '' type='' @ num (rg_value_type evt) @
               '' data='' @ render_data_preview (rg_value_type evt) preview @ truncated @
               markers ctx
          else if op = REGISTRY_OP_DELETE_VALUE then
            head @ '' value='' @ quoted value_name @ markers ctx
          else head @ markers ctx)
     (read_packed size_of_registry rd_registry buf h_size ''RegistryModify'')"

definition print_thread_create :: "platform \<Rightarrow> bytes \<Rightarrow> u32 \<Rightarrow> event_ctx \<Rightarrow> str outcome" where
  "print_thread_create p buf h_size ctx =
     map_ok (\<lambda>evt.
       let pid = tc_process_id evt; creator = tc_creating_process_id evt;
           injection_marker =
             (if creator \<noteq> pid \<and> creator \<noteq> 0
              then '' [REMOTE INJECTION from pid='' @ num creator @ '']'' else [])
       in stamp p ctx @ ''ThreadCreate pid='' @ num pid @ '' tid='' @ num (tc_thread_id evt) @
          '' creator='' @ num creator @ injection_marker @ markers ctx)
     (read_packed size_of_thread_create rd_thread_create buf h_size ''ThreadCreate'')"

definition print_thread_exit :: "platform \<Rightarrow> bytes \<Rightarrow> u32 \<Rightarrow> event_ctx \<Rightarrow> str outcome" where
  "print_thread_exit p buf h_size ctx =
     map_ok (\<lambda>evt.
       stamp p ctx @ ''ThreadExit   pid='' @ num (te_process_id evt) @
       '' tid='' @ num (te_thread_id evt) @ markers ctx)
     (read_packed size_of_thread_exit rd_thread_exit buf h_size ''ThreadExit'')"

definition print_process_handle_access ::
    "platform \<Rightarrow> bytes \<Rightarrow> u32 \<Rightarrow> event_ctx \<Rightarrow> str outcome" where
  "print_process_handle_access p buf h_size ctx =
     map_ok (\<lambda>evt.
       let desired = ha_desired_access evt; original = ha_original_desired_access evt;
           op = ha_operation evt;
           label = (if op = HANDLE_ACCESS_OP_CREATE then ''Open ''
                    else if op = HANDLE_ACCESS_OP_DUPLICATE then ''Dup  '' else ''Op?  '');
           stripped =
             (if desired \<noteq> original then '' granted='' @ decode_process_access desired else [])
       in stamp p ctx @ ''ProcAccess  '' @ label @
          '' src_pid='' @ num (ha_source_process_id evt) @
          '' target_pid='' @ num (ha_target_process_id evt) @
          '' access='' @ decode_process_access original @ stripped @ markers ctx)
     (read_packed size_of_handle_access rd_handle_access buf h_size ''ProcessHandleAccess'')"

lemmas print_defs =
  print_process_create_def print_process_exit_def print_image_load_def print_registry_modify_def
  print_thread_create_def print_thread_exit_def print_process_handle_access_def

text \<open>\<open>parse_and_print\<close>: the line that reaches stdout, or the message of the \<open>Err\<close>.\<close>

definition print_event :: "platform \<Rightarrow> bytes \<Rightarrow> event_header \<Rightarrow> event_ctx \<Rightarrow> str outcome" where
  "print_event p buf header ctx =
     (let h_type = hdr_type header; h_size = hdr_size header in
      if h_type = EVENT_TYPE_PROCESS_CREATE then print_process_create p buf h_size ctx
      else if h_type = EVENT_TYPE_PROCESS_EXIT then print_process_exit p buf h_size ctx
      else if h_type = EVENT_TYPE_IMAGE_LOAD then print_image_load p buf h_size ctx
      else if h_type = EVENT_TYPE_REGISTRY_MODIFY then print_registry_modify p buf h_size ctx
      else if h_type = EVENT_TYPE_THREAD_CREATE then print_thread_create p buf h_size ctx
      else if h_type = EVENT_TYPE_THREAD_EXIT then print_thread_exit p buf h_size ctx
      else if h_type = EVENT_TYPE_PROCESS_HANDLE_ACCESS
      then print_process_handle_access p buf h_size ctx
      else Ok (stamp p ctx @ ''event type='' @ num h_type @ '' size='' @ num h_size
               @ markers ctx))"

definition event_ctx_of :: "event_header \<Rightarrow> event_ctx" where
  "event_ctx_of header =
     (let h_drop = hdr_drop_count header; h_trunc = hdr_trunc_count header;
          drop_marker =
            (if 0 < h_drop then '' (DROPPED '' @ num h_drop @ '' events since last)'' else []);
          trunc_marker =
            (if 0 < h_trunc then '' (TRUNCATED '' @ num h_trunc @ '' fields since last)'' else [])
      in \<lparr>cx_timestamp = hdr_timestamp header, cx_drop_marker = drop_marker,
          cx_trunc_marker = trunc_marker\<rparr>)"

definition parse_and_print :: "platform \<Rightarrow> bytes \<Rightarrow> str outcome" where
  "parse_and_print p buf =
     (if length buf < size_of_header
      then Err (''event too short: '' @ dec (length buf) @ '' bytes, expected ''
                @ [CHR 0xE2, CHR 0x89, CHR 0xA5] @ '' '' @ dec size_of_header)
      else and_then (read_unaligned size_of_header rd_header buf) (\<lambda>header.
        if hdr_version header \<noteq> EVENT_VERSION
        then Err (''unknown event version '' @ num (hdr_version header))
        else if length buf < unat (hdr_size header)
        then Err (''header.size='' @ num (hdr_size header) @ '' exceeds delivered ''
                  @ dec (length buf))
        else print_event p buf header (event_ctx_of header)))"

section \<open>Properties\<close>

definition accepted :: "'a outcome \<Rightarrow> bool" where
  "accepted r \<longleftrightarrow> (\<exists>x. r = Ok x)"

lemma accepted_simps [outcome_simps]:
  "accepted (Ok x)" "\<not> accepted (Err e)" "accepted (map_ok f m) = accepted m"
  "accepted (if b then n else n') = (if b then accepted n else accepted n')"
  by (auto simp: accepted_def outcome_simps)

text \<open>Printer by printer: it returns, and accepts what its counterpart in \<open>ipc/json.rs\<close> accepts.\<close>

lemma print_returns:
  assumes "unat h_size \<le> length buf"
  shows "returns (print_process_create p buf h_size ctx)" "returns (print_process_exit p buf h_size ctx)"
    "returns (print_image_load p buf h_size ctx)" "returns (print_registry_modify p buf h_size ctx)"
    "returns (print_thread_create p buf h_size ctx)" "returns (print_thread_exit p buf h_size ctx)"
    "returns (print_process_handle_access p buf h_size ctx)"
  by (simp_all only: print_defs returns_map_ok read_packed_returns [OF assms])

lemma print_accepted:
  "accepted (print_process_create p buf h_size ctx) = accepted (encode_process_create p buf h_size)"
  "accepted (print_process_exit p buf h_size ctx) = accepted (encode_process_exit buf h_size)"
  "accepted (print_image_load p buf h_size ctx) = accepted (encode_image_load buf h_size)"
  "accepted (print_registry_modify p buf h_size ctx) = accepted (encode_registry buf h_size)"
  "accepted (print_thread_create p buf h_size ctx) = accepted (encode_thread_create buf h_size)"
  "accepted (print_thread_exit p buf h_size ctx) = accepted (encode_thread_exit buf h_size)"
  "accepted (print_process_handle_access p buf h_size ctx) = accepted (encode_handle_access buf h_size)"
  by (simp_all only: print_defs encode_defs accepted_simps)

lemma print_event_accepted:
  "accepted (print_event p buf h ctx) = accepted (decode_payload p buf h)"
  by (simp add: print_event_def decode_payload_def Let_def print_accepted accepted_simps
      split del: if_split cong: if_cong)

lemma printer_agrees:
  "returns (parse_and_print p buf) \<and>
   (accepted (parse_and_print p buf) \<longleftrightarrow> accepted (decode_kernel_event p buf))"
proof (cases "length buf < size_of_header")
  case True
  then show ?thesis by (simp add: parse_and_print_def decode_kernel_event_def outcome_simps)
next
  case False
  then obtain h where h: "read_unaligned size_of_header rd_header buf = Ok h"
    by (simp add: read_unaligned_def)
  show ?thesis
  proof (cases "hdr_version h = EVENT_VERSION \<and> unat (hdr_size h) \<le> length buf")
    case True
    from True have "parse_and_print p buf = print_event p buf h (event_ctx_of h)"
      using False h by (simp add: parse_and_print_def)
    moreover from True have "accepted (decode_kernel_event p buf) = accepted (decode_payload p buf h)"
      using False h by (simp add: decode_kernel_event_def accepted_simps)
    moreover from True have "returns (print_event p buf h (event_ctx_of h))"
      by (simp add: print_event_def Let_def returns_if print_returns split del: if_split cong: if_cong)
    ultimately show ?thesis by (simp add: print_event_accepted)
  next
    case rejected: False
    with False h show ?thesis
      by (auto simp: parse_and_print_def decode_kernel_event_def outcome_simps Let_def)
  qed
qed

text \<open>C7. The two decoders of the kernel wire format agree: a buffer is accepted by the console
printer exactly when it is accepted by the JSON encoder, and on every buffer the printer returns too,
without reading outside it.\<close>

theorem decoders_agree:
  "returns (parse_and_print p buf) \<and>
   (accepted (parse_and_print p buf) \<longleftrightarrow> accepted (decode_kernel_event p buf))"
  by (rule printer_agrees)

text \<open>The loop keeps, beside the names of the bits found, exactly the bits not found.\<close>

lemma access_loop_result:
  "access_loop msk known (parts, leftover) =
     (parts @ map snd (filter (\<lambda>e. msk AND fst e \<noteq> 0) known),
      fold (\<lambda>e l. if msk AND fst e \<noteq> 0 then l AND NOT (fst e) else l) known leftover)"
  by (induction known arbitrary: parts leftover) auto

lemma and_not_absent:
  fixes l m b :: u32
  assumes "l AND m = l" and "m AND b = 0"
  shows "l AND NOT b = l"
proof (rule bit_word_eqI)
  fix n assume "n < LENGTH(32)"
  have "bit l n \<longrightarrow> bit m n" using assms(1) by (metis bit_and_iff)
  moreover have "\<not> (bit m n \<and> bit b n)" using assms(2) by (metis bit_0_eq bit_and_iff bot_apply bot_bool_def)
  ultimately show "bit (l AND NOT b) n = bit l n"
    using \<open>n < LENGTH(32)\<close> by (auto simp: bit_simps)
qed

lemma leftover_result:
  fixes l m :: u32
  assumes "l AND m = l"
  shows "fold (\<lambda>e l. if m AND fst e \<noteq> 0 then l AND NOT (fst e) else l) known l
     = fold (\<lambda>e l. l AND NOT (fst e)) known l"
  using assms
proof (induction known arbitrary: l)
  case (Cons e known)
  have "(l AND NOT (fst e)) AND m = l AND NOT (fst e)"
    using Cons.prems by (metis and.assoc and.commute)
  moreover have "m AND fst e = 0 \<Longrightarrow> l AND NOT (fst e) = l"
    using and_not_absent Cons.prems by blast
  ultimately show ?case using Cons by auto
qed simp

lemma join_snoc: "xs \<noteq> [] \<Longrightarrow> join sep (xs @ [y]) = join sep xs @ sep @ y"
  by (induction sep xs rule: join.induct) auto

lemma join_eq_Nil: "[] \<notin> set xs \<Longrightarrow> join sep xs = [] \<longleftrightarrow> xs = []"
  by (induction sep xs rule: join.induct) auto

definition known_mask :: u32 where
  "known_mask = 0x00101CFB"

text \<open>The access mask is rendered without loss: the rendering lists, in the order of the table,
the name of every known right that is set, then all remaining bits as one hexadecimal number when
there are any, and a plain zero for the empty mask.\<close>

theorem decode_process_access_lossless:
  "decode_process_access msk =
     (let names = map snd (filter (\<lambda>e. msk AND fst e \<noteq> 0) known_access);
          rest = msk AND NOT known_mask;
          parts = names @ (if rest = 0 then [] else [''0x'' @ hex (unat rest)])
      in if parts = [] then ''0'' else join ''|'' parts)"
proof -
  define names where "names = map snd (filter (\<lambda>e. msk AND fst e \<noteq> 0) known_access)"
  have "[] \<notin> set names"
    by (auto simp: names_def known_access_def)
  then have *: "join ''|'' names = [] \<longleftrightarrow> names = []" by (rule join_eq_Nil)
  have "fold (\<lambda>e l. l AND NOT (fst e)) known_access msk = msk AND NOT known_mask"
    by (simp add: known_access_def known_mask_def and.assoc)
  then have "access_loop msk known_access ([], msk) = (names, msk AND NOT known_mask)"
    by (simp add: access_loop_result leftover_result names_def)
  with * show ?thesis
    by (auto simp: decode_process_access_def names_def [symmetric] join_snoc)
qed

end
