(* ===== verification/Pump.thy ===== *)
theory Pump
  imports Kernel_Text Detection Event_Sink
begin

text \<open>
  The kernel pump (\<open>src/src/ipc/device.rs\<close>): one turn of the loop per answer of the device. A
  delivered event goes to the spool as NDJSON (when the allow-list keeps its type), to the detection
  engine (always), and to the console.
\<close>

definition INITIAL_BUF :: nat where "INITIAL_BUF = 4096"

text \<open>What \<open>DeviceIoControl\<close> answers; \<open>Too_small\<close> carries \<open>returned\<close>, the size the driver needs.\<close>

datatype device_answer =
    Delivered bytes
  | Too_small u32
  | Aborted
  | Device_error u32

datatype pump_status = Running | Stopped | Crashed

record 'eng pump =
  pm_buf_len :: nat
  pm_warned :: bool
  pm_spool :: "spool option"
  pm_detection :: "'eng detector option"
  pm_stdout :: "str list"
  pm_stderr :: "str list"
  pm_status :: pump_status

text \<open>What stays fixed during a run.\<close>

record 'eng pump_env =
  pe_platform :: platform
  pe_filter :: "event_filter option"
  pe_spool_config :: spool_config
  pe_process_event :: "log_event \<Rightarrow> 'eng \<Rightarrow> (str \<times> action list) list \<times> 'eng"
  pe_now_iso8601 :: str
  pe_now :: millis
  pe_console_output :: bool

definition grown :: "nat \<Rightarrow> u32 \<Rightarrow> nat" where
  "grown len returned = unat (max returned (word_of_nat len * 2))"

definition warn_dead_writer :: "'eng pump \<Rightarrow> 'eng pump" where
  "warn_dead_writer s =
     (case pm_spool s of
        Some sp \<Rightarrow>
          if \<not> is_alive sp \<and> \<not> pm_warned s
          then s\<lparr>pm_warned := True,
                 pm_stderr := pm_stderr s @ [''spool writer thread is no longer running'']\<rparr>
          else s
      | None \<Rightarrow> s)"

text \<open>The spool and detection part of a turn.\<close>

definition dispatch :: "'eng pump_env \<Rightarrow> bytes \<Rightarrow> 'eng pump \<Rightarrow> 'eng pump" where
  "dispatch env payload s =
     (case pm_detection s of
        Some engine \<Rightarrow>
          (case encode_kernel_event_and_log (pe_platform env) (pe_now env) payload of
             Ok (line, log) \<Rightarrow>
               let s = (if allows (pe_filter env) ''kernel_callback'' (le_event_type log)
                        then s\<lparr>pm_spool := submit_to (pe_spool_config env) line (pm_spool s)\<rparr>
                        else s)
               in s\<lparr>pm_detection :=
                      Some (process (pe_process_event env) (pe_now_iso8601 env) log engine)\<rparr>
           | Err e \<Rightarrow> s\<lparr>pm_stderr := pm_stderr s @ [''[agent] spool encode error: '' @ e]\<rparr>
           | _ \<Rightarrow> s\<lparr>pm_status := Crashed\<rparr>)
      | None \<Rightarrow>
          (case pm_spool s of
             None \<Rightarrow> s
           | Some sp \<Rightarrow>
               (case encode_kernel_event (pe_platform env) (pe_filter env) payload of
                  Ok (Some line) \<Rightarrow>
                    s\<lparr>pm_spool := submit_to (pe_spool_config env) line (pm_spool s)\<rparr>
                | Ok None \<Rightarrow> s
                | Err e \<Rightarrow> s\<lparr>pm_stderr := pm_stderr s @ [''[agent] spool encode error: '' @ e]\<rparr>
                | _ \<Rightarrow> s\<lparr>pm_status := Crashed\<rparr>)))"

definition console :: "'eng pump_env \<Rightarrow> bytes \<Rightarrow> 'eng pump \<Rightarrow> 'eng pump" where
  "console env payload s =
     (if \<not> pe_console_output env then s
      else case parse_and_print (pe_platform env) payload of
        Ok line \<Rightarrow> s\<lparr>pm_stdout := pm_stdout s @ [line]\<rparr>
      | Err e \<Rightarrow> s\<lparr>pm_stderr := pm_stderr s @ [''[agent] parse error: '' @ e]\<rparr>
      | _ \<Rightarrow> s\<lparr>pm_status := Crashed\<rparr>)"

fun pump_step :: "'eng pump_env \<Rightarrow> device_answer \<Rightarrow> 'eng pump \<Rightarrow> 'eng pump" where
  "pump_step env (Too_small returned) s =
     s\<lparr>pm_buf_len := grown (pm_buf_len s) returned,
       pm_stderr := pm_stderr s @ [''[agent] buffer too small, growing '' @ dec (pm_buf_len s)]\<rparr>"
| "pump_step env Aborted s = s\<lparr>pm_status := Stopped\<rparr>"
| "pump_step env (Device_error err) s =
     s\<lparr>pm_status := Stopped,
       pm_stderr := pm_stderr s @ [''[agent] DeviceIoControl failed: error '' @ num err]\<rparr>"
| "pump_step env (Delivered payload) s =
     (if pm_buf_len s < length payload then s\<lparr>pm_status := Crashed\<rparr>
      else console env payload (dispatch env payload (warn_dead_writer s)))"

fun pump_run :: "'eng pump_env \<Rightarrow> device_answer list \<Rightarrow> 'eng pump \<Rightarrow> 'eng pump" where
  "pump_run env [] s = s"
| "pump_run env (a # as) s =
     (if pm_status s = Running then pump_run env as (pump_step env a s) else s)"

section \<open>Properties\<close>

text \<open>The serialiser of the platform returns: a \<open>to_vec\<close> of these documents neither panics nor reads
out of bounds.\<close>

definition serializer_returns :: "platform \<Rightarrow> bool" where
  "serializer_returns p \<longleftrightarrow> (\<forall>j. returns (serde_to_vec p j))"

definition emitted_line :: "'eng pump_env \<Rightarrow> bytes \<Rightarrow> bytes option" where
  "emitted_line env payload =
     (case encode_kernel_event (pe_platform env) (pe_filter env) payload of
        Ok line \<Rightarrow> line | _ \<Rightarrow> None)"

definition submit_line :: "spool_config \<Rightarrow> bytes option \<Rightarrow> spool option \<Rightarrow> spool option" where
  "submit_line cfg line sp = (case line of None \<Rightarrow> sp | Some l \<Rightarrow> submit_to cfg l sp)"

lemma warn_fields [simp]:
  "pm_spool (warn_dead_writer s) = pm_spool s" "pm_detection (warn_dead_writer s) = pm_detection s"
  "pm_status (warn_dead_writer s) = pm_status s" "pm_buf_len (warn_dead_writer s) = pm_buf_len s"
  by (simp_all add: warn_dead_writer_def split: option.splits)

lemma console_fields [simp]:
  "pm_spool (console env b s) = pm_spool s" "pm_detection (console env b s) = pm_detection s"
  "pm_buf_len (console env b s) = pm_buf_len s"
  by (simp_all add: console_def split: outcome.splits)

lemma encode_and_log_line:
  assumes "encode_kernel_event_and_log p now payload = Ok (line, log)"
  shows "encode_kernel_event p cell payload =
    Ok (if allows cell ''kernel_callback'' (le_event_type log) then Some line else None)"
  using assms
  by (auto simp: encode_kernel_event_and_log_def encode_kernel_event_def outcome_simps
      decoded_to_log_event_def)

lemma encode_and_log_error:
  assumes "\<nexists>r. encode_kernel_event_and_log p now payload = Ok r"
  shows "\<nexists>l. encode_kernel_event p cell payload = Ok (Some l)"
  using assms
  by (auto simp: encode_kernel_event_and_log_def encode_kernel_event_def outcome_simps split: if_splits)

lemma dispatch_spool:
  "pm_spool (dispatch env payload s) =
     submit_line (pe_spool_config env) (emitted_line env payload) (pm_spool s)"
proof (cases "pm_detection s")
  case None
  then show ?thesis
    by (auto simp: dispatch_def submit_line_def emitted_line_def submit_to_def
        split: option.splits outcome.splits)
next
  case (Some engine)
  show ?thesis
  proof (cases "encode_kernel_event_and_log (pe_platform env) (pe_now env) payload")
    case (Ok r)
    then show ?thesis
      using encode_and_log_line [of "pe_platform env" "pe_now env" payload "fst r" "snd r" "pe_filter env"]
      by (cases r) (simp add: dispatch_def Some Let_def submit_line_def emitted_line_def)
  qed (insert encode_and_log_error [of "pe_platform env" "pe_now env" payload "pe_filter env"],
      auto simp: dispatch_def Some submit_line_def emitted_line_def split: option.splits outcome.splits)
qed

text \<open>The spool sees the same NDJSON whether or not detection is on: a delivered event leads to
exactly one submission of its line when it decodes and the allow-list keeps its type, and to none
otherwise, in both configurations.\<close>

theorem pump_spools_same_line:
  assumes "length payload \<le> pm_buf_len s"
  shows "pm_spool (pump_step env (Delivered payload) s) =
           (case emitted_line env payload of
              None \<Rightarrow> pm_spool s
            | Some l \<Rightarrow> map_option (\<lambda>sp. snd (try_submit (pe_spool_config env) l sp)) (pm_spool s)) \<and>
    pm_spool (pump_step env (Delivered payload) (s\<lparr>pm_detection := d\<rparr>))
      = pm_spool (pump_step env (Delivered payload) s)"
proof -
  have "pm_spool (warn_dead_writer (s\<lparr>pm_detection := d\<rparr>)) = pm_spool s" by simp
  with assms show ?thesis
    by (simp add: dispatch_spool submit_line_def submit_to_def split: option.splits)
qed

lemma dispatch_detection:
  "pm_detection (dispatch (env\<lparr>pe_filter := f\<rparr>) payload s) = pm_detection (dispatch env payload s)"
  by (simp add: dispatch_def Let_def split: option.splits outcome.splits)

lemma dispatch_detects:
  assumes "pm_detection s = Some engine"
    and "encode_kernel_event_and_log (pe_platform env) (pe_now env) payload = Ok (line, log)"
  shows "pm_detection (dispatch env payload s) =
    Some (process (pe_process_event env) (pe_now_iso8601 env) log engine)"
  using assms by (simp add: dispatch_def Let_def)

text \<open>C9. The upload filter never silences a rule on the kernel path: what the detection engine does
with an event is the same for every allow-list, and every event that decodes is evaluated.\<close>

theorem filter_never_gates_detection:
  assumes "length payload \<le> pm_buf_len s"
  shows "pm_detection (pump_step (env\<lparr>pe_filter := f\<rparr>) (Delivered payload) s)
      = pm_detection (pump_step env (Delivered payload) s)
    \<and> (\<forall>engine line log. pm_detection s = Some engine \<and>
         encode_kernel_event_and_log (pe_platform env) (pe_now env) payload = Ok (line, log) \<longrightarrow>
         pm_detection (pump_step (env\<lparr>pe_filter := f\<rparr>) (Delivered payload) s) =
           Some (process (pe_process_event env) (pe_now_iso8601 env) log engine))"
  using assms dispatch_detects [where s = "warn_dead_writer s" and env = env and payload = payload]
  by (auto simp: dispatch_detection)

lemma dispatch_status:
  assumes "serializer_returns (pe_platform env)"
  shows "pm_status (dispatch env payload s) = pm_status s"
  using encode_entry_returns(1) [of "pe_platform env" "pe_filter env" payload]
    encode_entry_returns(2) [of "pe_platform env" "pe_now env" payload] assms
  by (auto simp: serializer_returns_def dispatch_def Let_def split: option.splits outcome.splits)

lemma console_status: "pm_status (console env payload s) = pm_status s"
  using printer_agrees [of "pe_platform env" payload]
  by (auto simp: console_def split: outcome.splits)

text \<open>The pump survives its input: as long as the serialiser returns, whatever bytes the driver
delivers within the buffer it was given, a turn of the loop leaves the agent running; and when the
driver asks for more room, the next buffer is at least as large as it asked, with the spool and the
engine untouched, so the event still queued in the driver is not lost.\<close>

theorem pump_survives:
  assumes "serializer_returns (pe_platform env)" and "pm_status s = Running"
  shows "(length payload \<le> pm_buf_len s \<longrightarrow>
            pm_status (pump_step env (Delivered payload) s) = Running) \<and>
    (let s' = pump_step env (Too_small r) s in
       pm_status s' = Running \<and> unat r \<le> pm_buf_len s' \<and> pm_spool s' = pm_spool s \<and>
       pm_detection s' = pm_detection s)"
  using assms
  by (simp add: console_status dispatch_status Let_def grown_def max_def word_le_nat_alt)

section \<open>Examples\<close>

definition sample_env :: "unit pump_env" where
  "sample_env = \<lparr>pe_platform = bare_platform, pe_filter = None, pe_spool_config = sample_config,
     pe_process_event = (\<lambda>ev e. ([], e)), pe_now_iso8601 = ''now'', pe_now = 0,
     pe_console_output = True\<rparr>"

definition sample_pump :: "unit pump" where
  "sample_pump = \<lparr>pm_buf_len = INITIAL_BUF, pm_warned = False, pm_spool = Some (spool_new []),
     pm_detection = Some \<lparr>dt_engine = (), dt_alerts = None, dt_log = []\<rparr>, pm_stdout = [],
     pm_stderr = [], pm_status = Running\<rparr>"

lemma sample_pump_buffer: "length [0, 1, 2] \<le> pm_buf_len sample_pump"
  by (simp add: sample_pump_def INITIAL_BUF_def)

theorem pump_spools_same_line_witness:
  "pm_spool (pump_step sample_env (Delivered [0, 1, 2]) (sample_pump\<lparr>pm_detection := None\<rparr>))
     = pm_spool (pump_step sample_env (Delivered [0, 1, 2]) sample_pump)"
  using pump_spools_same_line [OF sample_pump_buffer, of sample_env None] by simp

theorem filter_never_gates_detection_witness:
  "pm_detection (pump_step (sample_env\<lparr>pe_filter := Some (from_section
       \<lparr>sec_modules = [''plugin''], sec_event_types = []\<rparr>)\<rparr>) (Delivered [0, 1, 2]) sample_pump)
     = pm_detection (pump_step sample_env (Delivered [0, 1, 2]) sample_pump)"
  using filter_never_gates_detection [OF sample_pump_buffer] by blast

theorem pump_survives_witness:
  "pm_status (pump_step sample_env (Delivered [0, 1, 2]) sample_pump) = Running"
proof -
  have "serializer_returns (pe_platform sample_env)"
    by (simp add: serializer_returns_def sample_env_def bare_platform_def)
  moreover have "pm_status sample_pump = Running" by (simp add: sample_pump_def)
  ultimately show ?thesis
    using pump_survives [of sample_env sample_pump "[0, 1, 2]"] sample_pump_buffer by blast
qed

end
