(* ===== verification/Shutdown.thy ===== *)
theory Shutdown
  imports Pump
begin

text \<open>
  How the agent is asked to stop (\<open>src/src/shutdown.rs\<close>): a flag that every loop polls, and the device
  handle whose pending calls are cancelled so that the pump (\<open>src/src/ipc/device.rs\<close>) wakes up. The pump
  and the thread of the request interleave at the flag and at the device. When some thread does not stop, the
  watchdog of \<open>src/src/main.rs\<close> ends the process.
\<close>

section \<open>The request\<close>

text \<open>The handle is kept as an integer; zero says that none is registered.\<close>

record shutdown_state =
  sh_flag :: bool
  sh_device :: int

definition CTRL_C_EVENT :: u32 where "CTRL_C_EVENT = 0"
definition CTRL_BREAK_EVENT :: u32 where "CTRL_BREAK_EVENT = 1"

definition register_pump_handle :: "int \<Rightarrow> shutdown_state \<Rightarrow> shutdown_state" where
  "register_pump_handle handle s = s\<lparr>sh_device := handle\<rparr>"

text \<open>The two halves of \<open>request\<close>; the second is the handle given to \<open>CancelIoEx\<close>, if it is called.\<close>

definition set_flag :: "shutdown_state \<Rightarrow> shutdown_state" where
  "set_flag s = s\<lparr>sh_flag := True\<rparr>"

definition cancelled_handle :: "shutdown_state \<Rightarrow> int option" where
  "cancelled_handle s = (if sh_device s \<noteq> 0 then Some (sh_device s) else None)"

definition request :: "shutdown_state \<Rightarrow> shutdown_state \<times> int option" where
  "request s = (let s = set_flag s in (s, cancelled_handle s))"

text \<open>The last component is the answer to the system: whether the event was handled.\<close>

definition ctrl_handler :: "u32 \<Rightarrow> shutdown_state \<Rightarrow> shutdown_state \<times> int option \<times> bool" where
  "ctrl_handler ctrl s =
     (if ctrl = CTRL_C_EVENT \<or> ctrl = CTRL_BREAK_EVENT
      then (let (s, c) = request s in (s, c, True)) else (s, None, False))"

section \<open>The pump and the request\<close>

text \<open>Where the pump is: about to look at the flag, about to call the device, waiting in the device, with an
answer in hand, or out of its loop.\<close>

datatype pump_point = Looking | Calling | In_device | Answered device_answer | Left_loop

datatype request_point = Before | Flag_set | Requested

record 'eng race =
  ra_pump :: "'eng pump"
  ra_point :: pump_point
  ra_request :: request_point
  ra_shutdown :: shutdown_state

text \<open>The moves: two of the pump by itself, the call and its answer, and the two halves of a request. The
handle of the pump is \<open>handle\<close>; cancelling another one, or none, wakes nobody. A move that is not enabled
gives \<open>None\<close>.\<close>

datatype move = Look | Call | Device device_answer | Handle | Set_flag | Cancel

fun race_move :: "'eng pump_env \<Rightarrow> int \<Rightarrow> move \<Rightarrow> 'eng race \<Rightarrow> 'eng race option" where
  "race_move env handle Look s =
     (if ra_point s = Looking
      then Some (s\<lparr>ra_point := (if sh_flag (ra_shutdown s) then Left_loop else Calling)\<rparr>) else None)"
| "race_move env handle Call s =
     (if ra_point s = Calling then Some (s\<lparr>ra_point := In_device\<rparr>) else None)"
| "race_move env handle (Device a) s =
     (if ra_point s = In_device \<and> a \<noteq> Aborted then Some (s\<lparr>ra_point := Answered a\<rparr>) else None)"
| "race_move env handle Handle s =
     (case ra_point s of
        Answered a \<Rightarrow>
          (let p = pump_step env a (ra_pump s) in
           Some (s\<lparr>ra_pump := p, ra_point := (if pm_status p = Running then Looking else Left_loop)\<rparr>))
      | _ \<Rightarrow> None)"
| "race_move env handle Set_flag s =
     (if ra_request s = Before
      then Some (s\<lparr>ra_request := Flag_set, ra_shutdown := set_flag (ra_shutdown s)\<rparr>) else None)"
| "race_move env handle Cancel s =
     (if ra_request s = Flag_set
      then Some (s\<lparr>ra_request := Requested,
                   ra_point := (if ra_point s = In_device \<and> cancelled_handle (ra_shutdown s) = Some handle
                                then Answered Aborted else ra_point s)\<rparr>)
      else None)"

fun race_run :: "'eng pump_env \<Rightarrow> int \<Rightarrow> move list \<Rightarrow> 'eng race \<Rightarrow> 'eng race option" where
  "race_run env handle [] s = Some s"
| "race_run env handle (m # ms) s =
     (case race_move env handle m s of None \<Rightarrow> None | Some s' \<Rightarrow> race_run env handle ms s')"

definition race_start :: "int \<Rightarrow> 'eng pump \<Rightarrow> 'eng race" where
  "race_start handle p =
     \<lparr>ra_pump = p, ra_point = Looking, ra_request = Before,
      ra_shutdown = register_pump_handle handle \<lparr>sh_flag = False, sh_device = 0\<rparr>\<rparr>"

section \<open>The watchdog\<close>

text \<open>\<open>while !SHUTDOWN { sleep(250 ms) }\<close>, then eight seconds, then \<open>exit(0)\<close>: the time of the exit, when the
flag is set at \<open>stop\<close> and the loop looks at \<open>now\<close>.\<close>

function force_exit :: "millis \<Rightarrow> millis \<Rightarrow> millis" where
  "force_exit stop now = (if stop \<le> now then now + 8000 else force_exit stop (now + 250))"
  by pat_completeness auto
termination by (relation "measure (\<lambda>(stop, now). stop - now)") auto

declare force_exit.simps [simp del]

section \<open>Properties\<close>

lemma forced_exit_late: "max stop now + 8000 \<le> force_exit stop now"
proof (induction stop now rule: force_exit.induct)
  case (1 stop now)
  then show ?case by (cases "stop \<le> now") (subst force_exit.simps, simp)+
qed

text \<open>The process ends after a request whatever its threads do: the watchdog exits at least eight seconds
and less than eight and a quarter after the flag is set, or after its own start when the flag was set before.\<close>

theorem forced_exit_in_time:
  "max stop now + 8000 \<le> force_exit stop now \<and> force_exit stop now < max (stop + 250) (now + 1) + 8000"
proof (induction stop now rule: force_exit.induct)
  case (1 stop now)
  show ?case
  proof (cases "stop \<le> now")
    case True
    then show ?thesis by (subst (1 2) force_exit.simps) simp
  next
    case False
    have "stop \<le> max stop (now + 250)" by simp
    with 1 [OF False] have "stop + 8000 \<le> force_exit stop (now + 250)" by linarith
    with False 1 show ?thesis by (subst (1 2) force_exit.simps) simp
  qed
qed

text \<open>A state in which nothing but an answer of the device, other than that of a cancelled call, is possible.\<close>

definition waits_for_device :: "'eng pump_env \<Rightarrow> int \<Rightarrow> 'eng race \<Rightarrow> bool" where
  "waits_for_device env handle s \<longleftrightarrow>
     (\<forall>m s'. race_move env handle m s = Some s' \<longrightarrow> (\<exists>a. m = Device a \<and> a \<noteq> Aborted))"

text \<open>C29. The request does not always wake the pump, although the code says that setting the flag and cancelling
is what unblocks it. When the flag is set and the calls are cancelled between the moment the pump looks at the
flag and the moment its call reaches the device, there is nothing to cancel yet: the request is over and the
pump waits in the device for an event that may never come; only an answer of the device moves it again.\<close>

theorem wakeup_can_be_lost:
  "\<exists>ms s. race_run env handle ms (race_start handle p) = Some s \<and>
     ra_request s = Requested \<and> sh_flag (ra_shutdown s) \<and> ra_point s = In_device \<and>
     waits_for_device env handle s"
proof -
  let ?ms = "[Look, Set_flag, Cancel, Call]"
  have run: "\<exists>s. race_run env handle ?ms (race_start handle p) = Some s \<and> ra_request s = Requested \<and>
      sh_flag (ra_shutdown s) \<and> ra_point s = In_device"
    by (simp add: race_start_def register_pump_handle_def set_flag_def)
  moreover have "\<exists>a. m = Device a \<and> a \<noteq> Aborted"
    if "race_move env handle m s = Some s'" "ra_request s = Requested" "ra_point s = In_device" for m s s'
    using that by (cases m) (auto split: if_splits)
  ultimately show ?thesis unfolding waits_for_device_def by blast
qed

text \<open>The calls that are made while the flag is set.\<close>

fun late_calls :: "'eng pump_env \<Rightarrow> int \<Rightarrow> move list \<Rightarrow> 'eng race \<Rightarrow> nat" where
  "late_calls env handle [] s = 0"
| "late_calls env handle (m # ms) s =
     (case race_move env handle m s of
        None \<Rightarrow> 0
      | Some s' \<Rightarrow> (if m = Call \<and> sh_flag (ra_shutdown s) then 1 else 0) + late_calls env handle ms s')"

lemma flag_stays: "race_move env handle m s = Some s' \<Longrightarrow> sh_flag (ra_shutdown s) \<Longrightarrow> sh_flag (ra_shutdown s')"
  by (cases m) (auto simp: set_flag_def Let_def split: if_splits pump_point.splits)

lemma point_after_flag:
  "race_move env handle m s = Some s' \<Longrightarrow> sh_flag (ra_shutdown s) \<Longrightarrow> ra_point s \<noteq> Calling \<Longrightarrow>
     ra_point s' \<noteq> Calling"
  by (cases m) (auto simp: Let_def split: if_splits pump_point.splits)

lemma late_calls_flagged:
  "sh_flag (ra_shutdown s) \<Longrightarrow> late_calls env handle ms s \<le> (if ra_point s = Calling then 1 else 0)"
proof (induction ms arbitrary: s)
  case (Cons m ms)
  show ?case
  proof (cases "race_move env handle m s")
    case (Some s')
    have flag: "sh_flag (ra_shutdown s')" by (rule flag_stays [OF Some Cons.prems])
    note IH = Cons.IH [OF flag]
    show ?thesis
    proof (cases "m = Call")
      case True
      with Some have "ra_point s = Calling" "ra_point s' = In_device" by (auto split: if_splits)
      with IH Some True Cons.prems show ?thesis by simp
    next
      case False
      have "ra_point s' = Calling \<Longrightarrow> ra_point s = Calling" using point_after_flag [OF Some Cons.prems] by blast
      with IH Some False show ?thesis by (auto split: if_splits)
    qed
  qed simp
qed simp

text \<open>After a request the pump calls the device at most once more, over every interleaving: a pump that the
request failed to wake takes one further event, and then stops.\<close>

theorem one_late_call:
  "late_calls env handle ms (race_start handle p) \<le> 1"
proof -
  have "late_calls env handle ms s \<le> 1" for s :: "'a race"
  proof (induction ms arbitrary: s)
    case (Cons m ms)
    show ?case
    proof (cases "sh_flag (ra_shutdown s)")
      case True
      have "(if ra_point s = Calling then 1 else 0 :: nat) \<le> 1" by simp
      with late_calls_flagged [OF True, of env handle "m # ms"] show ?thesis by (rule order_trans)
    next
      case False
      with Cons.IH show ?thesis by (simp split: option.split)
    qed
  qed simp
  then show ?thesis .
qed

end
