(* ===== verification/Teardown.thy ===== *)
theory Teardown
  imports Startup Shutdown
begin

text \<open>
  The end of the agent (\<open>run_agent\<close> of \<open>src/src/main.rs\<close> after the pump, the \<open>shutdown\<close> functions it calls,
  \<open>src/src/service.rs\<close>): main joins the threads one after the other and drops its senders in between, while
  the other threads finish and the two spool writers drain their channels. A writer ends only when every sender
  of its channel is gone. The steps of the spools are those of the theory Spool. Whether the trace of the ETW
  library keeps its callbacks, and with them their senders, until it is dropped is an argument.
\<close>

section \<open>Threads and operations\<close>

datatype thread =
    Kernel_writer | Plugin_writer | Rules_reload | Plugin_supervisor | Plugin_accept | Plugin_reload
  | Plugin_stats | Session nat | Shipper_thread | Heartbeat_thread | Alerts_thread | Etw_worker | Etw_stop
  | Poll_services | Poll_tasks

datatype main_op = Close_device | Drop_kernel_handle | Drop_plugin_handle | Drop_trace | Join thread

text \<open>What main does after the pump, for the parts that run, in the order of the code.\<close>

definition teardown_ops :: "'rules running \<Rightarrow> main_op list" where
  "teardown_ops a =
     [Close_device] @
     (if rn_reload a then [Join Rules_reload] else []) @
     (if rn_supervisor a then [Join Plugin_supervisor] else []) @
     (if rn_server a then [Join Plugin_accept, Join Plugin_reload, Join Plugin_stats] else []) @
     [Drop_kernel_handle, Join Kernel_writer] @
     (if rn_plugin_dir a \<noteq> None then [Drop_plugin_handle, Join Plugin_writer] else []) @
     (if rn_shipper a \<noteq> None then [Join Shipper_thread] else []) @
     (if rn_control a \<noteq> None then [Join Heartbeat_thread, Join Alerts_thread] else []) @
     (if rn_etw a \<noteq> None then [Join Etw_worker, Join Etw_stop, Drop_trace] else []) @
     (if rn_polling a \<noteq> None then [Join Poll_services, Join Poll_tasks] else [])"

text \<open>The threads that run, with the plugin sessions that are open.\<close>

definition threads_of :: "'rules running \<Rightarrow> nat set \<Rightarrow> thread set" where
  "threads_of a sessions =
     {Kernel_writer} \<union> (if rn_plugin_dir a \<noteq> None then {Plugin_writer} else {}) \<union>
     (if rn_reload a then {Rules_reload} else {}) \<union> (if rn_supervisor a then {Plugin_supervisor} else {}) \<union>
     (if rn_server a then {Plugin_accept, Plugin_reload, Plugin_stats} \<union> Session ` sessions else {}) \<union>
     (if rn_shipper a \<noteq> None then {Shipper_thread} else {}) \<union>
     (case rn_control a of
        None \<Rightarrow> {}
      | Some c \<Rightarrow> {Heartbeat_thread} \<union> (if cn_send_alerts c \<and> cn_receiver c then {Alerts_thread} else {})) \<union>
     (if rn_etw a \<noteq> None then {Etw_worker, Etw_stop} else {}) \<union>
     (case rn_polling a of
        None \<Rightarrow> {}
      | Some (s, t) \<Rightarrow> (if s then {Poll_services} else {}) \<union> (if t then {Poll_tasks} else {}))"

section \<open>The state and its steps\<close>

record teardown =
  td_todo :: "main_op list"
  td_live :: "thread set"
  td_kernel_handle :: bool
  td_plugin_handle :: bool
  td_trace :: bool
  td_kernel :: spool
  td_plugin :: spool

text \<open>Whether a sender of a channel is left: main's handle, the callbacks of the trace while it is kept or being
processed, and the pollers; main's handle, the accept loop and the sessions.\<close>

definition kernel_open :: "teardown \<Rightarrow> bool" where
  "kernel_open s \<longleftrightarrow>
     td_kernel_handle s \<or> td_trace s \<or> Etw_worker \<in> td_live s \<or> Poll_services \<in> td_live s \<or> Poll_tasks \<in> td_live s"

definition plugin_open :: "teardown \<Rightarrow> bool" where
  "plugin_open s \<longleftrightarrow>
     td_plugin_handle s \<or> Plugin_accept \<in> td_live s \<or> (\<exists>i. Session i \<in> td_live s)"

fun main_step :: "main_op \<Rightarrow> teardown \<Rightarrow> teardown option" where
  "main_step Close_device s = Some s"
| "main_step Drop_kernel_handle s = Some (s\<lparr>td_kernel_handle := False\<rparr>)"
| "main_step Drop_plugin_handle s = Some (s\<lparr>td_plugin_handle := False\<rparr>)"
| "main_step Drop_trace s = Some (s\<lparr>td_trace := False\<rparr>)"
| "main_step (Join t) s = (if t \<in> td_live s then None else Some s)"

text \<open>How a writer is set up: the compression and the configuration of its spool.\<close>

type_synonym writer = "(bytes \<Rightarrow> bytes) \<times> spool_config"

definition writes :: "writer \<Rightarrow> spool_action \<Rightarrow> spool \<Rightarrow> spool" where
  "writes wr act sp = spool_step (fst wr) (snd wr) act sp"

text \<open>One step of some thread. A thread that polls the flag may finish at any time (\<open>finishes\<close>); a session
whose client stays connected (\<open>idle\<close>) does not, because it reads without a time limit.\<close>

inductive td_step :: "writer \<Rightarrow> writer \<Rightarrow> nat set \<Rightarrow> teardown \<Rightarrow> teardown \<Rightarrow> bool" for kw pw idle where
  main: "td_todo s = p # ops \<Longrightarrow> main_step p s = Some s' \<Longrightarrow> td_step kw pw idle s (s'\<lparr>td_todo := ops\<rparr>)"
| finishes: "t \<in> td_live s \<Longrightarrow> t \<noteq> Kernel_writer \<Longrightarrow> t \<noteq> Plugin_writer \<Longrightarrow> t \<notin> Session ` idle \<Longrightarrow>
     td_step kw pw idle s (s\<lparr>td_live := td_live s - {t}\<rparr>)"
| kernel_submit: "Etw_worker \<in> td_live s \<or> Poll_services \<in> td_live s \<or> Poll_tasks \<in> td_live s \<Longrightarrow>
     td_step kw pw idle s (s\<lparr>td_kernel := writes kw (Submit line) (td_kernel s)\<rparr>)"
| kernel_recv: "Kernel_writer \<in> td_live s \<Longrightarrow> sp_channel (td_kernel s) \<noteq> [] \<Longrightarrow>
     td_step kw pw idle s (s\<lparr>td_kernel := writes kw (Recv wio io) (td_kernel s)\<rparr>)"
| kernel_timeout: "Kernel_writer \<in> td_live s \<Longrightarrow> sp_channel (td_kernel s) = [] \<Longrightarrow> kernel_open s \<Longrightarrow>
     td_step kw pw idle s (s\<lparr>td_kernel := writes kw (Timeout io) (td_kernel s)\<rparr>)"
| kernel_end: "Kernel_writer \<in> td_live s \<Longrightarrow> sp_channel (td_kernel s) = [] \<Longrightarrow> \<not> kernel_open s \<Longrightarrow>
     td_step kw pw idle s (s\<lparr>td_kernel := writes kw (Disconnect io) (td_kernel s),
       td_live := td_live s - {Kernel_writer}\<rparr>)"
| plugin_submit: "Session i \<in> td_live s \<Longrightarrow>
     td_step kw pw idle s (s\<lparr>td_plugin := writes pw (Submit line) (td_plugin s)\<rparr>)"
| plugin_recv: "Plugin_writer \<in> td_live s \<Longrightarrow> sp_channel (td_plugin s) \<noteq> [] \<Longrightarrow>
     td_step kw pw idle s (s\<lparr>td_plugin := writes pw (Recv wio io) (td_plugin s)\<rparr>)"
| plugin_timeout: "Plugin_writer \<in> td_live s \<Longrightarrow> sp_channel (td_plugin s) = [] \<Longrightarrow> plugin_open s \<Longrightarrow>
     td_step kw pw idle s (s\<lparr>td_plugin := writes pw (Timeout io) (td_plugin s)\<rparr>)"
| plugin_end: "Plugin_writer \<in> td_live s \<Longrightarrow> sp_channel (td_plugin s) = [] \<Longrightarrow> \<not> plugin_open s \<Longrightarrow>
     td_step kw pw idle s (s\<lparr>td_plugin := writes pw (Disconnect io) (td_plugin s),
       td_live := td_live s - {Plugin_writer}\<rparr>)"

inductive td_reach :: "writer \<Rightarrow> writer \<Rightarrow> nat set \<Rightarrow> teardown \<Rightarrow> teardown \<Rightarrow> bool" for kw pw idle where
  here: "td_reach kw pw idle s s"
| further: "td_reach kw pw idle s s' \<Longrightarrow> td_step kw pw idle s' s'' \<Longrightarrow> td_reach kw pw idle s s''"

text \<open>The state in which main leaves the pump.\<close>

definition td_start :: "'rules running \<Rightarrow> bool \<Rightarrow> nat set \<Rightarrow> spool \<Rightarrow> spool \<Rightarrow> teardown" where
  "td_start a keeps_callbacks sessions ks ps =
     \<lparr>td_todo = teardown_ops a, td_live = threads_of a sessions, td_kernel_handle = True,
      td_plugin_handle = (rn_plugin_dir a \<noteq> None), td_trace = (keeps_callbacks \<and> rn_etw a \<noteq> None),
      td_kernel = ks, td_plugin = ps\<rparr>"

section \<open>The service\<close>

text \<open>The end of \<open>run_agent\<close>: it returns, or the process exits, by a failed start or by the watchdog.\<close>

datatype agent_end = Returned "str option" | Exited nat

datatype service_status = Service_running | Service_stopped u32

datatype service_control = Control_stop | Control_shutdown | Control_interrogate | Control_other

text \<open>The answer is whether the control is implemented.\<close>

fun event_handler :: "service_control \<Rightarrow> shutdown_state \<Rightarrow> shutdown_state \<times> int option \<times> bool" where
  "event_handler Control_stop s = (let (s, c) = request s in (s, c, True))"
| "event_handler Control_shutdown s = (let (s, c) = request s in (s, c, True))"
| "event_handler Control_interrogate s = (s, None, True)"
| "event_handler Control_other s = (s, None, False)"

text \<open>The statuses that are reported to the system, and how the service ends; \<open>register\<close> and \<open>set_status\<close> are the
errors of the two calls, if any.\<close>

definition run_service ::
    "str option \<Rightarrow> (service_status \<Rightarrow> str option) \<Rightarrow> agent_end \<Rightarrow> service_status list \<times> agent_end" where
  "run_service register set_status agent =
     (case register of
        Some e \<Rightarrow> ([], Returned (Some (''register service control handler: '' @ e)))
      | None \<Rightarrow>
          (case set_status Service_running of
             Some e \<Rightarrow> ([Service_running], Returned (Some (''set RUNNING: '' @ e)))
           | None \<Rightarrow>
               (case agent of
                  Exited code \<Rightarrow> ([Service_running], Exited code)
                | Returned r \<Rightarrow>
                    (let stopped = Service_stopped (if r = None then 0 else 1) in
                     ([Service_running, stopped],
                      Returned (case set_status stopped of None \<Rightarrow> None | Some e \<Rightarrow> Some (''set STOPPED: '' @ e)))))))"

text \<open>\<open>service::run\<close>: as a service, or as a console program when the system says that it is none.\<close>

datatype dispatcher_answer = Dispatched | Not_a_service | Dispatch_failed str

definition ERROR_FAILED_SERVICE_CONTROLLER_CONNECT :: int where
  "ERROR_FAILED_SERVICE_CONTROLLER_CONNECT = 1063"

definition dispatcher_answer_of :: "(int option \<times> str) option \<Rightarrow> dispatcher_answer" where
  "dispatcher_answer_of r =
     (case r of
        None \<Rightarrow> Dispatched
      | Some (code, msg) \<Rightarrow>
          if code = Some ERROR_FAILED_SERVICE_CONTROLLER_CONNECT then Not_a_service else Dispatch_failed msg)"

definition service_main_result :: "(int option \<times> str) option \<Rightarrow> agent_end \<Rightarrow> agent_end" where
  "service_main_result start console_end =
     (case dispatcher_answer_of start of
        Dispatched \<Rightarrow> Returned None
      | Not_a_service \<Rightarrow> console_end
      | Dispatch_failed e \<Rightarrow> Returned (Some e))"

text \<open>How the agent has ended by the time of the watchdog's exit: main is through its teardown, or the process
exits with status 0.\<close>

definition agent_end_of :: "teardown \<Rightarrow> agent_end" where
  "agent_end_of s = (if td_todo s = [] then Returned None else Exited 0)"


section \<open>A trace that keeps its callbacks\<close>

definition held :: "main_op list \<Rightarrow> teardown \<Rightarrow> bool" where
  "held tail s \<longleftrightarrow> td_trace s \<and> Kernel_writer \<in> td_live s \<and>
     (\<exists>pre. td_todo s = pre @ Join Kernel_writer # tail \<and> Drop_trace \<notin> set pre)"

fun_cases join_stepE: "main_step (Join t) s = Some s'"

lemma join_waits: "main_step (Join t) s = Some s' \<Longrightarrow> t \<notin> td_live s \<and> s' = s"
  by (elim join_stepE) (auto split: if_splits)

lemma main_step_fields:
  assumes "main_step p s = Some s'"
  shows "td_live s' = td_live s" "td_kernel s' = td_kernel s" "td_plugin s' = td_plugin s"
    "p \<noteq> Drop_trace \<Longrightarrow> td_trace s' = td_trace s" "\<And>t. p = Join t \<Longrightarrow> t \<notin> td_live s"
    "td_kernel_handle s' \<Longrightarrow> td_kernel_handle s \<and> p \<noteq> Drop_kernel_handle"
    "td_plugin_handle s' \<Longrightarrow> td_plugin_handle s \<and> p \<noteq> Drop_plugin_handle"
    "td_trace s' \<Longrightarrow> td_trace s"
  using assms by (cases p; auto split: if_splits)+

lemma held_step:
  assumes "td_step kw pw idle s s'" and "held tail s"
  shows "held tail s'"
  using assms
proof (cases rule: td_step.cases)
  case (main p ops s1)
  obtain pre where pre: "td_todo s = pre @ Join Kernel_writer # tail" "Drop_trace \<notin> set pre"
    using assms(2) by (auto simp: held_def)
  have "pre \<noteq> []"
    using main pre(1) main_step_fields(5) [OF main(3)] assms(2) by (auto simp: held_def)
  then obtain pre' where "pre = p # pre'" using main(2) pre(1) by (cases pre) auto
  with main pre main_step_fields [OF main(3)] assms(2) show ?thesis by (auto simp: held_def)
qed (auto simp: held_def kernel_open_def)

lemma reach_induct_inv:
  assumes "td_reach kw pw idle s s'" and "I s" and "\<And>s s'. td_step kw pw idle s s' \<Longrightarrow> I s \<Longrightarrow> I s'"
  shows "I s'"
  using assms by (induction rule: td_reach.induct) auto

lemma start_held:
  assumes "rn_etw a \<noteq> None"
  shows "\<exists>tail. held tail (td_start a True sessions ks ps) \<and>
    (rn_shipper a \<noteq> None \<longrightarrow> Join Shipper_thread \<in> set tail) \<and>
    (rn_control a \<noteq> None \<longrightarrow> Join Heartbeat_thread \<in> set tail) \<and>
    (rn_plugin_dir a \<noteq> None \<longrightarrow> Join Plugin_writer \<in> set tail)"
proof -
  define pre where "pre = [Close_device] @
     (if rn_reload a then [Join Rules_reload] else []) @
     (if rn_supervisor a then [Join Plugin_supervisor] else []) @
     (if rn_server a then [Join Plugin_accept, Join Plugin_reload, Join Plugin_stats] else []) @ [Drop_kernel_handle]"
  define tail where "tail =
     (if rn_plugin_dir a \<noteq> None then [Drop_plugin_handle, Join Plugin_writer] else []) @
     (if rn_shipper a \<noteq> None then [Join Shipper_thread] else []) @
     (if rn_control a \<noteq> None then [Join Heartbeat_thread, Join Alerts_thread] else []) @
     (if rn_etw a \<noteq> None then [Join Etw_worker, Join Etw_stop, Drop_trace] else []) @
     (if rn_polling a \<noteq> None then [Join Poll_services, Join Poll_tasks] else [])"
  have "teardown_ops a = pre @ Join Kernel_writer # tail" by (simp add: teardown_ops_def pre_def tail_def)
  moreover have "Drop_trace \<notin> set pre" by (auto simp: pre_def)
  ultimately have "held tail (td_start a True sessions ks ps)"
    using assms by (auto simp: held_def td_start_def threads_of_def)
  then show ?thesis by (intro exI [of _ tail]) (simp add: tail_def)
qed

text \<open>C27. With ETW on, the agent never ends its teardown when the trace keeps its callbacks until it is dropped: the
kernel spool's writer, whose documentation says that a submitter does not keep it alive, waits for senders that
main drops only after it has joined that writer. The last batch is not sealed by the shutdown, the plugin spool,
the shipper and the control plane are never joined, and as a service the agent never reports that it stopped:
the watchdog ends the process.\<close>

theorem etw_blocks_teardown:
  assumes "rn_etw a \<noteq> None" and "td_reach kw pw idle (td_start a True sessions ks ps) s"
  shows "Join Kernel_writer \<in> set (td_todo s) \<and> Kernel_writer \<in> td_live s \<and> kernel_open s \<and>
    (rn_plugin_dir a \<noteq> None \<longrightarrow> Join Plugin_writer \<in> set (td_todo s)) \<and>
    (rn_shipper a \<noteq> None \<longrightarrow> Join Shipper_thread \<in> set (td_todo s)) \<and>
    (rn_control a \<noteq> None \<longrightarrow> Join Heartbeat_thread \<in> set (td_todo s)) \<and>
    fst (run_service None (\<lambda>st. None) (agent_end_of s)) = [Service_running]"
proof -
  obtain tail where tail: "held tail (td_start a True sessions ks ps)"
    "rn_shipper a \<noteq> None \<longrightarrow> Join Shipper_thread \<in> set tail"
    "rn_control a \<noteq> None \<longrightarrow> Join Heartbeat_thread \<in> set tail"
    "rn_plugin_dir a \<noteq> None \<longrightarrow> Join Plugin_writer \<in> set tail" using start_held [OF assms(1)] by blast
  have "held tail s" by (rule reach_induct_inv [where I = "held tail", OF assms(2) tail(1)]) (rule held_step)
  then obtain pre where pre: "td_todo s = pre @ Join Kernel_writer # tail" "td_trace s" "Kernel_writer \<in> td_live s"
    by (auto simp: held_def)
  with tail show ?thesis by (simp add: kernel_open_def run_service_def agent_end_of_def)
qed

section \<open>A teardown that completes\<close>

text \<open>What every state keeps: no trace and no idle session, writers that are alive read from a channel that is
connected, and main drops a handle before it joins the writer.\<close>

definition handle_first :: "main_op \<Rightarrow> main_op \<Rightarrow> main_op list \<Rightarrow> bool" where
  "handle_first drp jn ops \<longleftrightarrow> jn \<notin> set (takeWhile (\<lambda>p. p \<noteq> drp) ops)"

definition td_inv :: "nat set \<Rightarrow> teardown \<Rightarrow> bool" where
  "td_inv idle s \<longleftrightarrow> finite (td_live s) \<and> \<not> td_trace s \<and> (\<forall>i. Session i \<in> td_live s \<longrightarrow> i \<notin> idle) \<and>
     (Kernel_writer \<in> td_live s \<longleftrightarrow> sp_connected (td_kernel s)) \<and>
     (Plugin_writer \<in> td_live s \<longleftrightarrow> sp_connected (td_plugin s)) \<and>
     (\<not> sp_connected (td_kernel s) \<longrightarrow> sp_channel (td_kernel s) = []) \<and>
     (td_kernel_handle s \<longrightarrow> handle_first Drop_kernel_handle (Join Kernel_writer) (td_todo s)) \<and>
     (td_plugin_handle s \<longrightarrow> handle_first Drop_plugin_handle (Join Plugin_writer) (td_todo s)) \<and>
     (Kernel_writer \<in> td_live s \<longrightarrow> Join Kernel_writer \<in> set (td_todo s))"

lemma writes_connected [simp]:
  "sp_connected (writes wr (Submit line) sp) = sp_connected sp"
  "sp_connected (writes wr (Recv wio io) sp) = sp_connected sp"
  "sp_connected (writes wr (Timeout io) sp) = sp_connected sp"
proof -
  have "sp_connected (on_line z cfg wio io line sp) = sp_connected sp" for z cfg line sp
    by (cases wio) (simp_all add: on_line_def Let_def counter_simps split: option.splits)
  then show "sp_connected (writes wr (Recv wio io) sp) = sp_connected sp"
    by (simp add: writes_def split: list.splits)
  show "sp_connected (writes wr (Submit line) sp) = sp_connected sp"
    by (simp add: writes_def try_submit_def)
  show "sp_connected (writes wr (Timeout io) sp) = sp_connected sp"
    by (simp add: writes_def on_timeout_def counter_simps split: option.splits)
qed

lemma writes_channel:
  "sp_connected sp \<Longrightarrow> sp_channel sp \<noteq> [] \<Longrightarrow> length (sp_channel (writes wr (Recv wio io) sp)) < length (sp_channel sp)"
  "sp_connected sp \<Longrightarrow> sp_channel sp = [] \<Longrightarrow>
     \<not> sp_connected (writes wr (Disconnect io) sp) \<and> sp_channel (writes wr (Disconnect io) sp) = []"
  "\<not> sp_connected sp \<Longrightarrow> sp_channel (writes wr (Submit line) sp) = sp_channel sp"
  by (auto simp: writes_def on_line_channel try_submit_def on_disconnected_def Let_def counter_simps
      neq_Nil_conv split: option.splits)

lemma handle_first_pop: "handle_first d j (p # ops) \<Longrightarrow> p \<noteq> d \<Longrightarrow> p \<noteq> j \<and> handle_first d j ops"
  by (auto simp: handle_first_def)

lemma td_inv_step:
  assumes "td_step kw pw idle s s'" and "td_inv idle s"
  shows "td_inv idle s'"
  using assms
proof (cases rule: td_step.cases)
  case (main p ops s1)
  note f = main_step_fields [OF main(3)]
  have "td_kernel_handle s1 \<longrightarrow> handle_first Drop_kernel_handle (Join Kernel_writer) ops"
    "td_plugin_handle s1 \<longrightarrow> handle_first Drop_plugin_handle (Join Plugin_writer) ops"
    using assms(2) main(2) f(6,7) by (auto simp: td_inv_def dest!: handle_first_pop)
  moreover have "Kernel_writer \<in> td_live s \<longrightarrow> Join Kernel_writer \<in> set ops"
    using assms(2) main(2) f(5) by (auto simp: td_inv_def)
  ultimately show ?thesis using assms(2) main(1) f(1-3,8) by (auto simp: td_inv_def)
qed (auto simp: td_inv_def writes_channel)

definition td_size :: "teardown \<Rightarrow> nat" where
  "td_size s = length (td_todo s) + card (td_live s) + length (sp_channel (td_kernel s)) +
     length (sp_channel (td_plugin s))"

lemma card_less: "finite A \<Longrightarrow> x \<in> A \<Longrightarrow> card (A - {x}) < card A"
  by (rule card_Diff1_less)

text \<open>While main is not done, some thread can take a step that brings the end nearer.\<close>

lemma td_progress:
  assumes "td_inv idle s" and "td_todo s \<noteq> []"
  shows "\<exists>s'. td_step kw pw idle s s' \<and> td_size s' < td_size s"
proof (cases "td_live s \<subseteq> {Kernel_writer, Plugin_writer}")
  case False
  then obtain t where t: "t \<in> td_live s" "t \<noteq> Kernel_writer" "t \<noteq> Plugin_writer" by blast
  have "t \<notin> Session ` idle" using assms(1) t(1) by (auto simp: td_inv_def)
  with t have "td_step kw pw idle s (s\<lparr>td_live := td_live s - {t}\<rparr>)" by (intro finishes)
  moreover have "card (td_live s - {t}) < card (td_live s)"
    using assms(1) t(1) by (intro card_less) (auto simp: td_inv_def)
  ultimately show ?thesis by (intro exI conjI) (auto simp: td_size_def)
next
  case quiet: True
  obtain p ops where todo: "td_todo s = p # ops" using assms(2) by (cases "td_todo s") auto
  show ?thesis
  proof (cases "main_step p s")
    case (Some s1)
    have "td_step kw pw idle s (s1\<lparr>td_todo := ops\<rparr>)" by (rule td_step.main [OF todo Some])
    moreover have "td_size (s1\<lparr>td_todo := ops\<rparr>) < td_size s"
      using main_step_fields(1-3) [OF Some] todo by (simp add: td_size_def)
    ultimately show ?thesis by blast
  next
    case None
    then have "p = Join Kernel_writer \<and> Kernel_writer \<in> td_live s \<or> p = Join Plugin_writer \<and> Plugin_writer \<in> td_live s"
      using quiet by (cases p) (auto split: if_splits)
    then show ?thesis
    proof
      assume j: "p = Join Kernel_writer \<and> Kernel_writer \<in> td_live s"
      then have conn: "sp_connected (td_kernel s)" and shut: "\<not> kernel_open s"
        using assms(1) todo quiet by (auto simp: td_inv_def kernel_open_def handle_first_def)
      show ?thesis
      proof (cases "sp_channel (td_kernel s) = []")
        case True
        let ?s' = "s\<lparr>td_kernel := writes kw (Disconnect undefined) (td_kernel s), td_live := td_live s - {Kernel_writer}\<rparr>"
        have "td_step kw pw idle s ?s'" by (rule td_step.kernel_end [OF conjunct2 [OF j] True shut])
        moreover have "td_size ?s' < td_size s"
          using writes_channel(2) [OF conn True] card_less [of "td_live s" Kernel_writer] j True assms(1)
          by (simp add: td_size_def td_inv_def)
        ultimately show ?thesis by blast
      next
        case False
        let ?s' = "s\<lparr>td_kernel := writes kw (Recv undefined undefined) (td_kernel s)\<rparr>"
        have "td_step kw pw idle s ?s'" by (rule td_step.kernel_recv [OF conjunct2 [OF j] False])
        moreover have "td_size ?s' < td_size s"
          using writes_channel(1) [OF conn False] by (simp add: td_size_def)
        ultimately show ?thesis by blast
      qed
    next
      assume j: "p = Join Plugin_writer \<and> Plugin_writer \<in> td_live s"
      then have conn: "sp_connected (td_plugin s)" and shut: "\<not> plugin_open s"
        using assms(1) todo quiet by (auto simp: td_inv_def plugin_open_def handle_first_def)
      show ?thesis
      proof (cases "sp_channel (td_plugin s) = []")
        case True
        let ?s' = "s\<lparr>td_plugin := writes pw (Disconnect undefined) (td_plugin s), td_live := td_live s - {Plugin_writer}\<rparr>"
        have "td_step kw pw idle s ?s'" by (rule td_step.plugin_end [OF conjunct2 [OF j] True shut])
        moreover have "td_size ?s' < td_size s"
          using writes_channel(2) [OF conn True] card_less [of "td_live s" Plugin_writer] j True assms(1)
          by (simp add: td_size_def td_inv_def)
        ultimately show ?thesis by blast
      next
        case False
        let ?s' = "s\<lparr>td_plugin := writes pw (Recv undefined undefined) (td_plugin s)\<rparr>"
        have "td_step kw pw idle s ?s'" by (rule td_step.plugin_recv [OF conjunct2 [OF j] False])
        moreover have "td_size ?s' < td_size s"
          using writes_channel(1) [OF conn False] by (simp add: td_size_def)
        ultimately show ?thesis by blast
      qed
    qed
  qed
qed


lemma reach_trans: "td_reach kw pw idle s' s'' \<Longrightarrow> td_reach kw pw idle s s' \<Longrightarrow> td_reach kw pw idle s s''"
  by (induction rule: td_reach.induct) (auto intro: td_reach.intros)

lemma td_finishes: "td_inv idle s \<Longrightarrow> \<exists>s'. td_reach kw pw idle s s' \<and> td_todo s' = []"
proof (induction "td_size s" arbitrary: s rule: less_induct)
  case less
  show ?case
  proof (cases "td_todo s = []")
    case False
    obtain s1 where s1: "td_step kw pw idle s s1" "td_size s1 < td_size s"
      using td_progress [OF less.prems False] by blast
    obtain s' where "td_reach kw pw idle s1 s'" "td_todo s' = []"
      using less.hyps [OF s1(2) td_inv_step [OF s1(1) less.prems]] by blast
    moreover have "td_reach kw pw idle s s1" by (rule td_reach.further [OF td_reach.here s1(1)])
    ultimately show ?thesis by (blast intro: reach_trans)
  qed (auto intro: td_reach.here)
qed

lemma start_inv:
  assumes "rn_etw a = None \<or> \<not> keeps_callbacks" and "finite sessions" and "sessions \<inter> idle = {}"
    and "sp_connected ks" and "sp_connected ps \<longleftrightarrow> rn_plugin_dir a \<noteq> None"
  shows "td_inv idle (td_start a keeps_callbacks sessions ks ps)"
proof -
  let ?s = "td_start a keeps_callbacks sessions ks ps"
  have "finite (td_live ?s)"
    using assms(2) by (auto simp: td_start_def threads_of_def split: option.splits)
  moreover have "handle_first Drop_kernel_handle (Join Kernel_writer) (teardown_ops a)"
    "handle_first Drop_plugin_handle (Join Plugin_writer) (teardown_ops a)"
    by (auto simp: handle_first_def teardown_ops_def)
  moreover have "Join Kernel_writer \<in> set (teardown_ops a)" by (simp add: teardown_ops_def)
  moreover have "Kernel_writer \<in> td_live ?s" "Plugin_writer \<in> td_live ?s \<longleftrightarrow> rn_plugin_dir a \<noteq> None"
    "\<forall>i. Session i \<in> td_live ?s \<longrightarrow> i \<in> sessions"
    by (auto simp: td_start_def threads_of_def split: option.splits if_splits)
  ultimately show ?thesis
    using assms by (auto simp: td_inv_def td_start_def)
qed


text \<open>A plugin that stays connected and sends nothing blocks the end of the agent as well: its session, which
reads without a time limit, holds a sender of the plugin spool, so that main never gets past the join of that
spool's writer, and neither the shipper nor the control plane is joined.\<close>

theorem idle_plugin_blocks_teardown:
  assumes "rn_server a" and "rn_plugin_dir a \<noteq> None" and "i \<in> sessions" and "i \<in> idle"
    and "td_reach kw pw idle (td_start a keeps_callbacks sessions ks ps) s"
  shows "Join Plugin_writer \<in> set (td_todo s) \<and> plugin_open s \<and> agent_end_of s = Exited 0"
proof -
  let ?I = "\<lambda>s. Session i \<in> td_live s \<and> Plugin_writer \<in> td_live s \<and> Join Plugin_writer \<in> set (td_todo s)"
  have "?I (td_start a keeps_callbacks sessions ks ps)"
    using assms(1-3) by (auto simp: td_start_def threads_of_def teardown_ops_def)
  moreover have "?I s'" if "td_step kw pw idle s s'" "?I s" for s s'
    using that
  proof (cases rule: td_step.cases)
    case (main p ops s1)
    have "p \<noteq> Join Plugin_writer" using main(3) that(2) join_waits by blast
    then show ?thesis using main(1,2) that(2) main_step_fields(1) [OF main(3)] by auto
  qed (use assms(4) in \<open>auto simp: plugin_open_def\<close>)
  ultimately have "?I s" by (rule reach_induct_inv [where I = ?I, OF assms(5)])
  then show ?thesis by (auto simp: plugin_open_def agent_end_of_def)
qed

section \<open>Examples\<close>

definition sample_writer :: writer where
  "sample_writer = (id, \<lparr>max_bytes_per_file = 1, max_age = 1, max_total_bytes = 1, channel_capacity = 1\<rparr>)"

definition full_agent :: "unit running" where
  "full_agent = parts_of open_boot enroll_host (skeleton_config enroll_host) None 7 (Some ())"

definition bare_agent :: "unit running" where
  "bare_agent = parts_of open_boot enroll_host (first_config enroll_host) None 7 None"

lemma sample_agents:
  "rn_etw full_agent \<noteq> None" "rn_etw bare_agent = None" "rn_server full_agent"
  "rn_plugin_dir full_agent \<noteq> None" "rn_plugin_dir bare_agent \<noteq> None"
  by (simp_all add: full_agent_def bare_agent_def parts_of_def Let_def open_boot_def skeleton_config_def
      first_config_def etw_spawn_def enabled_providers_def default_etw_def)

theorem etw_blocks_teardown_witness:
  "Join Kernel_writer \<in> set (td_todo (td_start full_agent True {} (spool_new []) (spool_new [])))"
  using etw_blocks_teardown [OF sample_agents(1) td_reach.here] by blast


theorem idle_plugin_blocks_teardown_witness:
  "agent_end_of (td_start full_agent False {3} (spool_new []) (spool_new [])) = Exited 0"
  using idle_plugin_blocks_teardown [OF sample_agents(3,4) _ _ td_reach.here, of 3 "{3}" "{3}"] by simp

end
