(* ===== verification/Pauses.thy ===== *)
theory Pauses
  imports Control Detection Shutdown
begin

text \<open>
  How the threads wait (\<open>src/src/polling/mod.rs\<close>, \<open>shipper/run.rs\<close>, \<open>plugin/supervisor.rs\<close>, \<open>plugin/server.rs\<close>,
  \<open>detection/mod.rs\<close>, \<open>control/mod.rs\<close>): each has a pause of its own, which looks at the shutdown flag after
  every slice. The locale \<open>prompt_pause\<close> is what a thread relies on, and gives the end of its loop; the watchdog of
  the theory Shutdown is what the ends are compared with. Times are milliseconds; the flag is set at \<open>stop\<close>, if
  ever.
\<close>

section \<open>The pauses\<close>

fun raised :: "millis option \<Rightarrow> millis \<Rightarrow> bool" where
  "raised None now = False"
| "raised (Some t) now = (t \<le> now)"

text \<open>Sleep in slices of \<open>Suc gap\<close> to the end, or to the first look at a flag that is set.\<close>

function sleep_until :: "(millis \<Rightarrow> bool) \<Rightarrow> millis \<Rightarrow> millis \<Rightarrow> millis \<Rightarrow> millis" where
  "sleep_until flag gap end_time now =
     (if end_time \<le> now \<or> flag now then now
      else sleep_until flag gap end_time (now + min (end_time - now) (Suc gap)))"
  by pat_completeness auto
termination by (relation "measure (\<lambda>(flag, gap, end_time, now). end_time - now)") auto

declare sleep_until.simps [simp del]

definition polling_sleep :: "millis \<Rightarrow> millis option \<Rightarrow> millis \<Rightarrow> millis" where
  "polling_sleep dur stop now = sleep_until (raised stop) 499 (now + dur) now"

definition sleep_responsive :: "millis \<Rightarrow> millis option \<Rightarrow> millis option \<Rightarrow> millis \<Rightarrow> millis" where
  "sleep_responsive dur wake stop now =
     sleep_until (\<lambda>n. raised stop n \<or> raised wake n) 99 (now + dur) now"

text \<open>\<open>sleep_with_shutdown\<close>: whether the flag is still clear, and the time.\<close>

function sleep_with_shutdown :: "millis \<Rightarrow> millis option \<Rightarrow> millis \<Rightarrow> bool \<times> millis" where
  "sleep_with_shutdown left stop now =
     (if left = 0 then (\<not> raised stop now, now)
      else if raised stop now then (False, now)
      else sleep_with_shutdown (left - min 250 left) stop (now + min 250 left))"
  by pat_completeness auto
termination by (relation "measure (\<lambda>(left, stop, now). left)") auto

declare sleep_with_shutdown.simps [simp del]

text \<open>\<open>for _ in 0..n { if SHUTDOWN { return } sleep(250 ms) }\<close>: whether the loop came to its end, and the time.\<close>

fun count_slices :: "nat \<Rightarrow> millis option \<Rightarrow> millis \<Rightarrow> bool \<times> millis" where
  "count_slices 0 stop now = (True, now)"
| "count_slices (Suc n) stop now =
     (if raised stop now then (False, now) else count_slices n stop (now + 250))"

text \<open>Waiting for a client of the pipe: \<open>client\<close> is when one connects, \<open>fails\<close> when the system refuses to wait, and
\<open>refused\<close> whether it refuses the event or the connection. With neither a client nor a request the thread waits for
ever.\<close>

datatype waited = Connected | Woken | Wait_error

partial_function (option) wait_loop ::
    "(millis \<Rightarrow> bool) \<Rightarrow> millis option \<Rightarrow> millis option \<Rightarrow> millis \<Rightarrow> (waited \<times> millis) option" where
  "wait_loop fails client stop now =
     (if fails now then Some (Wait_error, now)
      else if raised client (now + 250) then Some (Connected, max now (case client of Some c \<Rightarrow> c | None \<Rightarrow> now))
      else if raised stop (now + 250) then Some (Woken, now + 250)
      else wait_loop fails client stop (now + 250))"

definition wait_for_client ::
    "bool \<Rightarrow> (millis \<Rightarrow> bool) \<Rightarrow> millis option \<Rightarrow> millis option \<Rightarrow> millis \<Rightarrow> (waited \<times> millis) option" where
  "wait_for_client refused fails client stop now =
     (if refused then Some (Wait_error, now)
      else if raised client now then Some (Connected, now)
      else wait_loop fails client stop now)"

section \<open>A thread that works and pauses\<close>

text \<open>A turn of a loop: whether the loop goes on, and the time after it. The pause is a turn as well.\<close>

type_synonym turn = "millis option \<Rightarrow> millis \<Rightarrow> bool \<times> millis"

definition work_first :: "(millis \<Rightarrow> millis) \<Rightarrow> turn \<Rightarrow> turn" where
  "work_first work pause stop now = pause stop (now + work now)"

definition pause_first :: "(millis \<Rightarrow> millis) \<Rightarrow> turn \<Rightarrow> turn" where
  "pause_first work pause stop now =
     (case pause stop now of (go, u) \<Rightarrow> if go then (True, u + work u) else (False, u))"

text \<open>\<open>while !SHUTDOWN { ... }\<close>: when the thread ends; with no request it does not.\<close>

partial_function (option) run_until :: "turn \<Rightarrow> millis option \<Rightarrow> millis \<Rightarrow> millis option" where
  "run_until t stop now =
     (if raised stop now then Some now
      else case t stop now of (go, u) \<Rightarrow> if go then run_until t stop u else Some u)"

locale prompt_pause =
  fixes pause :: turn
    and slice :: millis
  assumes forward: "now \<le> snd (pause stop now)"
    and prompt: "snd (pause (Some t) now) \<le> max now t + slice"
begin

lemma loop_ends:
  assumes "\<And>now. now < t \<Longrightarrow> now < snd (turn (Some t) now) \<and> snd (turn (Some t) now) \<le> t + late"
  shows "\<exists>e. run_until turn (Some t) now = Some e \<and> e \<le> max now t + late"
proof (induction "t - now" arbitrary: now rule: less_induct)
  case less
  show ?case
  proof (cases "t \<le> now")
    case True
    then show ?thesis by (subst run_until.simps) simp
  next
    case False
    obtain go u where turn: "turn (Some t) now = (go, u)" by fastforce
    with assms [of now] False have u: "now < u" "u \<le> t + late" by auto
    have step: "run_until turn (Some t) now = (if go then run_until turn (Some t) u else Some u)"
      using False turn by (subst run_until.simps) simp
    show ?thesis
    proof (cases "go \<and> u < t")
      case True
      with less [of u] u False step show ?thesis by auto
    next
      case stays: False
      then have "run_until turn (Some t) now = Some u"
        unfolding step by (cases go) (simp_all add: run_until.simps [of turn "Some t" u])
      with u False show ?thesis by simp
    qed
  qed
qed

lemma work_first_ends:
  assumes "\<And>u. 0 < work u \<and> work u \<le> w"
  shows "\<exists>e. run_until (work_first work pause) (Some t) now = Some e \<and> e \<le> max now t + (w + slice)"
proof (rule loop_ends)
  fix now assume "now < t"
  moreover have "0 < work now" "work now \<le> w" using assms by blast+
  moreover have "now + work now \<le> snd (pause (Some t) (now + work now))" by (rule forward)
  moreover have "snd (pause (Some t) (now + work now)) \<le> max (now + work now) t + slice" by (rule prompt)
  ultimately show "now < snd (work_first work pause (Some t) now) \<and>
      snd (work_first work pause (Some t) now) \<le> t + (w + slice)"
    unfolding work_first_def by linarith
qed

lemma pause_first_ends:
  assumes "\<And>u. 0 < work u \<and> work u \<le> w" and "\<And>now. now < t \<Longrightarrow> now < snd (pause (Some t) now)"
  shows "\<exists>e. run_until (pause_first work pause) (Some t) now = Some e \<and> e \<le> max now t + (w + slice)"
proof (rule loop_ends)
  fix now assume "now < t"
  obtain go u where p: "pause (Some t) now = (go, u)" by fastforce
  have "work u \<le> w" using assms(1) by blast
  moreover have "now < u" "u \<le> t + slice"
    using assms(2) [OF \<open>now < t\<close>] prompt [of t now] \<open>now < t\<close> by (simp_all add: p)
  ultimately show "now < snd (pause_first work pause (Some t) now) \<and>
      snd (pause_first work pause (Some t) now) \<le> t + (w + slice)"
    by (simp add: pause_first_def p)
qed

end

section \<open>The pauses are prompt\<close>

lemma sleep_until_bounds:
  "now \<le> sleep_until flag gap end_time now \<and>
   ((\<forall>u\<ge>t. flag u) \<longrightarrow> sleep_until flag gap end_time now \<le> max now t + gap)"
proof (induction flag gap end_time now rule: sleep_until.induct)
  case (1 flag gap end_time now)
  show ?case
  proof (cases "end_time \<le> now \<or> flag now")
    case True
    then have "sleep_until flag gap end_time now = now" by (subst sleep_until.simps) simp
    then show ?thesis by (simp add: trans_le_add1)
  next
    case False
    let ?n = "now + min (end_time - now) (Suc gap)"
    have step: "sleep_until flag gap end_time now = sleep_until flag gap end_time ?n"
      using False by (subst sleep_until.simps) simp
    have "sleep_until flag gap end_time ?n \<le> max now t + gap" if "\<forall>u\<ge>t. flag u"
    proof -
      have "now < t" using False that not_le by blast
      show ?thesis
      proof (cases "t \<le> ?n")
        case True
        with that have "sleep_until flag gap end_time ?n = ?n" by (subst sleep_until.simps) simp
        with \<open>now < t\<close> show ?thesis by simp
      next
        case wait: False
        with 1 [OF False] that show ?thesis by simp
      qed
    qed
    with 1 [OF False] show ?thesis unfolding step by simp
  qed
qed

lemmas sleep_until_forward = sleep_until_bounds [THEN conjunct1]

lemma sleep_until_prompt: "\<forall>u\<ge>t. flag u \<Longrightarrow> sleep_until flag gap end_time now \<le> max now t + gap"
  using sleep_until_bounds by blast

lemma responsive_sleep_bounds:
  "now \<le> responsive_sleep dur stop now" "responsive_sleep dur (Some t) now \<le> max now t + 249"
  using sleep_loop_bounds [of now "now + dur" stop] sleep_loop_bounds [of now "now + dur" "Some t"]
  by (simp_all add: responsive_sleep_def max_def split: if_splits)

lemma sleep_with_shutdown_bounds:
  "now \<le> snd (sleep_with_shutdown left stop now) \<and>
   (stop = Some t \<longrightarrow> snd (sleep_with_shutdown left stop now) \<le> max now t + 250) \<and>
   (0 < left \<longrightarrow> \<not> raised stop now \<longrightarrow> now < snd (sleep_with_shutdown left stop now))"
proof (induction left stop now rule: sleep_with_shutdown.induct)
  case (1 left stop now)
  show ?case
  proof (cases "left = 0 \<or> raised stop now")
    case True
    then show ?thesis by (subst (1 2 3) sleep_with_shutdown.simps) auto
  next
    case False
    let ?n = "now + min 250 left"
    have step: "sleep_with_shutdown left stop now = sleep_with_shutdown (left - min 250 left) stop ?n"
      using False by (subst sleep_with_shutdown.simps) simp
    from False have "left \<noteq> 0" "\<not> raised stop now" by auto
    note IH = 1 [OF this]
    have after: "raised stop ?n \<longrightarrow> snd (sleep_with_shutdown (left - min 250 left) stop ?n) = ?n"
      by (subst sleep_with_shutdown.simps) simp
    have "now < ?n" using False by simp
    have "snd (sleep_with_shutdown (left - min 250 left) stop ?n) \<le> max now t + 250" if "stop = Some t"
      using that IH after False by (cases "t \<le> ?n") (auto simp: max_def)
    moreover have "now < snd (sleep_with_shutdown (left - min 250 left) stop ?n)"
      using IH \<open>now < ?n\<close> by (blast intro: less_le_trans)
    ultimately show ?thesis unfolding step by simp
  qed
qed

lemma count_slices_bounds:
  "now \<le> snd (count_slices n stop now) \<and>
   (stop = Some t \<longrightarrow> snd (count_slices n stop now) \<le> max now t + 250) \<and>
   (0 < n \<longrightarrow> \<not> raised stop now \<longrightarrow> now < snd (count_slices n stop now))"
proof (induction n arbitrary: now)
  case (Suc n)
  show ?case
  proof (cases "raised stop now")
    case False
    have after: "raised stop (now + 250) \<longrightarrow> snd (count_slices n stop (now + 250)) = now + 250" by (cases n) simp_all
    from Suc.IH [of "now + 250"] after False show ?thesis by (auto simp: max_def)
  qed auto
qed auto

interpretation polling: prompt_pause "\<lambda>stop now. (True, polling_sleep dur stop now)" 499
  by unfold_locales (simp_all add: polling_sleep_def sleep_until_forward sleep_until_prompt)

interpretation shipping: prompt_pause "\<lambda>stop now. (True, sleep_responsive (dur now) wake stop now)" 99
  by unfold_locales (simp_all add: sleep_responsive_def sleep_until_forward sleep_until_prompt)

interpretation beating: prompt_pause "\<lambda>stop now. (True, responsive_sleep (beat now) stop now)" 249
  by unfold_locales (simp_all add: responsive_sleep_bounds)

interpretation watching: prompt_pause "sleep_with_shutdown dur" 250
  by unfold_locales (simp_all add: sleep_with_shutdown_bounds)

interpretation slicing: prompt_pause "count_slices n" 250
  by unfold_locales (simp_all add: count_slices_bounds)

section \<open>The threads\<close>

definition WATCH_INTERVAL :: millis where "WATCH_INTERVAL = 5000"
definition MANIFEST_RELOAD_INTERVAL_SEC :: nat where "MANIFEST_RELOAD_INTERVAL_SEC = 5"
definition STATS_LOG_INTERVAL_SEC :: nat where "STATS_LOG_INTERVAL_SEC = 30"

text \<open>The two pollers, the heartbeat, the shipper (\<open>wake\<close> is when its handle wakes it), the watcher of the
supervisor, the statistics and the reload thread of the plugin server, and the reload thread of the rules; what
a turn does besides pausing takes \<open>work\<close>; the pauses of the heartbeat and of the shipper change with time.\<close>

definition polling_turn :: "millis \<Rightarrow> (millis \<Rightarrow> millis) \<Rightarrow> turn" where
  "polling_turn interval work = work_first work (\<lambda>stop now. (True, polling_sleep interval stop now))"

definition heartbeat_turn :: "(millis \<Rightarrow> millis) \<Rightarrow> (millis \<Rightarrow> millis) \<Rightarrow> turn" where
  "heartbeat_turn beat work = work_first work (\<lambda>stop now. (True, responsive_sleep (beat now) stop now))"

definition shipper_turn :: "(millis \<Rightarrow> millis) \<Rightarrow> millis option \<Rightarrow> (millis \<Rightarrow> millis) \<Rightarrow> turn" where
  "shipper_turn dur wake work = work_first work (\<lambda>stop now. (True, sleep_responsive (dur now) wake stop now))"

definition watcher_turn :: "(millis \<Rightarrow> millis) \<Rightarrow> turn" where
  "watcher_turn work = pause_first work (sleep_with_shutdown WATCH_INTERVAL)"

definition stats_turn :: "(millis \<Rightarrow> millis) \<Rightarrow> turn" where
  "stats_turn work = pause_first work (count_slices (STATS_LOG_INTERVAL_SEC * 4))"

definition manifests_turn :: "(millis \<Rightarrow> millis) \<Rightarrow> turn" where
  "manifests_turn work = pause_first work (count_slices (MANIFEST_RELOAD_INTERVAL_SEC * 4))"

definition rules_turn :: "millis \<Rightarrow> (millis \<Rightarrow> millis) \<Rightarrow> turn" where
  "rules_turn interval work = pause_first work (count_slices (reload_slices interval))"

definition pausing_threads ::
    "millis \<Rightarrow> (millis \<Rightarrow> millis) \<Rightarrow> (millis \<Rightarrow> millis) \<Rightarrow> millis option \<Rightarrow> millis \<Rightarrow> (millis \<Rightarrow> millis) \<Rightarrow> turn list" where
  "pausing_threads interval beat dur wake reload work =
     [polling_turn interval work, heartbeat_turn beat work, shipper_turn dur wake work, watcher_turn work,
      stats_turn work, manifests_turn work, rules_turn reload work]"

lemmas turn_defs = polling_turn_def heartbeat_turn_def shipper_turn_def watcher_turn_def stats_turn_def
  manifests_turn_def rules_turn_def

lemma slices_move: "0 < n \<Longrightarrow> now < t \<Longrightarrow> now < snd (count_slices n (Some t) now)"
  using count_slices_bounds [of now n "Some t"] by simp

lemma watch_moves: "now < t \<Longrightarrow> now < snd (sleep_with_shutdown WATCH_INTERVAL (Some t) now)"
  using sleep_with_shutdown_bounds [of now WATCH_INTERVAL "Some t"] by (simp add: WATCH_INTERVAL_def)

lemma within: "\<exists>e. r = Some e \<and> e \<le> m + (w + s) \<Longrightarrow> s \<le> 499 \<Longrightarrow> \<exists>e. r = Some e \<and> e \<le> m + (w + 499)"
  for m w s :: nat
  by fastforce

lemma pausing_thread_ends:
  assumes "turn \<in> set (pausing_threads interval beat dur wake reload work)"
    and work: "\<And>u. 0 < work u \<and> work u \<le> w"
  shows "\<exists>e. run_until turn (Some t) now = Some e \<and> e \<le> max now t + (w + 499)"
proof -
  consider "turn = polling_turn interval work" | "turn = heartbeat_turn beat work" | "turn = shipper_turn dur wake work"
    | "turn = watcher_turn work" | "turn = stats_turn work" | "turn = manifests_turn work" | "turn = rules_turn reload work"
    using assms(1) by (auto simp: pausing_threads_def)
  then show ?thesis
  proof cases
    case 1
    show ?thesis unfolding 1 turn_defs by (rule within [OF polling.work_first_ends [OF work]]) simp
  next
    case 2
    show ?thesis unfolding 2 turn_defs by (rule within [OF beating.work_first_ends [OF work]]) simp
  next
    case 3
    show ?thesis unfolding 3 turn_defs by (rule within [OF shipping.work_first_ends [OF work]]) simp
  next
    case 4
    show ?thesis unfolding 4 turn_defs by (rule within [OF watching.pause_first_ends [OF work watch_moves]]) simp_all
  next
    case 5
    show ?thesis unfolding 5 turn_defs
      by (rule within [OF slicing.pause_first_ends [OF work slices_move]]) (simp_all add: STATS_LOG_INTERVAL_SEC_def)
  next
    case 6
    show ?thesis unfolding 6 turn_defs
      by (rule within [OF slicing.pause_first_ends [OF work slices_move]]) (simp_all add: MANIFEST_RELOAD_INTERVAL_SEC_def)
  next
    case 7
    show ?thesis unfolding 7 turn_defs
      by (rule within [OF slicing.pause_first_ends [OF work slices_move]]) (simp_all add: reload_slices_def)
  qed
qed


text \<open>The accept thread notices a request within a quarter of a second, and it takes a client only after one has
connected.\<close>

lemma wait_loop_returns:
  "\<exists>r e. wait_loop fails client (Some t) now = Some (r, e) \<and> e \<le> max now t + 250 \<and> (r = Connected \<longrightarrow> raised client e)"
proof (induction "t - now" arbitrary: now rule: less_induct)
  case less
  show ?case
  proof (cases "raised client (now + 250) \<or> fails now \<or> t \<le> now + 250")
    case True
    then show ?thesis by (subst wait_loop.simps) (cases client; auto)
  next
    case False
    then have "wait_loop fails client (Some t) now = wait_loop fails client (Some t) (now + 250)"
      by (subst wait_loop.simps) simp
    with less [of "now + 250"] False show ?thesis by (auto simp: max_def)
  qed
qed

theorem accept_notices_the_request:
  "\<exists>r e. wait_for_client refused fails client (Some t) now = Some (r, e) \<and> e \<le> max now t + 250 \<and>
     (r = Connected \<longrightarrow> raised client e)"
  using wait_loop_returns by (auto simp: wait_for_client_def)


end
