(* ===== verification/Ingest.thy ===== *)
theory Ingest
  imports Pump Shipper
begin

text \<open>
  The way of a kernel event from the driver to the server, which crosses three threads: the pump
  (\<open>src/src/ipc/device.rs\<close>) submits lines to the spool, the writer (\<open>spool/writer.rs\<close>) makes batches of them, and
  the shipper (\<open>shipper/run.rs\<close>) posts and deletes the batches. The threads share the channel and the directory of
  the spool; their steps are those of the theories Pump, Spool and Shipper, in any order. The other directories
  that the shipper watches may hold anything at any time.
\<close>

section \<open>The three threads together\<close>

record 'eng ingest =
  in_pump :: "'eng pump"
  in_shipper :: shipper
  in_received :: "bytes list"

datatype ingest_action =
    Answer device_answer
  | Take write_io seal_io
  | Idle seal_io
  | Ship ship_io "directory list"

text \<open>The body that a turn of the shipper delivers from its first directory, if the server acknowledges it;
\<open>in_received\<close> collects these bodies.\<close>

definition posted :: "(bytes \<Rightarrow> bytes option) \<Rightarrow> shipper_config \<Rightarrow> ship_io \<Rightarrow> directory list \<Rightarrow> bytes option" where
  "posted unzstd cfg io dirs =
     (case oldest_batch (visible io dirs) of
        None \<Rightarrow> None
      | Some (n, i) \<Rightarrow>
          if i = 0 \<and> io_file_ok io
          then Option.bind (Option.bind (map_of (dirs ! 0) n) unzstd)
                 (\<lambda>body. if classify (io_post io (logs_request cfg (logs_endpoint cfg) body)) = Sent
                         then Some body else None)
          else None)"

definition on_spool :: "(spool \<Rightarrow> spool) \<Rightarrow> 'eng ingest \<Rightarrow> 'eng ingest" where
  "on_spool f st = st\<lparr>in_pump := (in_pump st)\<lparr>pm_spool := map_option f (pm_spool (in_pump st))\<rparr>\<rparr>"

definition ship_turn ::
    "(bytes \<Rightarrow> bytes option) \<Rightarrow> shipper_config \<Rightarrow> ship_io \<Rightarrow> directory list \<Rightarrow> 'eng ingest \<Rightarrow> 'eng ingest" where
  "ship_turn unzstd cfg io others st =
     (case pm_spool (in_pump st) of
        None \<Rightarrow> st
      | Some sp \<Rightarrow>
          (let dirs = sp_dir sp # others;
               s = snd (ship_step unzstd cfg io ((in_shipper st)\<lparr>sh_dirs := dirs\<rparr>)) in
           on_spool (\<lambda>sp. sp\<lparr>sp_dir := sh_dirs s ! 0\<rparr>)
             (st\<lparr>in_shipper := s,
                 in_received := in_received st @ (case posted unzstd cfg io dirs of None \<Rightarrow> [] | Some b \<Rightarrow> [b])\<rparr>)))"

fun ingest_step ::
    "'eng pump_env \<Rightarrow> (bytes \<Rightarrow> bytes) \<Rightarrow> (bytes \<Rightarrow> bytes option) \<Rightarrow> shipper_config \<Rightarrow> ingest_action \<Rightarrow>
     'eng ingest \<Rightarrow> 'eng ingest" where
  "ingest_step env zstd unzstd cfg (Answer a) st =
     (if pm_status (in_pump st) = Running then st\<lparr>in_pump := pump_step env a (in_pump st)\<rparr> else st)"
| "ingest_step env zstd unzstd cfg (Take wio io) st =
     on_spool (spool_step zstd (pe_spool_config env) (Recv wio io)) st"
| "ingest_step env zstd unzstd cfg (Idle io) st =
     on_spool (spool_step zstd (pe_spool_config env) (Timeout io)) st"
| "ingest_step env zstd unzstd cfg (Ship io others) st = ship_turn unzstd cfg io others st"

definition ingest_run ::
    "'eng pump_env \<Rightarrow> (bytes \<Rightarrow> bytes) \<Rightarrow> (bytes \<Rightarrow> bytes option) \<Rightarrow> shipper_config \<Rightarrow> ingest_action list \<Rightarrow>
     'eng ingest \<Rightarrow> 'eng ingest" where
  "ingest_run env zstd unzstd cfg as st = fold (ingest_step env zstd unzstd cfg) as st"

text \<open>The agent at its start: the pump runs, the spool's writer has been set up over an empty directory.\<close>

definition ingest_start :: "'eng pump \<Rightarrow> shipper \<Rightarrow> 'eng ingest" where
  "ingest_start p sh =
     \<lparr>in_pump = p\<lparr>pm_spool := Some (writer_start True True (spool_new []))\<rparr>, in_shipper = sh, in_received = []\<rparr>"

text \<open>An action in which the file system does what it is asked.\<close>

fun files_work :: "ingest_action \<Rightarrow> bool" where
  "files_work (Answer a) = True"
| "files_work (Take wio io) = (wio = Write_ok \<and> seal_io_ok io)"
| "files_work (Idle io) = seal_io_ok io"
| "files_work (Ship io others) = io_remove io"

text \<open>The lines of the events that the driver delivered and the agent decoded and let through.\<close>

fun made_line :: "'eng pump_env \<Rightarrow> device_answer \<Rightarrow> 'eng pump \<Rightarrow> bytes option" where
  "made_line env (Delivered payload) p =
     (if pm_status p = Running \<and> length payload \<le> pm_buf_len p then emitted_line env payload else None)"
| "made_line env _ p = None"

fun made_by :: "'eng pump_env \<Rightarrow> ingest_action \<Rightarrow> 'eng ingest \<Rightarrow> bytes list" where
  "made_by env (Answer a) st = (case made_line env a (in_pump st) of None \<Rightarrow> [] | Some l \<Rightarrow> [l])"
| "made_by env _ st = []"

fun made_lines ::
    "'eng pump_env \<Rightarrow> (bytes \<Rightarrow> bytes) \<Rightarrow> (bytes \<Rightarrow> bytes option) \<Rightarrow> shipper_config \<Rightarrow> ingest_action list \<Rightarrow>
     'eng ingest \<Rightarrow> bytes list" where
  "made_lines env zstd unzstd cfg [] st = []"
| "made_lines env zstd unzstd cfg (a # as) st =
     made_by env a st @ made_lines env zstd unzstd cfg as (ingest_step env zstd unzstd cfg a st)"

section \<open>What a step of the writer keeps\<close>

lemma distinct_remove [intro]: "distinct (map fst d) \<Longrightarrow> distinct (map fst (remove_file n d))"
  by (induction d) (auto simp: remove_file_def)

lemma distinct_evict:
  "distinct (map fst (sp_dir s)) \<Longrightarrow> distinct (map fst (sp_dir (evict_loop ok cap t bs s)))"
  by (induction ok cap t bs s rule: evict_loop.induct) auto

lemma distinct_enforce:
  "distinct (map fst (sp_dir s)) \<Longrightarrow> distinct (map fst (sp_dir (enforce_total_size_cap cfg io s)))"
  by (auto simp: enforce_total_size_cap_def Let_def intro: distinct_evict)

lemma distinct_seal:
  "distinct (map fst (sp_dir s)) \<Longrightarrow> distinct (map fst (sp_dir (snd (seal_active_file z cfg io f s))))"
  by (auto simp: seal_active_file_def Let_def intro!: distinct_enforce distinct_put distinct_remove split: option.splits)

lemma distinct_rotate:
  assumes "distinct (map fst (sp_dir s))"
  shows "distinct (map fst (sp_dir (rotate z cfg io s)))"
proof (cases "sp_active s")
  case (Some f)
  have "distinct (map fst (sp_dir (snd (seal_active_file z cfg io f (s\<lparr>sp_active := None\<rparr>)))))"
    using assms by (intro distinct_seal) simp
  then show ?thesis by (auto simp: rotate_def Some Let_def case_prod_unfold)
qed (use assms in \<open>auto simp: rotate_def Let_def\<close>)

lemma rotate_appends:
  assumes io: "seal_io_ok io" and inv: "spool_inv s" and conn: "sp_connected s"
    and ev: "batches_evicted (rotate z cfg io s) = batches_evicted s"
  shows "\<exists>new. batch_contents (sp_dir (rotate z cfg io s)) = batch_contents (sp_dir s) @ new"
proof -
  obtain f where f: "sp_active s = Some f"
    using inv conn by (cases "sp_active s") (auto simp: spool_inv_def)
  define s0 where "s0 = s\<lparr>sp_active := None\<rparr>"
  define r where "r = seal_active_file z cfg io f s0"
  have below: "names_below (batches_sealed s0) (sp_dir s0)" using inv by (simp add: s0_def spool_inv_def)
  have rot: "rotate z cfg io s =
      (let s = (if fst r then snd r else (snd r)\<lparr>sp_dir := remove_file ACTIVE_FILE_NAME (sp_dir (snd r))\<rparr>)
       in s\<lparr>sp_active := Some active_create, sp_dir := put ACTIVE_FILE_NAME [] (sp_dir s)\<rparr>)"
    using io by (simp add: rotate_def f Let_def r_def s0_def case_prod_unfold seal_io_ok_def)
  then have "batches_evicted (snd r) = batches_evicted s0" using ev by (simp add: Let_def s0_def split: if_splits)
  note sealed = seal_appends [OF io below this [unfolded r_def], folded r_def]
  then show ?thesis by (simp add: rot Let_def) (simp add: s0_def)
qed

text \<open>What a thread of the writer does to the directory, to the counter of drops and to the lines: nothing but
appending batches, in which no line is lost.\<close>

lemma line_step_keeps:
  assumes io: "seal_io_ok io" and inv: "spool_inv s" and conn: "sp_connected s"
    and d: "distinct (map fst (sp_dir s))"
    and ev: "batches_evicted (on_line z cfg Write_ok io line s) = batches_evicted s"
  shows "distinct (map fst (sp_dir (on_line z cfg Write_ok io line s))) \<and>
    events_dropped (on_line z cfg Write_ok io line s) = events_dropped s \<and>
    (\<exists>new. batch_contents (sp_dir (on_line z cfg Write_ok io line s)) = batch_contents (sp_dir s) @ new)"
proof -
  obtain f where f: "sp_active s = Some f" "af_bytes_written f = length (af_content f)"
    using inv conn by (cases "sp_active s") (auto simp: spool_inv_def)
  define s1 where "s1 = s\<lparr>sp_active := Some (snd (write_line Write_ok line f)),
    events_written := Suc (events_written s)\<rparr>"
  have inv1: "spool_inv s1" "sp_connected s1" "sp_dir s1 = sp_dir s" "events_dropped s1 = events_dropped s"
    "batches_evicted s1 = batches_evicted s" "distinct (map fst (sp_dir s1))"
    using inv conn f d by (simp_all add: s1_def spool_inv_def)
  have step: "on_line z cfg Write_ok io line s =
      (if max_bytes_per_file cfg \<le> length (af_content f) + length line then rotate z cfg io s1 else s1)"
    by (simp add: on_line_def Let_def f s1_def)
  show ?thesis
  proof (cases "max_bytes_per_file cfg \<le> length (af_content f) + length line")
    case True
    with ev step inv1(5) have "batches_evicted (rotate z cfg io s1) = batches_evicted s1" by simp
    from rotate_appends [OF io inv1(1,2) this] distinct_rotate [OF inv1(6), of z cfg io] True step inv1
    show ?thesis by (simp add: counter_simps)
  qed (use step inv1 in simp)
qed

lemma write_step_keeps:
  assumes ok: "action_ok a" and submit: "\<forall>l. a \<noteq> Submit l" and disconnect: "\<forall>io. a \<noteq> Disconnect io"
    and inv: "spool_inv s" and d: "distinct (map fst (sp_dir s))"
    and ev: "batches_evicted (spool_step z cfg a s) = batches_evicted s"
  shows "distinct (map fst (sp_dir (spool_step z cfg a s))) \<and>
    events_dropped (spool_step z cfg a s) = events_dropped s \<and>
    (\<exists>new. batch_contents (sp_dir (spool_step z cfg a s)) = batch_contents (sp_dir s) @ new)"
proof (cases a)
  case (Recv wio io)
  show ?thesis
  proof (cases "sp_channel s")
    case (Cons line rest)
    let ?s = "s\<lparr>sp_channel := rest\<rparr>"
    have "sp_connected s" using inv Cons by (auto simp: spool_inv_def)
    moreover from this inv have "spool_inv ?s" by (simp add: spool_inv_def)
    ultimately show ?thesis
      using line_step_keeps [of io ?s z cfg line] ok ev d by (simp add: Recv Cons)
  qed (simp add: Recv d)
next
  case (Timeout io)
  show ?thesis
  proof (cases "sp_connected s \<and> sp_channel s = [] \<and> spool_step z cfg a s \<noteq> s")
    case True
    then have "spool_step z cfg a s = rotate z cfg io s"
      by (auto simp: Timeout on_timeout_def split: option.splits if_splits)
    with True rotate_appends [of io s z cfg] distinct_rotate [OF d, of z cfg io] ok ev inv show ?thesis
      by (simp add: Timeout counter_simps)
  next
    case False
    then have "spool_step z cfg a s = s" by (auto simp: Timeout)
    with d show ?thesis by simp
  qed
qed (use submit disconnect in auto)

section \<open>The account of the lines\<close>

text \<open>Every line that was made was queued, in order, or counted as dropped; the sealed batches, the active file
and the channel hold the queued lines, in order; and the sealed batches are those that the server acknowledged and
those on the disk.\<close>

definition accounts :: "(bytes \<Rightarrow> bytes) \<Rightarrow> bytes list \<Rightarrow> bytes list \<Rightarrow> spool \<Rightarrow> bool" where
  "accounts unz made received sp \<longleftrightarrow>
     (\<exists>queued sealed.
        subseq queued made \<and> events_dropped sp + length queued = length made \<and>
        concat sealed @ active_content sp @ concat (sp_channel sp) = concat queued \<and>
        mset sealed = mset received + mset (map unz (batch_contents (sp_dir sp))))"

definition sound :: "spool \<Rightarrow> bool" where
  "sound sp \<longleftrightarrow> spool_inv sp \<and> distinct (map fst (sp_dir sp))"

lemma submit_accounts:
  assumes "accounts unz made received sp"
  shows "accounts unz (made @ [l]) received (snd (try_submit cfg l sp))"
proof -
  obtain queued sealed where q: "subseq queued made" "events_dropped sp + length queued = length made"
    "concat sealed @ active_content sp @ concat (sp_channel sp) = concat queued"
    "mset sealed = mset received + mset (map unz (batch_contents (sp_dir sp)))"
    using assms by (auto simp: accounts_def)
  show ?thesis
  proof (cases "sp_connected sp \<and> length (sp_channel sp) < channel_capacity cfg")
    case True
    have "concat sealed @ active_content sp @ concat (sp_channel sp) @ l = concat (queued @ [l])"
      using q(3) by (simp flip: append_assoc)
    with q True show ?thesis
      unfolding accounts_def
      by (intro exI [of _ "queued @ [l]"] exI [of _ sealed])
         (simp add: try_submit_def active_content_def list_emb_append_mono)
  next
    case False
    with q show ?thesis
      unfolding accounts_def
      by (intro exI [of _ queued] exI [of _ sealed])
         (auto simp: try_submit_def active_content_def)
  qed
qed

lemma submit_sound: "sound sp \<Longrightarrow> sound (snd (try_submit cfg l sp))"
  by (simp add: sound_def try_submit_def spool_inv_def)

lemma write_accounts:
  assumes "accounts unz made received s" and sound: "sound s"
    and ok: "action_ok a" "\<forall>l. a \<noteq> Submit l" "\<forall>io. a \<noteq> Disconnect io"
    and z: "\<forall>x. unz (z x) = x" and ev: "batches_evicted (spool_step z cfg a s) = batches_evicted s"
  shows "accounts unz made received (spool_step z cfg a s) \<and> sound (spool_step z cfg a s)"
proof -
  let ?s = "spool_step z cfg a s"
  obtain queued sealed where q: "subseq queued made" "events_dropped s + length queued = length made"
    "concat sealed @ active_content s @ concat (sp_channel s) = concat queued"
    "mset sealed = mset received + mset (map unz (batch_contents (sp_dir s)))"
    using assms(1) by (auto simp: accounts_def)
  have inv: "spool_inv s" "distinct (map fst (sp_dir s))" using sound by (simp_all add: sound_def)
  from write_step_keeps [OF ok inv ev] obtain new where new: "distinct (map fst (sp_dir ?s))"
    "events_dropped ?s = events_dropped s" "batch_contents (sp_dir ?s) = batch_contents (sp_dir s) @ new" by blast
  have "accepted_lines z cfg [a] s = []" using ok(2) by (cases a) simp_all
  then have stores: "spool_inv ?s" "stored unz ?s = stored unz s"
    using spool_step_stores [OF ok(1) inv(1) z ev] by (simp_all del: accepted_lines.simps)
  from stores(2) new(3)
  have same: "concat (map unz new) @ active_content ?s @ concat (sp_channel ?s) =
      active_content s @ concat (sp_channel s)" by (simp add: stored_def)
  have "accounts unz made received ?s"
    unfolding accounts_def
    by (intro exI [of _ queued] exI [of _ "sealed @ map unz new"]) (simp add: q new same)
  with stores(1) new(1) show ?thesis by (simp add: sound_def)
qed

text \<open>The directory loses a batch: its content is what the server has more.\<close>

lemma batch_contents_split:
  assumes "map_of d n = Some raw" and "is_batch_name n" and "distinct (map fst d)"
  shows "mset (batch_contents d) = mset (batch_contents (remove_file n d)) + {#raw#}"
  using assms
proof (induction d)
  case (Cons e d)
  obtain k c where e: "e = (k, c)" by force
  show ?case
  proof (cases "k = n")
    case True
    with Cons.prems e have "remove_file n d = d" by (auto simp: remove_file_def filter_id_conv rev_image_eqI)
    with True Cons.prems e show ?thesis by (simp add: batch_contents_def remove_file_def)
  next
    case False
    with Cons e show ?thesis by (simp add: batch_contents_def remove_file_def)
  qed
qed simp

lemma delivered_accounts:
  assumes "accounts unz made received sp" and "sound sp"
    and "map_of (sp_dir sp) n = Some raw" and "is_batch_name n"
  shows "accounts unz made (received @ [unz raw]) (sp\<lparr>sp_dir := remove_file n (sp_dir sp)\<rparr>) \<and>
    sound (sp\<lparr>sp_dir := remove_file n (sp_dir sp)\<rparr>)"
  using assms batch_contents_split [OF assms(3,4)] names_below_steps(2)
  by (fastforce simp: accounts_def sound_def active_content_def spool_inv_def)

section \<open>Each step keeps the account\<close>

lemma pump_step_spool:
  "pm_status p = Running \<Longrightarrow>
     pm_spool (pump_step env a p) = submit_line (pe_spool_config env) (made_line env a p) (pm_spool p)"
  by (cases a) (simp_all add: dispatch_spool submit_line_def)

definition spool_of :: "'eng ingest \<Rightarrow> spool" where
  "spool_of st = the (pm_spool (in_pump st))"

definition in_order :: "(bytes \<Rightarrow> bytes option) \<Rightarrow> bytes list \<Rightarrow> 'eng ingest \<Rightarrow> bool" where
  "in_order unzstd made st \<longleftrightarrow>
     pm_spool (in_pump st) \<noteq> None \<and> sound (spool_of st) \<and>
     accounts (the \<circ> unzstd) made (in_received st) (spool_of st)"

lemma ship_step_dirs:
  assumes "oldest_batch (visible io (sh_dirs s)) = Some (n, i)" and "io_remove io"
  defines "content \<equiv> if io_file_ok io then map_of (sh_dirs s ! i) n else None"
  shows "sh_dirs (snd (ship_step unzstd cfg io s)) =
    (if send_one unzstd (io_post io) cfg (logs_endpoint cfg) content = Sent
     then delete_batch (n, i) (sh_dirs s) else sh_dirs s)"
proof -
  have "ship_step unzstd cfg io s =
      (case send_one unzstd (io_post io) cfg (logs_endpoint cfg) content of
         Sent \<Rightarrow> (0, s\<lparr>sh_dirs := delete_batch (n, i) (sh_dirs s), batches_sent := Suc (batches_sent s), sh_backoff := 0\<rparr>)
       | Rejected status \<Rightarrow> (sc_poll_interval cfg, s\<lparr>batches_rejected := Suc (batches_rejected s)\<rparr>)
       | Retry why \<Rightarrow>
           let b = next_backoff (io_nanos io) (sh_backoff s) (sc_max_backoff cfg)
           in (b, s\<lparr>sh_backoff := b, send_retries := Suc (send_retries s)\<rparr>))"
    unfolding ship_step_def assms(1) content_def by (simp add: assms(2) del: if_split cong: send_outcome.case_cong)
  then show ?thesis by (simp add: Let_def split: send_outcome.split)
qed

lemma ship_in_order:
  assumes st: "in_order unzstd made st" and "io_remove io"
  shows "in_order unzstd made (ship_turn unzstd cfg io others st)"
proof -
  obtain sp where sp: "pm_spool (in_pump st) = Some sp" "spool_of st = sp"
    using st by (auto simp: in_order_def spool_of_def)
  define dirs where "dirs = sp_dir sp # others"
  define s where "s = snd (ship_step unzstd cfg io ((in_shipper st)\<lparr>sh_dirs := dirs\<rparr>))"
  have turn: "ship_turn unzstd cfg io others st =
      on_spool (\<lambda>sp. sp\<lparr>sp_dir := sh_dirs s ! 0\<rparr>)
        (st\<lparr>in_shipper := s,
            in_received := in_received st @ (case posted unzstd cfg io dirs of None \<Rightarrow> [] | Some b \<Rightarrow> [b])\<rparr>)"
    by (simp add: ship_turn_def sp Let_def dirs_def s_def)
  have fields: "spool_of (ship_turn unzstd cfg io others st) = sp\<lparr>sp_dir := sh_dirs s ! 0\<rparr>"
    "pm_spool (in_pump (ship_turn unzstd cfg io others st)) \<noteq> None"
    "in_received (ship_turn unzstd cfg io others st) =
       in_received st @ (case posted unzstd cfg io dirs of None \<Rightarrow> [] | Some b \<Rightarrow> [b])"
    by (simp_all add: turn on_spool_def spool_of_def sp)
  consider (nothing) "posted unzstd cfg io dirs = None" "sh_dirs s ! 0 = sp_dir sp"
    | (gone) n raw body where "posted unzstd cfg io dirs = Some body" "sh_dirs s ! 0 = remove_file n (sp_dir sp)"
        "map_of (sp_dir sp) n = Some raw" "unzstd raw = Some body" "is_batch_name n"
  proof (cases "oldest_batch (visible io dirs)")
    case None
    then have "posted unzstd cfg io dirs = None" by (simp add: posted_def)
    moreover have "sh_dirs s = dirs" using None by (simp add: s_def ship_step_def)
    then have "sh_dirs s ! 0 = sp_dir sp" by (simp add: dirs_def)
    ultimately show thesis by (rule nothing)
  next
    case (Some p)
    obtain n i where p: "p = (n, i)" by force
    define content where "content = (if io_file_ok io then map_of (dirs ! i) n else None)"
    define out where "out = send_one unzstd (io_post io) cfg (logs_endpoint cfg) content"
    have dirs: "sh_dirs s = (if out = Sent then delete_batch p dirs else dirs)"
      using ship_step_dirs [of io "(in_shipper st)\<lparr>sh_dirs := dirs\<rparr>" n i unzstd cfg] assms(2) Some
      by (simp add: s_def p out_def content_def)
    have batch: "is_batch_name n"
      using oldest_batch_is_least [where io = io and dirs = dirs] Some p by (auto simp: pending_def)
    show thesis
    proof (cases "out = Sent \<and> i = 0")
      case True
      then obtain raw body where "content = Some raw" "unzstd raw = Some body"
          "classify (io_post io (logs_request cfg (logs_endpoint cfg) body)) = Sent"
        by (auto simp: out_def send_one_def split: option.splits)
      with True Some p dirs batch show thesis
        by (intro gone [of body n raw])
           (simp_all add: posted_def content_def delete_batch_def dirs_def split: if_splits)
    next
      case False
      then have "posted unzstd cfg io dirs = None"
        using Some p by (auto simp: posted_def out_def content_def send_one_def bind_eq_Some_conv split: option.splits)
      moreover have "sh_dirs s ! 0 = sp_dir sp"
        using False dirs p by (cases i) (auto simp: delete_batch_def dirs_def)
      ultimately show thesis by (rule nothing)
    qed
  qed
  then show ?thesis
  proof cases
    case nothing
    with st fields sp show ?thesis by (simp add: in_order_def)
  next
    case (gone n raw body)
    have "sound sp" "accounts (the \<circ> unzstd) made (in_received st) sp" using st sp by (simp_all add: in_order_def)
    from delivered_accounts [OF this(2,1) gone(3,5)] gone(1,2,4) fields sp show ?thesis by (simp add: in_order_def)
  qed
qed

lemma ship_evicted:
  "pm_spool (in_pump st) \<noteq> None \<Longrightarrow> pm_spool (in_pump (ship_turn unzstd cfg io others st)) \<noteq> None \<and>
     batches_evicted (spool_of (ship_turn unzstd cfg io others st)) = batches_evicted (spool_of st)"
  by (auto simp: ship_turn_def on_spool_def spool_of_def Let_def)

lemma ingest_step_evicted:
  assumes "pm_spool (in_pump st) \<noteq> None"
  shows "pm_spool (in_pump (ingest_step env z unzstd cfg a st)) \<noteq> None \<and>
    batches_evicted (spool_of st) \<le> batches_evicted (spool_of (ingest_step env z unzstd cfg a st))"
proof -
  obtain sp where sp: "pm_spool (in_pump st) = Some sp" using assms by blast
  show ?thesis
  proof (cases a)
    case (Answer d)
    show ?thesis
    proof (cases "pm_status (in_pump st) = Running")
      case True
      from pump_step_spool [OF this, of env d] True sp show ?thesis
        by (cases "made_line env d (in_pump st)")
           (simp_all add: Answer spool_of_def submit_line_def submit_to_def try_submit_def)
    qed (use Answer assms in simp)
  next
    case (Take wio io)
    with sp spool_step_evicted [of sp z "pe_spool_config env" "Recv wio io"] show ?thesis
      by (simp add: on_spool_def spool_of_def del: spool_step.simps)
  next
    case (Idle io)
    with sp spool_step_evicted [of sp z "pe_spool_config env" "Timeout io"] show ?thesis
      by (simp add: on_spool_def spool_of_def del: spool_step.simps)
  next
    case (Ship io others)
    with assms ship_evicted [of st unzstd cfg io others] show ?thesis by simp
  qed
qed

lemma ingest_run_Cons:
  "ingest_run env z unzstd cfg (a # as) st =
     ingest_run env z unzstd cfg as (ingest_step env z unzstd cfg a st)"
  by (simp add: ingest_run_def)

lemma ingest_run_evicted:
  assumes "pm_spool (in_pump st) \<noteq> None"
  shows "batches_evicted (spool_of st) \<le> batches_evicted (spool_of (ingest_run env z unzstd cfg as st))"
  using assms
proof (induction as arbitrary: st)
  case (Cons a as)
  note step = ingest_step_evicted [OF Cons.prems, of env z unzstd cfg a]
  from order_trans [OF step [THEN conjunct2] Cons.IH [OF step [THEN conjunct1]]] show ?case
    by (simp only: ingest_run_Cons)
qed (simp add: ingest_run_def)

lemma ingest_step_in_order:
  assumes st: "in_order unzstd made st" and a: "files_work a" and z: "\<forall>x. unzstd (z x) = Some x"
    and ev: "batches_evicted (spool_of (ingest_step env z unzstd cfg a st)) = batches_evicted (spool_of st)"
  shows "in_order unzstd (made @ made_by env a st) (ingest_step env z unzstd cfg a st)"
proof -
  obtain sp where sp: "pm_spool (in_pump st) = Some sp" "spool_of st = sp" "sound sp"
      "accounts (the \<circ> unzstd) made (in_received st) sp"
    using st by (auto simp: in_order_def spool_of_def)
  have unz: "\<forall>x. (the \<circ> unzstd) (z x) = x" using z by simp
  show ?thesis
  proof (cases a)
    case (Answer d)
    show ?thesis
    proof (cases "made_line env d (in_pump st)")
      case None
      then show ?thesis
        using st sp by (simp add: Answer in_order_def spool_of_def pump_step_spool submit_line_def)
    next
      case (Some l)
      then have "pm_status (in_pump st) = Running" by (cases d) (simp_all split: if_splits)
      then show ?thesis
        using Some sp submit_accounts [OF sp(4), of l "pe_spool_config env"]
          submit_sound [OF sp(3), of "pe_spool_config env" l]
        by (simp add: Answer in_order_def spool_of_def pump_step_spool submit_line_def submit_to_def)
    qed
  next
    case (Ship io others)
    with ship_in_order [OF st, of io cfg others] a show ?thesis by simp
  next
    case (Take wio io)
    with write_accounts [OF sp(4,3) _ _ _ unz, of "Recv wio io" "pe_spool_config env"] a ev sp show ?thesis
      by (simp add: in_order_def spool_of_def on_spool_def comp_def del: spool_step.simps)
  next
    case (Idle io)
    with write_accounts [OF sp(4,3) _ _ _ unz, of "Timeout io" "pe_spool_config env"] a ev sp show ?thesis
      by (simp add: in_order_def spool_of_def on_spool_def comp_def del: spool_step.simps)
  qed
qed

lemma ingest_run_in_order:
  assumes "\<forall>a\<in>set as. files_work a" and z: "\<forall>x. unzstd (z x) = Some x" and "in_order unzstd made st"
    and "batches_evicted (spool_of (ingest_run env z unzstd cfg as st)) = batches_evicted (spool_of st)"
  shows "in_order unzstd (made @ made_lines env z unzstd cfg as st) (ingest_run env z unzstd cfg as st)"
  using assms
proof (induction as arbitrary: st made)
  case (Cons a as)
  let ?st = "ingest_step env z unzstd cfg a st"
  have spool: "pm_spool (in_pump st) \<noteq> None" using Cons.prems(3) by (simp add: in_order_def)
  have run: "ingest_run env z unzstd cfg (a # as) st = ingest_run env z unzstd cfg as ?st"
    by (rule ingest_run_Cons)
  note step = ingest_step_evicted [OF spool, of env z unzstd cfg a]
  have ev: "batches_evicted (spool_of ?st) = batches_evicted (spool_of st)"
    using step ingest_run_evicted [OF step [THEN conjunct1], where env = env and z = z and unzstd = unzstd
        and cfg = cfg and as = as] Cons.prems(4) by (simp add: run)
  from ingest_step_in_order [OF Cons.prems(3) _ z ev] Cons.prems(1)
  have "in_order unzstd (made @ made_by env a st) ?st" by simp
  with Cons.IH [of "made @ made_by env a st" ?st] Cons.prems ev show ?case by (simp add: run)
qed (simp add: ingest_run_def)

section \<open>From the driver to the server\<close>

lemma start_in_order: "in_order unzstd [] (ingest_start p sh)"
  by (simp add: ingest_start_def in_order_def spool_of_def sound_def accounts_def writer_start_def spool_new_def
      spool_inv_def names_below_def remove_file_def batch_contents_def active_content_def active_create_def
      ACTIVE_FILE_NAME_def is_batch_name_def starts_with_def)


section \<open>An example\<close>

text \<open>The exit of a thread is decoded, spooled, sealed after a while, and posted.\<close>

definition sample_actions :: "ingest_action list" where
  "sample_actions = [Answer (Delivered (driver_image sample_exit)), Take Write_ok (sample_io 3), Idle (sample_io 3),
     Ship (sample_ship_io 202) []]"

definition sample_line :: bytes where
  "sample_line = [0x7B, 0x7D, newline]"

lemma sample_line_made: "made_line sample_env (Delivered (driver_image sample_exit)) sample_pump = Some sample_line"
proof -
  obtain d where "decode_kernel_event bare_platform (driver_image sample_exit) = Ok d"
    using decode_kernel_event_image [OF sample_exit_ok, of bare_platform "[]"] by auto
  moreover have "length (driver_image sample_exit) \<le> INITIAL_BUF"
    by (simp add: sample_exit_def INITIAL_BUF_def wire_simps wire_sizes)
  ultimately show ?thesis
    by (simp add: sample_pump_def emitted_line_def encode_kernel_event_def encode_decoded_def allows_def map_err_def
        bare_platform_def sample_env_def sample_line_def)
qed

definition sample_spool :: spool where
  "sample_spool = writer_start True True (spool_new [])"

lemma sample_names: "batch_name 3 0 = ''batch-3-0.zst''" "staging_name 3 0 = ''batch-3-0.ndjson''"
  by (simp_all add: batch_name_def staging_name_def dec_def radix.simps digit_def)

lemma sample_spooled:
  "spool_step id sample_config (Timeout (sample_io 3)) (spool_step id sample_config (Recv Write_ok (sample_io 3))
     (snd (try_submit sample_config sample_line sample_spool)))
   = sample_spool\<lparr>sp_dir := [(''batch-3-0.zst'', sample_line), (ACTIVE_FILE_NAME, [])], events_written := 1,
       batches_sealed := 1\<rparr>"
  by (simp add: sample_spool_def writer_start_def spool_new_def try_submit_def sample_config_def on_line_def
      on_timeout_def active_create_def sample_line_def rotate_def seal_active_file_def sample_io_def
      enforce_total_size_cap_def Let_def batch_entries_def remove_file_def is_batch_name_def
      sample_names starts_with_def ends_with_def ACTIVE_FILE_NAME_def)

lemma sample_posted:
  assumes "pm_spool (in_pump st) = Some (sample_spool\<lparr>sp_dir := [(''batch-3-0.zst'', sample_line), (ACTIVE_FILE_NAME, [])],
      events_written := 1, batches_sealed := 1\<rparr>)"
  shows "in_received (ship_turn Some sample_ship_config (sample_ship_io 202) [] st) = in_received st @ [sample_line]"
    and "pm_spool (in_pump (ship_turn Some sample_ship_config (sample_ship_io 202) [] st)) =
      Some (sample_spool\<lparr>sp_dir := [(ACTIVE_FILE_NAME, [])], events_written := 1, batches_sealed := 1\<rparr>)"
  using assms
  by (simp_all add: ship_turn_def on_spool_def posted_def sample_ship_io_def visible_def oldest_batch_def
      consider_entry_def is_batch_name_def starts_with_def ends_with_def ACTIVE_FILE_NAME_def Let_def
      ship_step_def send_one_def delete_batch_def remove_file_def)

lemma sample_run:
  defines "st \<equiv> ingest_run sample_env id Some sample_ship_config sample_actions (ingest_start sample_pump sample_shipper)"
  shows "in_received st = [sample_line]"
    and "pm_spool (in_pump st) =
      Some (sample_spool\<lparr>sp_dir := [(ACTIVE_FILE_NAME, [])], events_written := 1, batches_sealed := 1\<rparr>)"
proof -
  define p where "p = sample_pump\<lparr>pm_spool := Some sample_spool\<rparr>"
  define q where "q = pump_step sample_env (Delivered (driver_image sample_exit)) p"
  have running: "pm_status p = Running" by (simp add: p_def sample_pump_def)
  have p_spool: "pm_spool p = Some sample_spool" by (simp add: p_def)
  have sample_spool_config: "pe_spool_config sample_env = sample_config" by (simp add: sample_env_def)
  note running
  moreover have "made_line sample_env (Delivered (driver_image sample_exit)) p = Some sample_line"
    using sample_line_made by (simp add: p_def)
  ultimately have q: "pm_spool q = Some (snd (try_submit sample_config sample_line sample_spool))"
    using pump_step_spool [of p sample_env "Delivered (driver_image sample_exit)"]
    by (simp add: submit_line_def submit_to_def sample_spool_config p_spool flip: q_def del: pump_step.simps made_line.simps)
  define st' where "st' = ingest_step sample_env id Some sample_ship_config (Idle (sample_io 3))
    (ingest_step sample_env id Some sample_ship_config (Take Write_ok (sample_io 3))
      \<lparr>in_pump = q, in_shipper = sample_shipper, in_received = []\<rparr>)"
  have st: "st = ship_turn Some sample_ship_config (sample_ship_io 202) [] st'"
    using running
    by (simp add: st_def st'_def ingest_run_def sample_actions_def ingest_start_def flip: q_def p_def sample_spool_def
        del: pump_step.simps)
  have "pm_spool (in_pump st') = Some (spool_step id sample_config (Timeout (sample_io 3))
      (spool_step id sample_config (Recv Write_ok (sample_io 3)) (snd (try_submit sample_config sample_line sample_spool))))"
    "in_received st' = []"
    by (simp_all add: st'_def on_spool_def q sample_spool_config del: spool_step.simps)
  with sample_posted [of st'] show "in_received st = [sample_line]"
    "pm_spool (in_pump st) =
      Some (sample_spool\<lparr>sp_dir := [(ACTIVE_FILE_NAME, [])], events_written := 1, batches_sealed := 1\<rparr>)"
    by (simp_all add: sample_spooled st del: spool_step.simps)
qed


end
