(* ===== verification/Spec2Isabelle.thy ===== *)
theory Spec2Isabelle
  imports Plugin_Session Plugin_Server Supervisor Task_Polling Alerts Teardown Pauses Ingest
begin

text \<open>
  The WazabiEDR agent (\<open>src/src\<close>, Rust): it takes the events of a kernel driver, of Windows event
  tracing, of two pollers and of plugin processes, writes them as JSON lines to spools on disk, ships the
  spools to a server, runs detection rules on the events, and executes the server's commands. This
  development models these parts and states what makes each correct. Every theorem that is a property of
  the manifest is preceded by a text that starts with its number.

  \<^bold>\<open>Parts and their interaction.\<close> \<open>main.rs\<close> starts the parts and wires them: the pump, the ETW callbacks and
  the pollers hold the sending end of the kernel spool's channel, the plugin sessions that of the plugin
  spool's; each spool has one writer thread, which seals compressed batches; the shipper watches both
  directories. The pump and the sessions hand events to the detection layer, whose alerts go through a bounded
  channel to the alerts thread; the heartbeat thread pulls the profile (which rewrites the rules, and so
  triggers their reload), executes commands and processes plugin assignments, whose manifests the plugin
  server and the supervisor read. All loops end on one flag (\<open>shutdown.rs\<close>).

  \<^bold>\<open>Shared theories.\<close>
  \<^item> \<open>Prelude\<close>: words of the source's widths, \<open>str\<close> (the UTF-8 bytes of a Rust string), the type \<open>outcome\<close>
    (\<open>Ok\<close>, \<open>Err\<close> and a panic), simplification collections.
  \<^item> \<open>Utf16\<close>, \<open>Text_Util\<close>, \<open>Decimal\<close>, \<open>Paths\<close>, \<open>Json_Value\<close>, \<open>Platform\<close>: what the source uses of the standard
    library, of \<open>serde_json::Value\<close> and of Windows (\<open>util/\<close>, \<open>enrich.rs\<close>).
  \<^item> \<open>Effects\<close>: actions with an explicit \<open>world\<close> (files, and the history of requests, writes and programs with
    their success) under an environment \<open>env\<close> that decides failures and answers from the history; the rules
    \<open>triples\<close> and \<open>keeping\<close> carry the frame proofs of the control plane.
  \<^item> Interfaces: the locales \<open>event_sink\<close> (\<open>Event_Sink\<close>: submit queues or counts; interpreted on the spool),
    \<open>hot_reload\<close> (\<open>Hot_Reload\<close>: fingerprint, reload, keep the old on failure; interpreted on the rules in
    \<open>Detection\<close> and on the manifests in \<open>Manifest\<close>), \<open>snapshot_diff\<close> (\<open>Snapshot_Diff\<close>: replaying the events of a
    difference gives the next snapshot; interpreted on services in \<open>Polling\<close> and tasks in \<open>Task_Polling\<close>) and
    \<open>backoff_policy\<close> (\<open>Backoff\<close>; interpreted in \<open>Shipper\<close> and \<open>Supervisor\<close>).

  \<^bold>\<open>Kernel events.\<close> \<open>Wire_Format\<close> and \<open>Wire_Events\<close> (\<open>ipc/events.rs\<close>) give the byte layout of the seven packed
  structs and reads at checked offsets; \<open>Kernel_Json\<close> and \<open>Kernel_Decode\<close> (\<open>ipc/json.rs\<close>) the JSON of each event,
  the envelope and the entry points; \<open>Kernel_Text\<close> (\<open>ipc/parser.rs\<close>) the console lines; \<open>Pump\<close> (\<open>ipc/device.rs\<close>)
  the loop, one turn per answer of the device; \<open>Emission_Filter\<close> (\<open>filter.rs\<close>) the allow-list. The lemmas show
  that no buffer makes the decoder read outside or panic, that what the driver writes is what is decoded, that
  printer and encoder accept the same buffers, and that the filter does not change what detection sees.

  \<^bold>\<open>Spool and shipping.\<close> \<open>Spool\<close> (\<open>spool/writer.rs\<close>, \<open>spool/file.rs\<close>) has the channel, the writer's loop, rotation,
  sealing and eviction as one step function over \<open>spool_action\<close>, each file operation of which may fail;
  \<open>Spool_Props\<close> has its invariants over every interleaving and the refinement to the list of accepted lines.
  \<open>Shipper\<close> (\<open>shipper/run.rs\<close>), \<open>Base64\<close> and \<open>Credentials\<close> (\<open>shipper/secret.rs\<close>, \<open>shipper/config.rs\<close>) show that a batch
  is deleted only after it was acknowledged, and what blocks the queue. \<open>Ingest\<close> composes the pump, the writer and
  the shipper into one system of three threads over one directory, and follows each line of a kernel event from
  the driver to the server's acknowledgement.

  \<^bold>\<open>Detection.\<close> \<open>Detection\<close> (\<open>detection/\<close>): processing, alerts, reload; the loading and the bootstrap of the rules
  are in \<open>Startup\<close>. \<open>Etw\<close> (\<open>etw/\<close>), \<open>Polling\<close> and \<open>Task_Polling\<close> (\<open>polling/\<close>) are the other sources of events:
  handlers, differences of snapshots, and the walk over the task directory.

  \<^bold>\<open>Plugins.\<close> \<open>Frames\<close> (\<open>plugin/protocol.rs\<close>), \<open>Manifest\<close> (\<open>plugin/manifest.rs\<close>), \<open>Handshake\<close> (\<open>plugin/identity.rs\<close>,
  \<open>validate_handshake\<close>), \<open>Plugin_Session\<close>, \<open>Xml_Enrich\<close>, \<open>Civil_Time\<close> and \<open>Plugin_Server\<close> (\<open>plugin/server.rs\<close>),
  \<open>Supervisor\<close> (\<open>plugin/supervisor.rs\<close>), \<open>Assignment\<close> (\<open>plugin/assignment.rs\<close>). A session is a function of the
  bytes that arrive, in any chunks; the accept loop and the workers are a step relation.

  \<^bold>\<open>Control plane.\<close> \<open>Client\<close> (\<open>control/client.rs\<close>), \<open>Control\<close> (\<open>control/mod.rs\<close>), \<open>Heartbeat\<close>, \<open>Sync\<close> and \<open>Alerts\<close> (files of
  the same names), \<open>Executor\<close>, \<open>Firewall\<close> and \<open>Sha256\<close> (\<open>control/executor.rs\<close>). The lemmas say what each request and
  command does to the world, on every branch, and what it leaves alone.

  \<^bold>\<open>The life of the agent.\<close> \<open>Config\<close> (\<open>config.rs\<close>, \<open>shipper/enroll.rs\<close>) reads, overrides, resolves and enrolls;
  \<open>Startup\<close> (\<open>main.rs\<close> up to the pump) gives the parts that run as a record \<open>running\<close>; \<open>Shutdown\<close> (\<open>shutdown.rs\<close>)
  interleaves the request with the pump's turn; \<open>Pauses\<close> has the pauses of the other threads (their shutdown
  checks in \<open>polling/mod.rs\<close>, \<open>shipper/run.rs\<close>, \<open>plugin/supervisor.rs\<close>, \<open>plugin/server.rs\<close>), with the locale
  \<open>prompt_pause\<close> interpreted on each, and shows that their loops end within the watchdog's eight seconds; \<open>Teardown\<close> (\<open>main.rs\<close> after the pump, \<open>service.rs\<close>) is a step relation
  of main and the threads that remain, with the two spools as modelled in \<open>Spool\<close>.

  \<^bold>\<open>Loops, bounds and fuel.\<close> Threads that run until shutdown are functions of the list of their inputs, or take the
  number of turns as an argument: the theorems hold for every list and number. Loops that end are total
  functions with a measure (the polling of a child process and its time limit, the watchdog, the walk over a
  tree by its size, the scan of an XML text by its length, the reading of a frame by the bytes left, SHA-256 by
  the bytes left), so that no theorem has the form "if it returns". Counters and sizes are words where the source
  wraps them; a \<open>u64\<close> counter that the source only adds to and that no theorem limits is a natural number.

  \<^bold>\<open>Parameters.\<close> Windows (the device, pipes, the service manager, DPAPI, CNG, processes, netsh), the file system,
  HTTP (\<open>ureq\<close>), \<open>zstd\<close>, \<open>serde_json\<close> reading and printing (\<open>codec\<close>), \<open>ferrisetw\<close> and the rule engine
  \<open>wedr-waza-core\<close> are not in the repository: they are arguments, mostly fields of the records \<open>env\<close>, \<open>codec\<close>,
  \<open>exec_host\<close>, \<open>config_host\<close>, \<open>boot\<close> and \<open>rule_library\<close>. Where a property relies on one of them, the documented
  behaviour is a named hypothesis (\<open>serialises\<close>, \<open>reads_pretty\<close>, \<open>reads_profiles\<close>, \<open>netsh_documented\<close>), and the witness
  instantiates it.

  \<^bold>\<open>Not modelled.\<close> The unsafe wrappers of the Windows calls themselves (opening the device, named pipes, signature
  checks, account lookup, queries of the service manager), because their behaviour is that of Windows; the
  messages on standard error, the statistics lines and the help text, which no part reads; the rule language,
  which is another crate; \<open>std\<close> locks, whose critical sections are the steps of the relations, and lock poisoning,
  which the source recovers from and which \<open>panic = "abort"\<close> excludes; time is a number that the environment
  advances, not a clock that can run back.
\<close>

end
